(* ===== verification/DcmPrelude.thy ===== *)
theory DcmPrelude
  imports Main "HOL-Library.Word" "HOL-Library.Monad_Syntax"
begin

unbundle bit_operations_syntax

text \<open>
  Shared vocabulary of the development: the return codes of the sources, C strings and the
  parts of the C library the sources use on them (\<^verbatim>\<open>isspace\<close>, \<^verbatim>\<open>toupper\<close>, \<^verbatim>\<open>strchr\<close>,
  \<^verbatim>\<open>strstr\<close>, \<^verbatim>\<open>strncpy\<close>, \<^verbatim>\<open>strtol\<close>, \<^verbatim>\<open>atoi\<close>, \<^verbatim>\<open>sprintf\<close> of \<^verbatim>\<open>%d\<close>), byte arrays, and
  the generic lemmas the component theories share.

  A C string is the list of its characters before the terminating NUL.  An array access that
  the C code makes out of bounds has no defined result: operations that index an array return
  an option, and \<^const>\<open>None\<close> is that undefined behaviour.
\<close>

named_theorems cstr \<open>characteristic equations of the C string functions\<close>
named_theorems bitarr \<open>bit array operations seen as operations on sets\<close>

subsection \<open>Return codes and widths\<close>

type_synonym u8 = "8 word"
type_synonym cstring = string

abbreviation (input) DCM_SUCCESS :: int where "DCM_SUCCESS \<equiv> 0"
abbreviation (input) DCM_FAILURE :: int where "DCM_FAILURE \<equiv> -1"

definition INT_MAX :: int where "INT_MAX = 2147483647"
definition INT_MIN :: int where "INT_MIN = -2147483648"

text \<open>A value stored in a C \<^verbatim>\<open>int\<close>: two's complement wrap-around to 32 bits.\<close>

definition int32 :: "int \<Rightarrow> int" where
  "int32 x = (x + 2147483648) mod 4294967296 - 2147483648"

text \<open>A value converted to C \<^verbatim>\<open>unsigned int\<close>.\<close>

definition uint32 :: "int \<Rightarrow> int" where
  "uint32 x = x mod 4294967296"

lemma int32_id [simp]: "INT_MIN \<le> x \<Longrightarrow> x \<le> INT_MAX \<Longrightarrow> int32 x = x"
  by (simp add: int32_def INT_MIN_def INT_MAX_def)

lemma int32_range: "INT_MIN \<le> int32 x \<and> int32 x \<le> INT_MAX"
proof -
  have "0 \<le> (x + 2147483648) mod 4294967296" "(x + 2147483648) mod 4294967296 < 4294967296"
    by simp_all
  then show ?thesis unfolding int32_def INT_MIN_def INT_MAX_def by arith
qed

lemma uint32_id [simp]: "0 \<le> x \<Longrightarrow> x < 4294967296 \<Longrightarrow> uint32 x = x"
  by (simp add: uint32_def)

subsection \<open>Characters\<close>

text \<open>The C locale: the daemon never calls \<^verbatim>\<open>setlocale\<close>.\<close>

definition isspace :: "char \<Rightarrow> bool" where
  "isspace c = (c = CHR '' '' \<or> c = CHR 0x09 \<or> c = CHR 0x0A \<or> c = CHR 0x0B \<or> c = CHR 0x0C \<or> c = CHR 0x0D)"

definition isdigit :: "char \<Rightarrow> bool" where
  "isdigit c = (let n = (of_char c :: int) in 48 \<le> n \<and> n \<le> 57)"

definition digit_val :: "char \<Rightarrow> int" where
  "digit_val c = of_char c - 48"

definition toupper :: "char \<Rightarrow> char" where
  "toupper c = (let n = (of_char c :: int) in if 97 \<le> n \<and> n \<le> 122 then char_of (n - 32) else c)"

definition tolower :: "char \<Rightarrow> char" where
  "tolower c = (let n = (of_char c :: int) in if 65 \<le> n \<and> n \<le> 90 then char_of (n + 32) else c)"

definition strcasecmp_eq :: "cstring \<Rightarrow> cstring \<Rightarrow> bool" where
  "strcasecmp_eq a b = (map tolower a = map tolower b)"

subsection \<open>Strings\<close>

definition strchr_has :: "cstring \<Rightarrow> char \<Rightarrow> bool" where
  "strchr_has s c = (c \<in> set s)"

text \<open>\<open>strstr s r\<close>: the suffix of \<open>s\<close> that starts at the first occurrence of \<open>r\<close>, with the
  number of characters before it.\<close>

fun is_prefix :: "cstring \<Rightarrow> cstring \<Rightarrow> bool" where
  "is_prefix [] s = True"
| "is_prefix (c # cs) [] = False"
| "is_prefix (c # cs) (d # ds) = (c = d \<and> is_prefix cs ds)"

fun strstr :: "cstring \<Rightarrow> cstring \<Rightarrow> nat option" where
  "strstr [] r = (if r = [] then Some 0 else None)"
| "strstr (c # s) r = (if is_prefix r (c # s) then Some 0 else map_option Suc (strstr s r))"

text \<open>\<open>strncpy_z dst_size s\<close>: the string left in a buffer of that size which was zeroed before
  \<^verbatim>\<open>strncpy(dst, s, dst_size - 1)\<close>, and the same for \<^verbatim>\<open>snprintf(dst, dst_size, ...)\<close>.\<close>

definition strncpy_z :: "nat \<Rightarrow> cstring \<Rightarrow> cstring" where
  "strncpy_z n s = take (n - 1) s"

text \<open>\<^verbatim>\<open>strcpy\<close> into a buffer of \<open>n\<close> bytes: a longer string overflows the buffer.\<close>

definition strcpy_b :: "nat \<Rightarrow> cstring \<Rightarrow> cstring option" where
  "strcpy_b n s = (if length s < n then Some s else None)"

lemma is_prefix_iff: "is_prefix r s \<longleftrightarrow> (\<exists>t. s = r @ t)"
  by (induction r s rule: is_prefix.induct) auto

lemma is_prefix_take: "is_prefix r s \<longleftrightarrow> take (length r) s = r"
  by (induction r s rule: is_prefix.induct) auto

lemma strstr_Some:
  "strstr s r = Some n \<Longrightarrow> n + length r \<le> length s \<and> take (length r) (drop n s) = r"
proof (induction s arbitrary: n)
  case Nil
  then show ?case by (simp split: if_splits)
next
  case (Cons c s)
  show ?case
  proof (cases "is_prefix r (c # s)")
    case True
    then obtain t where "c # s = r @ t" by (auto simp: is_prefix_iff)
    then have "length r \<le> length (c # s)" by (metis length_append le_add1)
    with True Cons.prems show ?thesis by (simp add: is_prefix_take)
  next
    case False
    with Cons.prems obtain k where "strstr s r = Some k" "n = Suc k" by auto
    with Cons.IH [of k] show ?thesis by simp
  qed
qed

lemma strstr_None: "strstr s r = None \<longleftrightarrow> (\<forall>a b. s \<noteq> a @ r @ b)"
proof (induction s)
  case Nil
  then show ?case by simp
next
  case (Cons c s)
  show ?case
  proof (cases "is_prefix r (c # s)")
    case True
    then obtain t where "c # s = [] @ r @ t" by (auto simp: is_prefix_iff)
    with True show ?thesis by (metis option.distinct(1) strstr.simps(2))
  next
    case False
    then have "\<forall>b. c # s \<noteq> r @ b" by (auto simp: is_prefix_iff)
    then have "(\<forall>a b. c # s \<noteq> a @ r @ b) \<longleftrightarrow> (\<forall>a b. s \<noteq> a @ r @ b)"
      by (auto simp: Cons_eq_append_conv)
    with False Cons.IH show ?thesis by simp
  qed
qed

lemma length_strncpy_z: "0 < n \<Longrightarrow> length (strncpy_z n s) < n"
  by (auto simp: strncpy_z_def)

text \<open>The pieces that repeated calls of \<^verbatim>\<open>fgets(buf, m + 1, f)\<close> deliver: lines with their newline, a
  longer line in pieces of \<open>m\<close> characters.\<close>

fun fgets_acc :: "nat \<Rightarrow> cstring \<Rightarrow> cstring \<Rightarrow> cstring list" where
  "fgets_acc m [] acc = (if acc = [] then [] else [rev acc])"
| "fgets_acc m (c # d) acc =
     (if c = CHR 0x0A \<or> m \<le> Suc (length acc) then rev (c # acc) # fgets_acc m d [] else fgets_acc m d (c # acc))"

definition fgets_all :: "nat \<Rightarrow> cstring \<Rightarrow> cstring list" where
  "fgets_all buf_size d = fgets_acc (buf_size - 1) d []"

lemma concat_fgets: "concat (fgets_acc m d acc) = rev acc @ d"
  by (induction m d acc rule: fgets_acc.induct) auto

lemma fgets_line:
  "CHR 0x0A \<notin> set b \<Longrightarrow> length acc + length b < m \<Longrightarrow>
    fgets_acc m (b @ CHR 0x0A # rest) acc = (rev acc @ b @ [CHR 0x0A]) # fgets_acc m rest []"
  by (induction b arbitrary: acc) auto

lemma length_fgets: "x \<in> set (fgets_acc m d acc) \<Longrightarrow> length acc < m \<Longrightarrow> length x \<le> m"
  by (induction m d acc rule: fgets_acc.induct) (auto split: if_splits)

text \<open>\<^verbatim>\<open>line[len - 1] = 0\<close> when the line ends with a newline.\<close>

definition chomp :: "cstring \<Rightarrow> cstring" where
  "chomp l = (if l \<noteq> [] \<and> last l = CHR 0x0A then butlast l else l)"

definition strcasestr_has :: "cstring \<Rightarrow> cstring \<Rightarrow> bool" where
  "strcasestr_has s r = (strstr (map tolower s) (map tolower r) \<noteq> None)"

subsection \<open>Numbers in strings\<close>

definition digits_val :: "cstring \<Rightarrow> int" where
  "digits_val ds = foldl (\<lambda>a c. 10 * a + digit_val c) 0 ds"

definition LONG_MAX :: int where "LONG_MAX = 9223372036854775807"
definition LONG_MIN :: int where "LONG_MIN = -9223372036854775808"

text \<open>\<open>strtol10 s\<close>: the value of \<^verbatim>\<open>strtol(s, &endptr, 10)\<close>, whether \<^verbatim>\<open>errno\<close> becomes
  \<^verbatim>\<open>ERANGE\<close>, and the string at \<^verbatim>\<open>endptr\<close>.\<close>

definition strtol10 :: "cstring \<Rightarrow> int \<times> bool \<times> cstring" where
  "strtol10 s =
     (let s1 = dropWhile isspace s;
          neg = (s1 \<noteq> [] \<and> hd s1 = CHR ''-'');
          s2 = (if s1 \<noteq> [] \<and> (hd s1 = CHR ''-'' \<or> hd s1 = CHR ''+'') then tl s1 else s1);
          ds = takeWhile isdigit s2;
          rest = dropWhile isdigit s2;
          v = (if neg then - digits_val ds else digits_val ds)
      in if ds = [] then (0, False, s)
         else if v > LONG_MAX then (LONG_MAX, True, rest)
         else if v < LONG_MIN then (LONG_MIN, True, rest)
         else (v, False, rest))"

text \<open>\<^verbatim>\<open>atoi\<close> is \<^verbatim>\<open>(int) strtol(s, NULL, 10)\<close> in the GNU library.\<close>

definition atoi :: "cstring \<Rightarrow> int" where
  "atoi s = int32 (fst (strtol10 s))"

text \<open>\<^verbatim>\<open>sprintf("%d")\<close> of a non-negative number.\<close>

fun nat_dec :: "nat \<Rightarrow> cstring" where
  "nat_dec n = (if n < 10 then [char_of (int n + 48)] else nat_dec (n div 10) @ [char_of (int (n mod 10) + 48)])"

declare nat_dec.simps [simp del]

definition int_dec :: "int \<Rightarrow> cstring" where
  "int_dec i = (if i < 0 then CHR ''-'' # nat_dec (nat (- i)) else nat_dec (nat i))"

lemma char_of_digit [simp]:
  "char_of (48 :: int) = CHR ''0''" "char_of (49 :: int) = CHR ''1''" "char_of (50 :: int) = CHR ''2''"
  "char_of (51 :: int) = CHR ''3''" "char_of (52 :: int) = CHR ''4''" "char_of (53 :: int) = CHR ''5''"
  "char_of (54 :: int) = CHR ''6''" "char_of (55 :: int) = CHR ''7''" "char_of (56 :: int) = CHR ''8''"
  "char_of (57 :: int) = CHR ''9''"
  by code_simp+

lemma isdigit_char_of: "n < 10 \<Longrightarrow> isdigit (char_of (int n + 48))"
  by (simp add: isdigit_def Let_def)

lemma digit_val_char_of: "n < 10 \<Longrightarrow> digit_val (char_of (int n + 48)) = int n"
  by (simp add: digit_val_def)

lemma nat_dec_digits: "nat_dec n \<noteq> [] \<and> (\<forall>c \<in> set (nat_dec n). isdigit c)"
proof (induction n rule: nat_dec.induct)
  case (1 n)
  show ?case
  proof (cases "n < 10")
    case True
    then show ?thesis by (simp add: nat_dec.simps [of n] isdigit_char_of)
  next
    case False
    with 1 show ?thesis by (auto simp: nat_dec.simps [of n] isdigit_char_of)
  qed
qed

lemma digits_val_snoc: "digits_val (ds @ [c]) = 10 * digits_val ds + digit_val c"
  by (simp add: digits_val_def)

lemma digits_val_nat_dec: "digits_val (nat_dec n) = int n"
proof (induction n rule: nat_dec.induct)
  case (1 n)
  show ?case
  proof (cases "n < 10")
    case True
    then show ?thesis by (simp add: nat_dec.simps [of n] digits_val_def digit_val_char_of)
  next
    case False
    with 1 have "digits_val (nat_dec (n div 10)) = int (n div 10)" by simp
    moreover have "digit_val (char_of (int (n mod 10) + 48)) = int (n mod 10)"
      by (rule digit_val_char_of) simp
    ultimately have "digits_val (nat_dec n) = 10 * int (n div 10) + int (n mod 10)"
      using False by (simp only: nat_dec.simps [of n] digits_val_snoc if_False)
    also have "\<dots> = int (10 * (n div 10) + n mod 10)"
      by (simp only: of_nat_add of_nat_mult of_nat_numeral)
    finally show ?thesis by (simp only: mult_div_mod_eq)
  qed
qed

lemma isdigit_not_space: "isdigit c \<Longrightarrow> \<not> isspace c"
  by (auto simp: isdigit_def isspace_def)

lemma isdigit_not_sign: "isdigit c \<Longrightarrow> c \<noteq> CHR ''-'' \<and> c \<noteq> CHR ''+''"
  by (auto simp: isdigit_def)

lemma strtol10_digits:
  assumes "ds \<noteq> []" "\<forall>c \<in> set ds. isdigit c" "digits_val ds \<le> LONG_MAX" "0 \<le> digits_val ds"
  shows "strtol10 ds = (digits_val ds, False, [])"
proof -
  obtain c cs where ds: "ds = c # cs" using assms(1) by (cases ds) auto
  with assms(2) have c: "isdigit c" by simp
  have 1: "dropWhile isspace ds = ds" using ds isdigit_not_space [OF c] by simp
  have 2: "takeWhile isdigit ds = ds" "dropWhile isdigit ds = []" using assms(2) by auto
  have "\<not> digits_val ds < LONG_MIN" using assms(4) by (simp add: LONG_MIN_def)
  with 1 2 assms(1,3) isdigit_not_sign [OF c] show ?thesis
    by (simp add: strtol10_def ds Let_def)
qed

subsection \<open>Byte arrays\<close>

text \<open>Reading and writing one byte of a C array; \<^const>\<open>None\<close> when the index is out of bounds.\<close>

definition aget :: "u8 list \<Rightarrow> nat \<Rightarrow> u8 option" where
  "aget a j = (if j < length a then Some (a ! j) else None)"

definition aset :: "u8 list \<Rightarrow> nat \<Rightarrow> u8 \<Rightarrow> u8 list option" where
  "aset a j v = (if j < length a then Some (a[j := v]) else None)"

text \<open>The set a bit array stands for.\<close>

definition bits_of :: "u8 list \<Rightarrow> nat set" where
  "bits_of a = {i. i div 8 < length a \<and> bit (a ! (i div 8)) (i mod 8)}"

end
