(* ===== verification/CronParse.thy ===== *)
theory CronParse
  imports DcmPrelude
begin

text \<open>
  The cron pattern parser of \<^verbatim>\<open>dcm_cronparse.c\<close> (\<^verbatim>\<open>dcmCronParseExp\<close> and the static
  functions it calls).  Every function keeps its name.  A result of type \<open>'a option\<close> is
  \<^const>\<open>None\<close> when the C code would index an array out of bounds or would not return;
  errors the code reports are values inside it.  The parameter \<open>mem\<close> says which sizes
  \<^verbatim>\<open>malloc\<close> grants.
\<close>

type_synonym allocator = "int \<Rightarrow> bool"

definition CRON_MAX_STR_LEN_TO_SPLIT :: nat where "CRON_MAX_STR_LEN_TO_SPLIT = 256"

definition DAYS_ARR :: "cstring list" where
  "DAYS_ARR = [''SUN'', ''MON'', ''TUE'', ''WED'', ''THU'', ''FRI'', ''SAT'']"

definition MONTHS_ARR :: "cstring list" where
  "MONTHS_ARR = [''FOO'', ''JAN'', ''FEB'', ''MAR'', ''APR'', ''MAY'', ''JUN'', ''JUL'', ''AUG'',
     ''SEP'', ''OCT'', ''NOV'', ''DEC'']"

record dcmCronExpr =
  seconds :: "u8 list"
  minutes :: "u8 list"
  hours :: "u8 list"
  days_of_week :: "u8 list"
  days_of_month :: "u8 list"
  months :: "u8 list"

definition zero_cron_expr :: dcmCronExpr where
  "zero_cron_expr = \<lparr>seconds = replicate 8 0, minutes = replicate 8 0, hours = replicate 3 0,
     days_of_week = replicate 1 0, days_of_month = replicate 4 0, months = replicate 2 0\<rparr>"

subsection \<open>Strings\<close>

definition dcmCronParseToUpper :: "cstring \<Rightarrow> cstring" where
  "dcmCronParseToUpper str = map toupper str"

text \<open>\<^const>\<open>None\<close> is \<^verbatim>\<open>*errcode = 1\<close>.\<close>

definition dcmCronParseParseUint :: "cstring \<Rightarrow> nat option" where
  "dcmCronParseParseUint str =
     (case strtol10 str of (l, erange, rest) \<Rightarrow>
        if erange \<or> rest \<noteq> [] \<or> l < 0 \<or> l > INT_MAX then None else Some (nat l))"

definition dcmCronParseStrDupl :: "allocator \<Rightarrow> cstring \<Rightarrow> nat \<Rightarrow> cstring option" where
  "dcmCronParseStrDupl mem str len = (if mem (int len + 1) then Some (take len str) else None)"

text \<open>The first pass of \<^verbatim>\<open>dcmCronParseStrSplit\<close> counts the tokens.\<close>

fun split_count :: "char \<Rightarrow> cstring \<Rightarrow> nat \<Rightarrow> nat \<Rightarrow> nat" where
  "split_count del [] accum len = (if accum > 0 then len + 1 else len)"
| "split_count del (c # s) accum len =
     (if del = c then
        (if accum > 0 then split_count del s 0 (len + 1) else split_count del s accum len)
      else if \<not> isspace c then split_count del s (accum + 1) len
      else split_count del s accum len)"

text \<open>\<^verbatim>\<open>res[ri++] = tmp\<close> for an array of \<open>slots\<close> pointers; the inner option is a failed
  allocation of the copy.\<close>

definition store_token :: "allocator \<Rightarrow> nat \<Rightarrow> cstring list \<Rightarrow> cstring \<Rightarrow> cstring list option option" where
  "store_token mem slots res buf =
     (case dcmCronParseStrDupl mem buf (length buf) of
        None \<Rightarrow> Some None
      | Some tmp \<Rightarrow> if length res < slots then Some (Some (res @ [tmp])) else None)"

text \<open>The second pass copies the tokens.\<close>

fun split_fill :: "allocator \<Rightarrow> char \<Rightarrow> nat \<Rightarrow> cstring \<Rightarrow> cstring \<Rightarrow> cstring list \<Rightarrow> cstring list option option" where
  "split_fill mem del slots [] buf res =
     (if buf \<noteq> [] then store_token mem slots res buf else Some (Some res))"
| "split_fill mem del slots (c # s) buf res =
     (if del = c then
        (if buf \<noteq> [] then
           (case store_token mem slots res buf of
              None \<Rightarrow> None
            | Some None \<Rightarrow> Some None
            | Some (Some res') \<Rightarrow> split_fill mem del slots s [] res')
         else split_fill mem del slots s buf res)
      else if \<not> isspace c then split_fill mem del slots s (buf @ [c]) res
      else split_fill mem del slots s buf res)"

text \<open>The result is the array (or \<^verbatim>\<open>NULL\<close>) and the value left in \<^verbatim>\<open>*len_out\<close>, which an
  input with no token does not write.\<close>

definition dcmCronParseStrSplit :: "allocator \<Rightarrow> cstring \<Rightarrow> char \<Rightarrow> nat \<Rightarrow> (cstring list option \<times> nat) option" where
  "dcmCronParseStrSplit mem str del len_in =
     (if length str \<ge> CRON_MAX_STR_LEN_TO_SPLIT then Some (None, 0)
      else let len = split_count del str 0 0 in
        if len = 0 then Some (None, len_in)
        else if \<not> mem (int (length str) + 1) then Some (None, 0)
        else if \<not> mem (int len * 8) then Some (None, 0)
        else case split_fill mem del len str [] [] of
            None \<Rightarrow> None
          | Some None \<Rightarrow> Some (None, 0)
          | Some (Some res) \<Rightarrow> Some (Some res, len))"

text \<open>\<^verbatim>\<open>dcmCronParseStrReplace\<close>: the counting loop, the size it allocates (the difference of
  the two \<^verbatim>\<open>UINT32\<close> lengths times the count wraps to 32 bits before it is widened), and the
  copying loop.\<close>

function replace_count :: "cstring \<Rightarrow> cstring \<Rightarrow> nat option" where
  "replace_count ins rep =
     (if rep = [] then None
      else case strstr ins rep of
          None \<Rightarrow> Some 0
        | Some k \<Rightarrow> map_option Suc (replace_count (drop (k + length rep) ins) rep))"
  by pat_completeness auto
termination
proof (relation "measure (\<lambda>(ins, rep). length ins)")
  fix ins rep k
  assume "rep \<noteq> []" "strstr ins rep = Some k"
  with strstr_Some [of ins rep k] show "((drop (k + length rep) ins, rep), (ins, rep)) \<in> measure (\<lambda>(ins, rep). length ins)"
    by (cases rep) auto
qed simp

declare replace_count.simps [simp del]

definition replace_size :: "cstring \<Rightarrow> cstring \<Rightarrow> cstring \<Rightarrow> nat \<Rightarrow> int" where
  "replace_size orig rep with_s count =
     (int (length orig) + uint32 ((int (length with_s) - int (length rep)) * int count) + 1)
     mod 18446744073709551616"

fun replace_copy :: "nat \<Rightarrow> cstring \<Rightarrow> cstring \<Rightarrow> cstring \<Rightarrow> cstring option" where
  "replace_copy 0 orig rep with_s = Some orig"
| "replace_copy (Suc count) orig rep with_s =
     (case strstr orig rep of
        None \<Rightarrow> None
      | Some k \<Rightarrow> map_option (\<lambda>tl. take k orig @ with_s @ tl)
          (replace_copy count (drop (k + length rep) orig) rep with_s))"

definition dcmCronParseStrReplace :: "allocator \<Rightarrow> cstring \<Rightarrow> cstring \<Rightarrow> cstring \<Rightarrow> cstring option option" where
  "dcmCronParseStrReplace mem orig rep with_s = do {
     count \<leftarrow> replace_count orig rep;
     if \<not> mem (replace_size orig rep with_s count) then Some None
     else map_option Some (replace_copy count orig rep with_s) }"

fun replace_ordinals_from :: "allocator \<Rightarrow> nat \<Rightarrow> cstring \<Rightarrow> cstring list \<Rightarrow> cstring option option" where
  "replace_ordinals_from mem i cur [] = Some (Some cur)"
| "replace_ordinals_from mem i cur (name # arr) =
     (case dcmCronParseStrReplace mem cur name (nat_dec i) of
        None \<Rightarrow> None
      | Some None \<Rightarrow> Some None
      | Some (Some res) \<Rightarrow> replace_ordinals_from mem (Suc i) res arr)"

definition dcmCronParseReplaceOrdinals :: "allocator \<Rightarrow> cstring \<Rightarrow> cstring list \<Rightarrow> cstring option option" where
  "dcmCronParseReplaceOrdinals mem value arr =
     (if arr = [] then Some None else replace_ordinals_from mem 0 value arr)"

subsection \<open>Bit arrays\<close>

definition dcmCronParseGetBit :: "u8 list \<Rightarrow> nat \<Rightarrow> bool option" where
  "dcmCronParseGetBit rbyte idx =
     (let j = idx div 8 mod 256; k = idx mod 8 in
      map_option (\<lambda>b. b AND push_bit k 1 \<noteq> 0) (aget rbyte j))"

definition dcmCronParseSetBit :: "u8 list \<Rightarrow> nat \<Rightarrow> u8 list option" where
  "dcmCronParseSetBit rbyte idx =
     (let j = idx div 8 mod 256; k = idx mod 8 in do {
        b \<leftarrow> aget rbyte j; aset rbyte j (b OR push_bit k 1) })"

definition dcmCronParseDelBit :: "u8 list \<Rightarrow> nat \<Rightarrow> u8 list option" where
  "dcmCronParseDelBit rbyte idx =
     (let j = idx div 8 mod 256; k = idx mod 8 in do {
        b \<leftarrow> aget rbyte j; aset rbyte j (b AND NOT (push_bit k 1)) })"

text \<open>\<^verbatim>\<open>dcmCronParseNextSetBit\<close>: the index and the \<^verbatim>\<open>notfound\<close> flag.\<close>

function dcmCronParseNextSetBit :: "u8 list \<Rightarrow> nat \<Rightarrow> nat \<Rightarrow> (nat \<times> bool) option" where
  "dcmCronParseNextSetBit bits max_i i =
     (if i < max_i then
        (case dcmCronParseGetBit bits i of
           None \<Rightarrow> None
         | Some b \<Rightarrow> if b then Some (i, False) else dcmCronParseNextSetBit bits max_i (i + 1))
      else Some (0, True))"
  by pat_completeness auto
termination
  by (relation "measure (\<lambda>(bits, max_i, i). max_i - i)") auto

declare dcmCronParseNextSetBit.simps [simp del]

subsection \<open>Fields of a pattern\<close>

text \<open>The two numbers of a range, or the error return.\<close>

definition range_check :: "nat \<Rightarrow> nat \<Rightarrow> nat \<times> nat \<Rightarrow> (nat \<times> nat) option" where
  "range_check min_v max_v r =
     (if fst r \<ge> max_v \<or> snd r \<ge> max_v then None
      else if fst r < min_v \<or> snd r < min_v then None
      else if fst r > snd r then None
      else Some r)"

definition dcmCronParseGetRange :: "allocator \<Rightarrow> cstring \<Rightarrow> nat \<Rightarrow> nat \<Rightarrow> (nat \<times> nat) option option" where
  "dcmCronParseGetRange mem field min_v max_v =
     (if \<not> mem 8 then Some None
      else if field = ''*'' then Some (range_check min_v max_v (min_v, max_v - 1))
      else if \<not> strchr_has field (CHR ''-'') then
        Some (case dcmCronParseParseUint field of
            None \<Rightarrow> None
          | Some v \<Rightarrow> range_check min_v max_v (v, v))
      else
        (case dcmCronParseStrSplit mem field (CHR ''-'') 0 of
           None \<Rightarrow> None
         | Some (parts, len) \<Rightarrow>
             if len \<noteq> 2 then Some None
             else (case parts of
                 Some [p0, p1] \<Rightarrow>
                   Some (case dcmCronParseParseUint p0 of
                       None \<Rightarrow> None
                     | Some a \<Rightarrow> (case dcmCronParseParseUint p1 of
                           None \<Rightarrow> None
                         | Some b \<Rightarrow> range_check min_v max_v (a, b)))
               | _ \<Rightarrow> None)))"

text \<open>\<^verbatim>\<open>for (i1 = range[0]; i1 <= range[1]; i1 += delta)\<close> on \<^verbatim>\<open>UINT32\<close>.\<close>

partial_function (option) set_bits_step :: "u8 list \<Rightarrow> nat \<Rightarrow> nat \<Rightarrow> nat \<Rightarrow> u8 list option" where
  "set_bits_step target i hi delta =
     (if i \<le> hi then do {
        target' \<leftarrow> dcmCronParseSetBit target i;
        set_bits_step target' (nat (uint32 (int i + int delta))) hi delta }
      else Some target)"

declare set_bits_step.simps [code]

text \<open>One comma-separated item: the return code and the target array.\<close>

definition set_item_hits :: "allocator \<Rightarrow> cstring \<Rightarrow> u8 list \<Rightarrow> nat \<Rightarrow> nat \<Rightarrow> (int \<times> u8 list) option" where
  "set_item_hits mem field target min_v max_v =
     (if \<not> strchr_has field (CHR ''/'') then do {
        range \<leftarrow> dcmCronParseGetRange mem field min_v max_v;
        case range of
          None \<Rightarrow> Some (DCM_FAILURE, target)
        | Some (lo, hi) \<Rightarrow> do { t \<leftarrow> set_bits_step target lo hi 1; Some (DCM_SUCCESS, t) } }
      else do {
        (split, len2) \<leftarrow> dcmCronParseStrSplit mem field (CHR ''/'') 0;
        if len2 \<noteq> 2 then Some (DCM_FAILURE, target)
        else case split of
            Some [s0, s1] \<Rightarrow> do {
              range \<leftarrow> dcmCronParseGetRange mem s0 min_v max_v;
              case range of
                None \<Rightarrow> Some (DCM_FAILURE, target)
              | Some (lo, hi) \<Rightarrow>
                  let hi' = (if \<not> strchr_has s0 (CHR ''-'') then max_v - 1 else hi) in
                  (case dcmCronParseParseUint s1 of
                     None \<Rightarrow> Some (DCM_FAILURE, target)
                   | Some delta \<Rightarrow>
                       if delta = 0 then Some (DCM_FAILURE, target)
                       else do { t \<leftarrow> set_bits_step target lo hi' delta; Some (DCM_SUCCESS, t) }) }
          | _ \<Rightarrow> None })"

fun set_items_hits :: "allocator \<Rightarrow> cstring list \<Rightarrow> u8 list \<Rightarrow> nat \<Rightarrow> nat \<Rightarrow> (int \<times> u8 list) option" where
  "set_items_hits mem [] target min_v max_v = Some (DCM_SUCCESS, target)"
| "set_items_hits mem (f # fs) target min_v max_v =
     (case set_item_hits mem f target min_v max_v of
        None \<Rightarrow> None
      | Some (ret, target') \<Rightarrow>
          if ret \<noteq> DCM_SUCCESS then Some (ret, target')
          else set_items_hits mem fs target' min_v max_v)"

definition dcmCronParseSetNumberHits :: "allocator \<Rightarrow> cstring \<Rightarrow> u8 list \<Rightarrow> nat \<Rightarrow> nat \<Rightarrow> (int \<times> u8 list) option" where
  "dcmCronParseSetNumberHits mem value target min_v max_v =
     (case dcmCronParseStrSplit mem value (CHR '','') 0 of
        None \<Rightarrow> None
      | Some (None, len) \<Rightarrow> Some (DCM_FAILURE, target)
      | Some (Some items, len) \<Rightarrow> set_items_hits mem items target min_v max_v)"

text \<open>\<^verbatim>\<open>dcmCronParseSetMonths\<close> moves bit \<open>i\<close> to bit \<open>i - 1\<close> for the months 1 to 12.\<close>

fun rotate_months :: "nat list \<Rightarrow> u8 list \<Rightarrow> u8 list option" where
  "rotate_months [] targ = Some targ"
| "rotate_months (i # is) targ =
     (case dcmCronParseGetBit targ i of
        None \<Rightarrow> None
      | Some b \<Rightarrow>
          if b then do {
            t1 \<leftarrow> dcmCronParseSetBit targ (i - 1);
            t2 \<leftarrow> dcmCronParseDelBit t1 i;
            rotate_months is t2 }
          else rotate_months is targ)"

definition dcmCronParseSetMonths :: "allocator \<Rightarrow> cstring \<Rightarrow> u8 list \<Rightarrow> (int \<times> u8 list) option" where
  "dcmCronParseSetMonths mem value targ = do {
     replaced \<leftarrow> dcmCronParseReplaceOrdinals mem (dcmCronParseToUpper value) MONTHS_ARR;
     case replaced of
       None \<Rightarrow> Some (DCM_FAILURE, targ)
     | Some r \<Rightarrow> do {
         (ret, t) \<leftarrow> dcmCronParseSetNumberHits mem r targ 1 13;
         t' \<leftarrow> rotate_months [1..<13] t;
         Some (ret, t') } }"

definition dcmCronParseSetDaysOfWeek :: "allocator \<Rightarrow> cstring \<Rightarrow> u8 list \<Rightarrow> (int \<times> u8 list) option" where
  "dcmCronParseSetDaysOfWeek mem field targ =
     (let field1 = (if field = ''?'' then ''*'' else field) in do {
       replaced \<leftarrow> dcmCronParseReplaceOrdinals mem (dcmCronParseToUpper field1) DAYS_ARR;
       case replaced of
         None \<Rightarrow> Some (DCM_FAILURE, targ)
       | Some r \<Rightarrow> do {
           (ret, t) \<leftarrow> dcmCronParseSetNumberHits mem r targ 0 8;
           b \<leftarrow> dcmCronParseGetBit t 7;
           t' \<leftarrow> (if b then do { t1 \<leftarrow> dcmCronParseSetBit t 0; dcmCronParseDelBit t1 7 } else Some t);
           Some (ret, t') } })"

definition dcmCronParseSetDaysOfMonth :: "allocator \<Rightarrow> cstring \<Rightarrow> u8 list \<Rightarrow> (int \<times> u8 list) option" where
  "dcmCronParseSetDaysOfMonth mem field targ =
     (let field1 = (if field = ''?'' then ''*'' else field) in
      dcmCronParseSetNumberHits mem field1 targ 1 32)"

text \<open>The fields are parsed in order, and a failing one leaves the rest of the target zero.\<close>

definition parse_from_minutes ::
  "allocator \<Rightarrow> cstring \<Rightarrow> cstring \<Rightarrow> cstring \<Rightarrow> cstring \<Rightarrow> cstring \<Rightarrow> dcmCronExpr \<Rightarrow> (int \<times> dcmCronExpr) option" where
  "parse_from_minutes mem f0 f1 f2 f3 f4 e = do {
     (ret, a) \<leftarrow> dcmCronParseSetNumberHits mem f0 (minutes e) 0 60;
     let e = e\<lparr>minutes := a\<rparr> in if ret \<noteq> 0 then Some (ret, e) else do {
     (ret, a) \<leftarrow> dcmCronParseSetNumberHits mem f1 (hours e) 0 24;
     let e = e\<lparr>hours := a\<rparr> in if ret \<noteq> 0 then Some (ret, e) else do {
     (ret, a) \<leftarrow> dcmCronParseSetDaysOfMonth mem f2 (days_of_month e);
     let e = e\<lparr>days_of_month := a\<rparr> in if ret \<noteq> 0 then Some (ret, e) else do {
     (ret, a) \<leftarrow> dcmCronParseSetMonths mem f3 (months e);
     let e = e\<lparr>months := a\<rparr> in if ret \<noteq> 0 then Some (ret, e) else do {
     (ret, a) \<leftarrow> dcmCronParseSetDaysOfWeek mem f4 (days_of_week e);
     let e = e\<lparr>days_of_week := a\<rparr> in Some (ret, e) }}}}}"

text \<open>\<^verbatim>\<open>dcmCronParseExp\<close>: both pointers may be \<^verbatim>\<open>NULL\<close>.\<close>

definition dcmCronParseExp :: "allocator \<Rightarrow> cstring option \<Rightarrow> dcmCronExpr option \<Rightarrow> (int \<times> dcmCronExpr option) option" where
  "dcmCronParseExp mem expression target =
     (case expression of
        None \<Rightarrow> Some (DCM_FAILURE, target)
      | Some s \<Rightarrow> (case target of
          None \<Rightarrow> Some (DCM_FAILURE, None)
        | Some _ \<Rightarrow>
            (case dcmCronParseStrSplit mem s (CHR '' '') 0 of
               None \<Rightarrow> None
             | Some (flds, len) \<Rightarrow>
                 if len < 5 \<or> len > 6 then Some (DCM_FAILURE, target)
                 else let e = zero_cron_expr in
                   (case flds of
                     Some [f0, f1, f2, f3, f4, f5] \<Rightarrow> do {
                       (ret, a) \<leftarrow> dcmCronParseSetNumberHits mem f0 (seconds e) 0 60;
                       let e = e\<lparr>seconds := a\<rparr> in
                       if ret \<noteq> 0 then Some (ret, Some e)
                       else map_option (\<lambda>(r, e). (r, Some e)) (parse_from_minutes mem f1 f2 f3 f4 f5 e) }
                   | Some [f0, f1, f2, f3, f4] \<Rightarrow> do {
                       a \<leftarrow> aset (seconds e) 0 1;
                       map_option (\<lambda>(r, e). (r, Some e))
                         (parse_from_minutes mem f0 f1 f2 f3 f4 (e\<lparr>seconds := a\<rparr>)) }
                   | _ \<Rightarrow> None))))"

end
