(* ===== verification/CivilTime.thy ===== *)
theory CivilTime
  imports DcmPrelude
begin

text \<open>
  The broken-down time of the C library as the cron code uses it: \<^verbatim>\<open>struct tm\<close>,
  \<^verbatim>\<open>gmtime_r\<close> and \<^verbatim>\<open>timegm\<close> (\<^verbatim>\<open>dcmCronParseTime\<close> and \<^verbatim>\<open>dcmCronParseMktime\<close> of
  \<^verbatim>\<open>dcm_cronparse.c\<close> are these two calls).  \<open>timegm\<close> accepts fields outside their
  ranges, computes the instant they denote in the proleptic Gregorian calendar and writes the
  normalised fields back; both fail when the year does not fit \<^verbatim>\<open>int tm_year\<close>.

  The lemmas give the two round trips between day numbers and dates, the ranges of the
  normalised fields, and that the date of every day of January is found (which bounds
  searches for a day of the month).
\<close>

record tm =
  tm_sec :: int
  tm_min :: int
  tm_hour :: int
  tm_mday :: int
  tm_mon :: int
  tm_year :: int
  tm_wday :: int

subsection \<open>Years and months\<close>

definition leap_year :: "int \<Rightarrow> bool" where
  "leap_year y = (y mod 4 = 0 \<and> (y mod 100 \<noteq> 0 \<or> y mod 400 = 0))"

text \<open>Days from 1 January of year 1 to 1 January of year \<open>y\<close>.\<close>

definition days_before_year :: "int \<Rightarrow> int" where
  "days_before_year y = 365 * (y - 1) + (y - 1) div 4 - (y - 1) div 100 + (y - 1) div 400"

definition year_length :: "int \<Rightarrow> int" where
  "year_length y = (if leap_year y then 366 else 365)"

text \<open>Days before the first of month \<open>m\<close> (January is 0) within its year.\<close>

definition days_before_month :: "bool \<Rightarrow> int \<Rightarrow> int" where
  "days_before_month l m =
     (if m \<le> 0 then 0 else if m = 1 then 31
      else (if l then 1 else 0) +
        (if m = 2 then 59 else if m = 3 then 90 else if m = 4 then 120 else if m = 5 then 151
         else if m = 6 then 181 else if m = 7 then 212 else if m = 8 then 243
         else if m = 9 then 273 else if m = 10 then 304 else if m = 11 then 334 else 365))"

definition month_of_yday :: "bool \<Rightarrow> int \<Rightarrow> int" where
  "month_of_yday l d =
     (if d < 31 then 0 else if d < days_before_month l 2 then 1
      else if d < days_before_month l 3 then 2 else if d < days_before_month l 4 then 3
      else if d < days_before_month l 5 then 4 else if d < days_before_month l 6 then 5
      else if d < days_before_month l 7 then 6 else if d < days_before_month l 8 then 7
      else if d < days_before_month l 9 then 8 else if d < days_before_month l 10 then 9
      else if d < days_before_month l 11 then 10 else 11)"

text \<open>The year a day number falls in, by cycles of 400, 100, 4 and 1 years.\<close>

definition year_of_day :: "int \<Rightarrow> int" where
  "year_of_day d =
     (let n400 = d div 146097; r = d mod 146097;
          n100 = min 3 (r div 36524); r1 = r - n100 * 36524;
          n4 = r1 div 1461; r2 = r1 mod 1461;
          n1 = min 3 (r2 div 365)
      in 400 * n400 + 100 * n100 + 4 * n4 + n1 + 1)"

lemma div_pred:
  fixes y k :: int
  assumes "0 < k"
  shows "y div k = (y - 1) div k + (if y mod k = 0 then 1 else 0)"
proof (cases "y mod k = 0")
  case True
  then have "y - 1 = k * (y div k - 1) + (k - 1)"
    using div_mult_mod_eq [of y k] by (simp add: algebra_simps)
  then have "(y - 1) div k = y div k - 1"
    using assms by (intro int_div_pos_eq [of _ _ _ "k - 1"]) auto
  with True show ?thesis by simp
next
  case False
  have "0 \<le> y mod k" "y mod k < k" using assms by simp_all
  moreover have "y - 1 = k * (y div k) + (y mod k - 1)"
    using div_mult_mod_eq [of y k] by (simp add: algebra_simps)
  ultimately have "(y - 1) div k = y div k"
    using assms False by (intro int_div_pos_eq [of _ _ _ "y mod k - 1"]) linarith+
  with False show ?thesis by simp
qed

lemma mod_factor_zero:
  fixes y k m :: int
  shows "y mod (k * m) = 0 \<Longrightarrow> y mod k = 0"
  by (metis dvd_mult_left mod_eq_0_iff_dvd)

lemma days_before_year_Suc: "days_before_year (y + 1) = days_before_year y + year_length y"
proof -
  have a: "y div 4 = (y - 1) div 4 + (if y mod 4 = 0 then 1 else 0)" by (rule div_pred) simp
  have b: "y div 100 = (y - 1) div 100 + (if y mod 100 = 0 then 1 else 0)" by (rule div_pred) simp
  have c: "y div 400 = (y - 1) div 400 + (if y mod 400 = 0 then 1 else 0)" by (rule div_pred) simp
  have d: "y mod 400 = 0 \<longrightarrow> y mod 100 = 0" "y mod 100 = 0 \<longrightarrow> y mod 4 = 0"
    using mod_factor_zero [of y 100 4] mod_factor_zero [of y 4 25] by simp_all
  define A where "A = (y - 1) div 4"
  define B where "B = (y - 1) div 100"
  define C where "C = (y - 1) div 400"
  have e0: "days_before_year (y + 1) = 365 * y + y div 4 - y div 100 + y div 400"
    by (simp add: days_before_year_def)
  have e: "days_before_year (y + 1) = 365 * y + (A + (if y mod 4 = 0 then 1 else 0))
      - (B + (if y mod 100 = 0 then 1 else 0)) + (C + (if y mod 400 = 0 then 1 else 0))"
    unfolding e0 A_def B_def C_def by (simp only: a b c)
  have f: "days_before_year y = 365 * (y - 1) + A - B + C"
    by (simp add: days_before_year_def A_def B_def C_def)
  define P where "P = (y mod 4 = 0)"
  define Q where "Q = (y mod 100 = 0)"
  define R where "R = (y mod 400 = 0)"
  have d': "R \<longrightarrow> Q" "Q \<longrightarrow> P" using d by (simp_all only: P_def Q_def R_def)
  show ?thesis
    unfolding e f year_length_def leap_year_def P_def [symmetric] Q_def [symmetric] R_def [symmetric]
    using d' by (cases P; cases Q; cases R) simp_all
qed

lemma year_length_bounds: "365 \<le> year_length y \<and> year_length y \<le> 366"
  by (simp add: year_length_def)

lemma days_before_year_mono_Suc: "days_before_year y < days_before_year (y + 1)"
  using days_before_year_Suc [of y] year_length_bounds [of y] by simp

lemma days_before_year_strict:
  assumes "a < b" shows "days_before_year a < days_before_year b"
proof -
  have "days_before_year a < days_before_year (a + 1 + int n)" for n
  proof (induction n)
    case 0
    show ?case using days_before_year_mono_Suc by simp
  next
    case (Suc n)
    have "a + 1 + int (Suc n) = (a + 1 + int n) + 1" by simp
    with Suc days_before_year_mono_Suc [of "a + 1 + int n"] show ?case
      by (metis order_less_trans)
  qed
  from this [of "nat (b - a - 1)"] assms show ?thesis by simp
qed

lemma days_before_year_mono: "a \<le> b \<Longrightarrow> days_before_year a \<le> days_before_year b"
  using days_before_year_strict [of a b] by (cases "a = b") auto

lemma year_of_day_bounds:
  "days_before_year (year_of_day d) \<le> d \<and> d < days_before_year (year_of_day d + 1)"
proof -
  define n400 where "n400 = d div 146097"
  define r where "r = d mod 146097"
  define n100 where "n100 = min 3 (r div 36524)"
  define r1 where "r1 = r - n100 * 36524"
  define n4 where "n4 = r1 div 1461"
  define r2 where "r2 = r1 mod 1461"
  define n1 where "n1 = min 3 (r2 div 365)"
  have y: "year_of_day d = 400 * n400 + 100 * n100 + 4 * n4 + n1 + 1"
    by (simp add: year_of_day_def Let_def n400_def r_def n100_def r1_def n4_def r2_def n1_def)
  have d: "d = 146097 * n400 + r" "0 \<le> r" "r < 146097" by (simp_all add: n400_def r_def)
  have n100: "0 \<le> n100" "n100 \<le> 3" "0 \<le> r1" "r1 \<le> 36524" "n100 < 3 \<longrightarrow> r1 < 36524"
  proof -
    define q where "q = r div 36524"
    have "r = 36524 * q + r mod 36524" "0 \<le> r mod 36524" "r mod 36524 < 36524"
      by (simp_all add: q_def)
    with d(2,3) have "0 \<le> q" "q \<le> 4" "36524 * q \<le> r" "r < 36524 * q + 36524" by linarith+
    with d(3) show "0 \<le> n100" "n100 \<le> 3" "0 \<le> r1" "r1 \<le> 36524" "n100 < 3 \<longrightarrow> r1 < 36524"
      unfolding n100_def r1_def q_def [symmetric] by (auto simp: min_def)
  qed
  have r1: "r1 = 1461 * n4 + r2" "0 \<le> r2" "r2 < 1461" by (simp_all add: n4_def r2_def)
  have n4: "0 \<le> n4" "n4 \<le> 24" using n100 r1 by linarith+
  have n1: "0 \<le> n1" "n1 \<le> 3" "365 * n1 \<le> r2" "n1 < 3 \<longrightarrow> r2 < 365 * n1 + 365"
  proof -
    define q where "q = r2 div 365"
    have "r2 = 365 * q + r2 mod 365" "0 \<le> r2 mod 365" "r2 mod 365 < 365"
      by (simp_all add: q_def)
    with r1(2,3) have "0 \<le> q" "q \<le> 4" "365 * q \<le> r2" "r2 < 365 * q + 365" by linarith+
    then show "0 \<le> n1" "n1 \<le> 3" "365 * n1 \<le> r2" "n1 < 3 \<longrightarrow> r2 < 365 * n1 + 365"
      unfolding n1_def q_def [symmetric] by (auto simp: min_def)
  qed
  have yy: "(year_of_day d - 1) = 400 * n400 + (100 * n100 + (4 * n4 + n1))" using y by simp
  have q400: "(year_of_day d - 1) div 400 = n400"
    unfolding yy using n100 n4 n1 by (intro int_div_pos_eq [of _ _ _ "100 * n100 + (4 * n4 + n1)"]) auto
  have q100: "(year_of_day d - 1) div 100 = 4 * n400 + n100"
    unfolding yy using n100 n4 n1 by (intro int_div_pos_eq [of _ _ _ "4 * n4 + n1"]) auto
  have q4: "(year_of_day d - 1) div 4 = 100 * n400 + 25 * n100 + n4"
    unfolding yy using n1 by (intro int_div_pos_eq [of _ _ _ n1]) auto
  have dby: "days_before_year (year_of_day d) = 146097 * n400 + 36524 * n100 + 1461 * n4 + 365 * n1"
    unfolding days_before_year_def q400 q100 q4 by (simp only: yy) simp
  have lo: "days_before_year (year_of_day d) \<le> d"
    using dby d(1) r1(1) n1(3) by (simp add: r1_def)
  have yl: "year_length (year_of_day d) = (if n1 = 3 \<and> (n4 \<noteq> 24 \<or> n100 = 3) then 366 else 365)"
  proof -
    have m4: "year_of_day d mod 4 = (n1 + 1) mod 4"
      unfolding y by (simp add: mod_eq_dvd_iff)
    have m100: "year_of_day d mod 100 = (4 * n4 + n1 + 1) mod 100"
      unfolding y by (simp add: mod_eq_dvd_iff)
    have m400: "year_of_day d mod 400 = (100 * n100 + 4 * n4 + n1 + 1) mod 400"
      unfolding y by (simp add: mod_eq_dvd_iff)
    have e4: "(n1 + 1) mod 4 = 0 \<longleftrightarrow> n1 = 3"
      using n1(1,2) zmod_trivial_iff [of "n1 + 1" 4] by auto
    have e100: "(4 * n4 + n1 + 1) mod 100 = 0 \<longleftrightarrow> n4 = 24 \<and> n1 = 3"
      using n1(1,2) n4 by (cases "4 * n4 + n1 + 1 = 100") (auto simp: zmod_trivial_iff)
    have e400: "(100 * n100 + 4 * n4 + n1 + 1) mod 400 = 0 \<longleftrightarrow> n100 = 3 \<and> n4 = 24 \<and> n1 = 3"
      using n1(1,2) n4 n100(1,2) 
    by (cases "100 * n100 + 4 * n4 + n1 + 1 = 400") (simp only: mod_self, linarith, auto simp: zmod_trivial_iff)
    show ?thesis unfolding year_length_def leap_year_def m4 m100 m400 e4 e100 e400 by auto
  qed
  have hi: "d < days_before_year (year_of_day d) + year_length (year_of_day d)"
  proof (cases "n1 = 3")
    case False
    then have "year_length (year_of_day d) = 365" by (simp add: yl)
    with False dby d(1) r1 n1 show ?thesis unfolding r1_def by linarith
  next
    case True
    show ?thesis
    proof (cases "n4 \<noteq> 24 \<or> n100 = 3")
      case T2: True
      with True have "year_length (year_of_day d) = 366" by (simp add: yl)
      with True dby d(1) r1 show ?thesis unfolding r1_def by linarith
    next
      case False
      with True have "year_length (year_of_day d) = 365" by (simp add: yl)
      moreover from False have "r1 < 36524" "n4 = 24" using n100 by auto
      ultimately show ?thesis using True dby d(1) r1 unfolding r1_def by linarith
    qed
  qed
  show ?thesis using lo hi days_before_year_Suc by simp
qed

lemma year_of_day_unique:
  assumes "days_before_year y \<le> d" "d < days_before_year (y + 1)"
  shows "year_of_day d = y"
proof (rule ccontr)
  assume ne: "year_of_day d \<noteq> y"
  have b: "days_before_year (year_of_day d) \<le> d" "d < days_before_year (year_of_day d + 1)"
    using year_of_day_bounds [of d] by simp_all
  show False
  proof (cases "year_of_day d < y")
    case True
    then have "days_before_year (year_of_day d + 1) \<le> days_before_year y"
      by (intro days_before_year_mono) simp
    with b assms show False by simp
  next
    case False
    with ne have "days_before_year (y + 1) \<le> days_before_year (year_of_day d)"
      by (intro days_before_year_mono) simp
    with b assms show False by simp
  qed
qed

lemma year_of_day_mono: "a \<le> b \<Longrightarrow> year_of_day a \<le> year_of_day b"
proof (rule ccontr)
  assume "a \<le> b" "\<not> year_of_day a \<le> year_of_day b"
  then have "days_before_year (year_of_day b + 1) \<le> days_before_year (year_of_day a)"
    by (intro days_before_year_mono) simp
  with \<open>a \<le> b\<close> year_of_day_bounds [of a] year_of_day_bounds [of b] show False by simp
qed

lemma month_of_yday_bounds:
  "0 \<le> d \<Longrightarrow> d < 365 + (if l then 1 else 0) \<Longrightarrow>
   0 \<le> month_of_yday l d \<and> month_of_yday l d \<le> 11 \<and>
   days_before_month l (month_of_yday l d) \<le> d \<and>
   d < days_before_month l (month_of_yday l d) + 31"
  by (cases l) (auto simp: month_of_yday_def days_before_month_def)

subsection \<open>Days since the epoch as dates\<close>

abbreviation (input) epoch_days :: int where "epoch_days \<equiv> 719162"

definition day_year :: "int \<Rightarrow> int" where
  "day_year n = year_of_day (n + epoch_days)"

definition day_yday :: "int \<Rightarrow> int" where
  "day_yday n = n + epoch_days - days_before_year (day_year n)"

definition day_mon :: "int \<Rightarrow> int" where
  "day_mon n = month_of_yday (leap_year (day_year n)) (day_yday n)"

definition day_mday :: "int \<Rightarrow> int" where
  "day_mday n = day_yday n - days_before_month (leap_year (day_year n)) (day_mon n) + 1"

definition day_wday :: "int \<Rightarrow> int" where
  "day_wday n = (n + 4) mod 7"

text \<open>The day a year, month (any integer) and day of the month (any integer) denote.\<close>

definition date_day :: "int \<Rightarrow> int \<Rightarrow> int \<Rightarrow> int" where
  "date_day y m d =
     (let y' = y + m div 12; m' = m mod 12
      in days_before_year y' + days_before_month (leap_year y') m' + (d - 1) - epoch_days)"

lemma day_yday_bounds: "0 \<le> day_yday n \<and> day_yday n < year_length (day_year n)"
  using year_of_day_bounds [of "n + epoch_days"] days_before_year_Suc [of "day_year n"]
  by (simp add: day_yday_def day_year_def)

lemma day_mon_bounds: "0 \<le> day_mon n \<and> day_mon n \<le> 11"
  and day_mday_bounds: "1 \<le> day_mday n \<and> day_mday n \<le> 31"
proof -
  have "day_yday n < 365 + (if leap_year (day_year n) then 1 else 0)"
    using day_yday_bounds [of n] by (simp add: year_length_def split: if_splits)
  then have "0 \<le> day_mon n \<and> day_mon n \<le> 11 \<and>
      days_before_month (leap_year (day_year n)) (day_mon n) \<le> day_yday n \<and>
      day_yday n < days_before_month (leap_year (day_year n)) (day_mon n) + 31"
    unfolding day_mon_def using day_yday_bounds [of n] by (intro month_of_yday_bounds) simp_all
  then show "0 \<le> day_mon n \<and> day_mon n \<le> 11" "1 \<le> day_mday n \<and> day_mday n \<le> 31"
    unfolding day_mday_def by linarith+
qed

lemma day_wday_bounds: "0 \<le> day_wday n \<and> day_wday n \<le> 6"
  unfolding day_wday_def using pos_mod_bound [of 7 "n + 4"] pos_mod_sign [of 7 "n + 4"] by linarith

text \<open>Reading a date back gives the day.\<close>

lemma date_day_roundtrip: "date_day (day_year n) (day_mon n) (day_mday n) = n"
  using day_mon_bounds [of n]
  by (simp add: date_day_def Let_def day_mday_def day_yday_def zdiv_eq_0_iff)

text \<open>The other round trip, for the days of January, which every year has.\<close>

lemma january_day:
  assumes "1 \<le> d" "d \<le> 31"
  shows "day_mday (date_day y 0 d) = d"
proof -
  have yr: "day_year (date_day y 0 d) = y"
    unfolding day_year_def date_day_def Let_def
    using assms days_before_year_Suc [of y] year_length_bounds [of y]
    by (intro year_of_day_unique) (simp_all add: days_before_month_def)
  have yd: "day_yday (date_day y 0 d) = d - 1"
    unfolding day_yday_def yr by (simp add: date_day_def Let_def days_before_month_def)
  show ?thesis
    unfolding day_mday_def day_mon_def yr yd using assms
    by (simp add: month_of_yday_def days_before_month_def)
qed

lemma mday_within_a_year:
  assumes d: "1 \<le> d" "d \<le> 31"
  shows "\<exists>k. 0 \<le> k \<and> k \<le> 365 \<and> day_mday (n + k) = d"
proof -
  define y where "y = day_year n"
  have J: "date_day y' 0 d = days_before_year y' + (d - 1) - epoch_days" for y'
    by (simp add: date_day_def Let_def days_before_month_def)
  have yd: "0 \<le> day_yday n" "day_yday n < year_length y" using day_yday_bounds [of n] by (simp_all add: y_def)
  have n: "n = days_before_year y + day_yday n - epoch_days" by (simp add: day_yday_def y_def)
  show ?thesis
  proof (cases "day_yday n \<le> d - 1")
    case True
    then have "n + (d - 1 - day_yday n) = date_day y 0 d" using n by (simp add: J)
    with january_day [OF d, of y] True yd d show ?thesis
      by (intro exI [of _ "d - 1 - day_yday n"]) simp
  next
    case False
    define k where "k = year_length y - day_yday n + (d - 1)"
    have "n + k = date_day (y + 1) 0 d"
      using n by (simp add: J k_def days_before_year_Suc)
    moreover have "0 \<le> k" "k \<le> 365"
      using False yd d year_length_bounds [of y] by (simp_all add: k_def)
    ultimately show ?thesis using january_day [OF d, of "y + 1"] by (intro exI [of _ k]) simp
  qed
qed

lemma wday_within_a_week:
  assumes "0 \<le> w" "w \<le> 6"
  shows "\<exists>k. 0 \<le> k \<and> k \<le> 6 \<and> day_wday (n + k) = w"
proof (intro exI conjI)
  let ?k = "(w - day_wday n) mod 7"
  show "0 \<le> ?k" "?k \<le> 6"
    using pos_mod_bound [of 7 "w - day_wday n"] pos_mod_sign [of 7 "w - day_wday n"] by linarith+
  have "day_wday (n + ?k) = ((n + 4) + (w - (n + 4) mod 7) mod 7) mod 7"
    unfolding day_wday_def by (simp add: ac_simps)
  also have "\<dots> = ((n + 4) + (w - (n + 4) mod 7)) mod 7" by (rule mod_add_right_eq)
  also have "\<dots> = ((n + 4) mod 7 + (w - (n + 4) mod 7)) mod 7" by (rule mod_add_left_eq [symmetric])
  finally have "day_wday (n + ?k) = w mod 7" by simp
  then show "day_wday (n + ?k) = w" using assms by simp
qed

subsection \<open>Instants\<close>

text \<open>The fields of an instant, in seconds since the epoch.\<close>

definition civil :: "int \<Rightarrow> tm" where
  "civil t = (let n = t div 86400; r = t mod 86400 in
     \<lparr>tm_sec = r mod 60, tm_min = r div 60 mod 60, tm_hour = r div 3600,
      tm_mday = day_mday n, tm_mon = day_mon n, tm_year = day_year n - 1900,
      tm_wday = day_wday n\<rparr>)"

definition year_fits :: "int \<Rightarrow> bool" where
  "year_fits y = (INT_MIN \<le> y \<and> y \<le> INT_MAX)"

definition gmtime_r :: "int \<Rightarrow> tm option" where
  "gmtime_r t = (let c = civil t in if year_fits (tm_year c) then Some c else None)"

text \<open>The instant that possibly unnormalised fields denote; the day of the week is ignored.\<close>

definition tm_secs :: "tm \<Rightarrow> int" where
  "tm_secs c = date_day (tm_year c + 1900) (tm_mon c) (tm_mday c) * 86400
     + tm_hour c * 3600 + tm_min c * 60 + tm_sec c"

text \<open>\<^verbatim>\<open>timegm\<close>: the result and the argument as it leaves it.\<close>

definition timegm :: "tm \<Rightarrow> int \<times> tm" where
  "timegm c = (case gmtime_r (tm_secs c) of None \<Rightarrow> (-1, c) | Some c' \<Rightarrow> (tm_secs c, c'))"

definition day_number :: "int \<Rightarrow> int" where
  "day_number t = t div 86400"

lemma civil_sel [simp]:
  "tm_sec (civil t) = t mod 60"
  "tm_min (civil t) = t div 60 mod 60"
  "tm_hour (civil t) = t div 3600 mod 24"
  "tm_mday (civil t) = day_mday (day_number t)"
  "tm_mon (civil t) = day_mon (day_number t)"
  "tm_year (civil t) = day_year (day_number t) - 1900"
  "tm_wday (civil t) = day_wday (day_number t)"
proof -
  have s: "t mod 86400 mod 60 = t mod 60" by (simp add: mod_mod_cancel)
  have "t mod (60 * (60 * 24)) = 60 * (t div 60 mod (60 * 24)) + t mod 60"
    by (rule zmod_zmult2_eq) simp
  then have "t mod 86400 div 60 = t div 60 mod 1440"
    by simp
  then have m: "t mod 86400 div 60 mod 60 = t div 60 mod 60" by (simp add: mod_mod_cancel)
  have "t mod (3600 * 24) = 3600 * (t div 3600 mod 24) + t mod 3600"
    by (rule zmod_zmult2_eq) simp
  then have h: "t mod 86400 div 3600 = t div 3600 mod 24"
    by simp
  show "tm_sec (civil t) = t mod 60" "tm_min (civil t) = t div 60 mod 60"
    "tm_hour (civil t) = t div 3600 mod 24" "tm_mday (civil t) = day_mday (day_number t)"
    "tm_mon (civil t) = day_mon (day_number t)" "tm_year (civil t) = day_year (day_number t) - 1900"
    "tm_wday (civil t) = day_wday (day_number t)"
    unfolding civil_def Let_def by (simp_all add: s m h day_number_def)
qed

lemma second_decomposition:
  "(t :: int) = day_number t * 86400 + t div 3600 mod 24 * 3600 + t div 60 mod 60 * 60 + t mod 60"
proof -
  have a: "t = 60 * (t div 60) + t mod 60" by simp
  have b: "t div 60 = 60 * (t div 60 div 60) + t div 60 mod 60" by simp
  have c: "t div 60 div 60 = t div 3600" by (simp add: div_mult2_eq [symmetric] zdiv_zmult2_eq [symmetric])
  have d: "t div 3600 = 24 * (t div 3600 div 24) + t div 3600 mod 24" by simp
  have e: "t div 3600 div 24 = day_number t" by (simp add: day_number_def zdiv_zmult2_eq [symmetric])
  show ?thesis using a b c d e by linarith
qed

lemma tm_secs_civil [simp]: "tm_secs (civil t) = t"
  using second_decomposition [of t] by (simp add: tm_secs_def date_day_roundtrip)

lemma timegm_civil: "year_fits (day_year (day_number t) - 1900) \<Longrightarrow> timegm (civil t) = (t, civil t)"
  by (simp add: timegm_def gmtime_r_def)

lemma timegm_eq:
  "year_fits (day_year (day_number (tm_secs c)) - 1900) \<Longrightarrow> timegm c = (tm_secs c, civil (tm_secs c))"
  by (simp add: timegm_def gmtime_r_def)

text \<open>Instants from the epoch to the year 32000000 have a year that fits.\<close>

definition time_limit :: int where "time_limit = 1000000000000000"

lemma year_fits_time:
  assumes "0 \<le> t" "t \<le> time_limit"
  shows "year_fits (day_year (day_number t) - 1900)"
proof -
  have n: "0 \<le> day_number t" "day_number t \<le> 11574074075"
    using assms by (simp_all add: day_number_def time_limit_def)
  have "year_of_day 719162 \<le> day_year (day_number t)"
    unfolding day_year_def using n by (intro year_of_day_mono) simp
  moreover have "year_of_day 719162 = 1970" by (simp add: year_of_day_def Let_def)
  moreover have "day_year (day_number t) \<le> year_of_day 11574793237"
    unfolding day_year_def using n by (intro year_of_day_mono) simp
  moreover have "year_of_day 11574793237 \<le> 40000000" by (simp add: year_of_day_def Let_def)
  ultimately show ?thesis by (simp add: year_fits_def INT_MIN_def INT_MAX_def)
qed

end
