(* ===== verification/CronNext.thy ===== *)
theory CronNext
  imports CronParse CivilTime
begin

text \<open>
  The search for the next instant that matches a parsed pattern
  (\<^verbatim>\<open>dcmCronParseGetNext\<close> of \<^verbatim>\<open>dcm_cronparse.c\<close> and the static functions under it).  A calendar
  that a C function updates through its pointer is returned; \<^const>\<open>None\<close> is undefined
  behaviour (an index out of bounds, a signed overflow) or a call that does not return.
\<close>

abbreviation (input) CRON_CF_SECOND :: int where "CRON_CF_SECOND \<equiv> 0"
abbreviation (input) CRON_CF_MINUTE :: int where "CRON_CF_MINUTE \<equiv> 1"
abbreviation (input) CRON_CF_HOUR_OF_DAY :: int where "CRON_CF_HOUR_OF_DAY \<equiv> 2"
abbreviation (input) CRON_CF_DAY_OF_WEEK :: int where "CRON_CF_DAY_OF_WEEK \<equiv> 3"
abbreviation (input) CRON_CF_DAY_OF_MONTH :: int where "CRON_CF_DAY_OF_MONTH \<equiv> 4"
abbreviation (input) CRON_CF_MONTH :: int where "CRON_CF_MONTH \<equiv> 5"
abbreviation (input) CRON_CF_YEAR :: int where "CRON_CF_YEAR \<equiv> 6"

definition empty_list :: "int list" where
  "empty_list = [-1, -1, -1, -1, -1, -1, -1]"

text \<open>\<^verbatim>\<open>dcmCronParseMktime\<close> and the error check every caller makes on its result.\<close>

definition dcmCronParseMktime :: "tm \<Rightarrow> int \<times> tm" where
  "dcmCronParseMktime c = timegm c"

definition mktime_err :: "tm \<Rightarrow> int \<times> tm" where
  "mktime_err c = (case dcmCronParseMktime c of (res, c') \<Rightarrow> (if res = -1 then 1 else 0, c'))"

text \<open>The \<^verbatim>\<open>switch\<close> over the fields; \<^const>\<open>None\<close> is its default case.\<close>

definition put_field :: "tm \<Rightarrow> int \<Rightarrow> int \<Rightarrow> tm option" where
  "put_field c field v =
     (if field = CRON_CF_SECOND then Some (c\<lparr>tm_sec := v\<rparr>)
      else if field = CRON_CF_MINUTE then Some (c\<lparr>tm_min := v\<rparr>)
      else if field = CRON_CF_HOUR_OF_DAY then Some (c\<lparr>tm_hour := v\<rparr>)
      else if field = CRON_CF_DAY_OF_WEEK then Some (c\<lparr>tm_wday := v\<rparr>)
      else if field = CRON_CF_DAY_OF_MONTH then Some (c\<lparr>tm_mday := v\<rparr>)
      else if field = CRON_CF_MONTH then Some (c\<lparr>tm_mon := v\<rparr>)
      else if field = CRON_CF_YEAR then Some (c\<lparr>tm_year := v\<rparr>)
      else None)"

definition dcmCronParseSetField :: "tm \<Rightarrow> int \<Rightarrow> int \<Rightarrow> int \<times> tm" where
  "dcmCronParseSetField c field v =
     (if field = -1 then (1, c)
      else case put_field c field v of None \<Rightarrow> (1, c) | Some c' \<Rightarrow> mktime_err c')"

definition dcmCronParseResetMin :: "tm \<Rightarrow> int \<Rightarrow> int \<times> tm" where
  "dcmCronParseResetMin c field =
     (if field = -1 then (1, c)
      else case put_field c field (if field = CRON_CF_DAY_OF_MONTH then 1 else 0) of
          None \<Rightarrow> (1, c)
        | Some c' \<Rightarrow> mktime_err c')"

fun dcmCronParseResetAllMin :: "tm \<Rightarrow> int list \<Rightarrow> int \<times> tm" where
  "dcmCronParseResetAllMin c [] = (0, c)"
| "dcmCronParseResetAllMin c (f # fs) =
     (if f \<noteq> -1 then
        (case dcmCronParseResetMin c f of (res, c') \<Rightarrow>
           if res \<noteq> 0 then (res, c') else dcmCronParseResetAllMin c' fs)
      else dcmCronParseResetAllMin c fs)"

text \<open>The sums are on \<^verbatim>\<open>int\<close>.\<close>

definition add_int :: "int \<Rightarrow> int \<Rightarrow> int option" where
  "add_int a b = (if INT_MIN \<le> a + b \<and> a + b \<le> INT_MAX then Some (a + b) else None)"

text \<open>\<open>store_sum\<close> is one case of the \<^verbatim>\<open>switch\<close>: the sum, its store and \<^verbatim>\<open>timegm\<close>.\<close>

definition store_sum :: "int option \<Rightarrow> (int \<Rightarrow> tm) \<Rightarrow> (int \<times> tm) option" where
  "store_sum s store = (case s of None \<Rightarrow> None | Some x \<Rightarrow> Some (mktime_err (store x)))"

definition dcmCronParseAddToField :: "tm \<Rightarrow> int \<Rightarrow> int \<Rightarrow> (int \<times> tm) option" where
  "dcmCronParseAddToField c field v =
     (if field = CRON_CF_SECOND then store_sum (add_int (tm_sec c) v) (\<lambda>x. c\<lparr>tm_sec := x\<rparr>)
      else if field = CRON_CF_MINUTE then store_sum (add_int (tm_min c) v) (\<lambda>x. c\<lparr>tm_min := x\<rparr>)
      else if field = CRON_CF_HOUR_OF_DAY then store_sum (add_int (tm_hour c) v) (\<lambda>x. c\<lparr>tm_hour := x\<rparr>)
      else if field = CRON_CF_DAY_OF_WEEK \<or> field = CRON_CF_DAY_OF_MONTH
        then store_sum (add_int (tm_mday c) v) (\<lambda>x. c\<lparr>tm_mday := x\<rparr>)
      else if field = CRON_CF_MONTH then store_sum (add_int (tm_mon c) v) (\<lambda>x. c\<lparr>tm_mon := x\<rparr>)
      else if field = CRON_CF_YEAR then store_sum (add_int (tm_year c) v) (\<lambda>x. c\<lparr>tm_year := x\<rparr>)
      else Some (1, c))"

fun push_first_free :: "int list \<Rightarrow> int \<Rightarrow> int list" where
  "push_first_free [] fi = []"
| "push_first_free (x # xs) fi = (if x = -1 then fi # xs else x # push_first_free xs fi)"

definition dcmCronParsePushToFieldsArr :: "int list \<Rightarrow> int \<Rightarrow> int list" where
  "dcmCronParsePushToFieldsArr arr fi =
     (if fi = -1 then arr else if fi \<in> set arr then arr else push_first_free arr fi)"

text \<open>The value found, the calendar, and \<^verbatim>\<open>*res_out\<close> (which starts as 0).\<close>

definition roll_over :: "bool \<Rightarrow> tm \<Rightarrow> int \<Rightarrow> int \<Rightarrow> (int \<times> tm) option" where
  "roll_over notfound c field nextField =
     (if notfound then
        (case dcmCronParseAddToField c nextField 1 of
           None \<Rightarrow> None
         | Some (err, c') \<Rightarrow> Some (if err \<noteq> 0 then (err, c') else dcmCronParseResetMin c' field))
      else Some (0, c))"

definition dcmCronParseFindNext ::
  "u8 list \<Rightarrow> nat \<Rightarrow> nat \<Rightarrow> tm \<Rightarrow> int \<Rightarrow> int \<Rightarrow> int list \<Rightarrow> (nat \<times> tm \<times> int) option" where
  "dcmCronParseFindNext bits max_v value c field nextField lower_orders =
     (case dcmCronParseNextSetBit bits max_v value of
        None \<Rightarrow> None
      | Some (next1, notfound1) \<Rightarrow>
     (case roll_over notfound1 c field nextField of
        None \<Rightarrow> None
      | Some (err, c1) \<Rightarrow>
     if err \<noteq> 0 then Some (0, c1, 1)
     else
     (case (if notfound1 then dcmCronParseNextSetBit bits max_v 0 else Some (next1, notfound1)) of
        None \<Rightarrow> None
      | Some (next_value, notfound) \<Rightarrow>
     if notfound \<or> next_value \<noteq> value then
       (case dcmCronParseSetField c1 field (int next_value) of (err, c2) \<Rightarrow>
          if err \<noteq> 0 then Some (0, c2, 1)
          else (case dcmCronParseResetAllMin c2 lower_orders of (err, c3) \<Rightarrow>
            if err \<noteq> 0 then Some (0, c3, 1) else Some (next_value, c3, 0)))
     else Some (next_value, c1, 0))))"

text \<open>The loop of \<^verbatim>\<open>dcmCronParseFindNextDay\<close> with the number of rounds it may still do; the
  result of resetting the lower fields is not looked at.\<close>

fun find_next_day :: "nat \<Rightarrow> tm \<Rightarrow> u8 list \<Rightarrow> nat \<Rightarrow> u8 list \<Rightarrow> nat \<Rightarrow> int list \<Rightarrow> (nat \<times> tm \<times> int) option" where
  "find_next_day n c doms md dows wd resets =
     (case dcmCronParseGetBit doms md of
        None \<Rightarrow> None
      | Some b1 \<Rightarrow>
      (case (if b1 then dcmCronParseGetBit dows wd else Some False) of
        None \<Rightarrow> None
      | Some hit \<Rightarrow>
      if hit then Some (md, c, 0)
      else (case n of
          0 \<Rightarrow> Some (md, c, 0)
        | Suc m \<Rightarrow>
          (case dcmCronParseAddToField c CRON_CF_DAY_OF_MONTH 1 of
             None \<Rightarrow> None
           | Some (err, c1) \<Rightarrow>
             if err \<noteq> 0 then Some (0, c1, 1)
             else find_next_day m (snd (dcmCronParseResetAllMin c1 resets))
                    doms (nat (tm_mday c1)) dows (nat (tm_wday c1)) resets))))"

declare find_next_day.simps [simp del]

definition dcmCronParseFindNextDay ::
  "tm \<Rightarrow> u8 list \<Rightarrow> nat \<Rightarrow> u8 list \<Rightarrow> nat \<Rightarrow> int list \<Rightarrow> (nat \<times> tm \<times> int) option" where
  "dcmCronParseFindNextDay c doms md dows wd resets = find_next_day 366 c doms md dows wd resets"

text \<open>\<^verbatim>\<open>dcmCronParseDoNext\<close> calls itself on the calendar it has moved; the result is the
  return code and the calendar.\<close>

partial_function (option) dcmCronParseDoNext :: "allocator \<Rightarrow> dcmCronExpr \<Rightarrow> tm \<Rightarrow> nat \<Rightarrow> (int \<times> tm) option" where
  "dcmCronParseDoNext mem expr c dot =
     (if \<not> mem 28 then Some (-1, c)
      else let second = nat (tm_sec c) in
      case dcmCronParseFindNext (seconds expr) 60 second c CRON_CF_SECOND CRON_CF_MINUTE empty_list of
        None \<Rightarrow> None
      | Some (update_second, c, res) \<Rightarrow>
      if res \<noteq> 0 then Some (res, c)
      else let resets = (if second = update_second then dcmCronParsePushToFieldsArr empty_list CRON_CF_SECOND
                         else empty_list);
               minute = nat (tm_min c) in
      case dcmCronParseFindNext (minutes expr) 60 minute c CRON_CF_MINUTE CRON_CF_HOUR_OF_DAY resets of
        None \<Rightarrow> None
      | Some (update_minute, c, res) \<Rightarrow>
      do { (res, c) \<leftarrow> (if res = 0 \<and> minute \<noteq> update_minute then dcmCronParseDoNext mem expr c dot else Some (res, c));
      if res \<noteq> 0 then Some (res, c)
      else let resets = (if minute = update_minute then dcmCronParsePushToFieldsArr resets CRON_CF_MINUTE
                         else resets);
               hour = nat (tm_hour c) in
      case dcmCronParseFindNext (hours expr) 24 hour c CRON_CF_HOUR_OF_DAY CRON_CF_DAY_OF_WEEK resets of
        None \<Rightarrow> None
      | Some (update_hour, c, res) \<Rightarrow>
      do { (res, c) \<leftarrow> (if res = 0 \<and> hour \<noteq> update_hour then dcmCronParseDoNext mem expr c dot else Some (res, c));
      if res \<noteq> 0 then Some (res, c)
      else let resets = (if hour = update_hour then dcmCronParsePushToFieldsArr resets CRON_CF_HOUR_OF_DAY
                         else resets);
               day_of_week = nat (tm_wday c);
               day_of_month = nat (tm_mday c) in
      case dcmCronParseFindNextDay c (days_of_month expr) day_of_month (days_of_week expr) day_of_week resets of
        None \<Rightarrow> None
      | Some (update_day_of_month, c, res) \<Rightarrow>
      do { (res, c) \<leftarrow> (if res = 0 \<and> day_of_month \<noteq> update_day_of_month
                        then dcmCronParseDoNext mem expr c dot else Some (res, c));
      if res \<noteq> 0 then Some (res, c)
      else let resets = (if day_of_month = update_day_of_month
                         then dcmCronParsePushToFieldsArr resets CRON_CF_DAY_OF_MONTH else resets);
               month = nat (tm_mon c) in
      case dcmCronParseFindNext (months expr) 12 month c CRON_CF_MONTH CRON_CF_YEAR resets of
        None \<Rightarrow> None
      | Some (update_month, c, res) \<Rightarrow>
      if res \<noteq> 0 then Some (res, c)
      else if month \<noteq> update_month then
        (if uint32 (tm_year c - int dot) > 4 then Some (-1, c)
         else dcmCronParseDoNext mem expr c dot)
      else Some (0, c) } } })"

declare dcmCronParseDoNext.simps [code]

text \<open>\<^verbatim>\<open>dcmCronParseGetNext\<close> on a non-null pattern; -1 is \<^verbatim>\<open>CRON_INVALID_INSTANT\<close>.\<close>

definition dcmCronParseGetNext :: "allocator \<Rightarrow> dcmCronExpr option \<Rightarrow> int \<Rightarrow> int option" where
  "dcmCronParseGetNext mem expression date =
     (case expression of
        None \<Rightarrow> Some (-1)
      | Some expr \<Rightarrow>
     (case gmtime_r date of
        None \<Rightarrow> Some (-1)
      | Some c \<Rightarrow>
     (case dcmCronParseMktime c of (original, c) \<Rightarrow>
     if original = -1 then Some (-1)
     else
     (case dcmCronParseDoNext mem expr c (nat (uint32 (tm_year c))) of
        None \<Rightarrow> None
      | Some (res, c) \<Rightarrow>
     if res \<noteq> 0 then Some (-1)
     else
     (case dcmCronParseMktime c of (calculated, c) \<Rightarrow>
     if calculated = -1 then Some (-1)
     else if calculated = original then
       (case dcmCronParseAddToField c CRON_CF_SECOND 1 of
          None \<Rightarrow> None
        | Some (res, c) \<Rightarrow>
          if res \<noteq> 0 then Some (-1)
          else (case dcmCronParseDoNext mem expr c (nat (uint32 (tm_year c))) of
             None \<Rightarrow> None
           | Some (res, c) \<Rightarrow> if res \<noteq> 0 then Some (-1) else Some (fst (dcmCronParseMktime c))))
     else Some (fst (dcmCronParseMktime c)))))))"

end
