(* ===== verification/CronParseProps.thy ===== *)
theory CronParseProps
  imports CronParse
begin

text \<open>
  Correctness of the cron pattern parser: the bit array operations are set operations, no
  array is indexed out of bounds and every loop ends, a pattern that is accepted gives
  non-empty sets inside the ranges of the fields, and a pattern printed from an abstract
  schedule is read back as that schedule.
\<close>

subsection \<open>Bit arrays as sets\<close>

lemma dcmCronParseGetBit_eq [bitarr]:
  "idx div 8 < length a \<Longrightarrow> length a \<le> 256 \<Longrightarrow> dcmCronParseGetBit a idx = Some (idx \<in> bits_of a)"
  by (simp add: dcmCronParseGetBit_def aget_def bits_of_def bit_iff_and_push_bit_not_eq_0)

lemma bits_of_update:
  assumes j: "idx div 8 < length a"
  shows "bits_of (a[idx div 8 := (a ! (idx div 8)) OR push_bit (idx mod 8) 1]) = insert idx (bits_of a)"
    and "bits_of (a[idx div 8 := (a ! (idx div 8)) AND NOT (push_bit (idx mod 8) 1)]) = bits_of a - {idx}"
proof -
  have b: "bit (push_bit (idx mod 8) (1 :: u8)) n \<longleftrightarrow> n = idx mod 8" for n
    by (auto simp: bit_exp_iff)
  then have b': "bit ((2 :: u8) ^ (idx mod 8)) n \<longleftrightarrow> n = idx mod 8" for n
    by simp
  have "i \<in> bits_of (a[idx div 8 := (a ! (idx div 8)) OR push_bit (idx mod 8) 1]) \<longleftrightarrow> i = idx \<or> i \<in> bits_of a" for i
  proof (cases "i div 8 = idx div 8")
    case True
    then have "i = idx \<longleftrightarrow> i mod 8 = idx mod 8" by (metis div_mult_mod_eq)
    with True j show ?thesis
      unfolding bits_of_def mem_Collect_eq length_list_update by (simp add: bit_or_iff b' disj_commute)
  next
    case False
    with j show ?thesis by (auto simp: bits_of_def)
  qed
  then show "bits_of (a[idx div 8 := (a ! (idx div 8)) OR push_bit (idx mod 8) 1]) = insert idx (bits_of a)"
    by blast
  have "i \<in> bits_of (a[idx div 8 := (a ! (idx div 8)) AND NOT (push_bit (idx mod 8) 1)]) \<longleftrightarrow> i \<noteq> idx \<and> i \<in> bits_of a" for i
  proof (cases "i div 8 = idx div 8")
    case True
    then have "i = idx \<longleftrightarrow> i mod 8 = idx mod 8" by (metis div_mult_mod_eq)
    moreover have "bit (NOT (push_bit (idx mod 8) (1 :: u8))) (i mod 8) \<longleftrightarrow> i mod 8 \<noteq> idx mod 8"
      unfolding bit_not_iff b by simp
    ultimately show ?thesis using True j
      unfolding bits_of_def mem_Collect_eq length_list_update by (simp add: bit_and_iff conj_commute)
  next
    case False
    with j show ?thesis by (auto simp: bits_of_def)
  qed
  then show "bits_of (a[idx div 8 := (a ! (idx div 8)) AND NOT (push_bit (idx mod 8) 1)]) = bits_of a - {idx}"
    by blast
qed

lemma dcmCronParseSetBit_ex [bitarr]:
  assumes "idx div 8 < length a" "length a \<le> 256"
  obtains a' where "dcmCronParseSetBit a idx = Some a'" "length a' = length a" "bits_of a' = insert idx (bits_of a)"
  using assms bits_of_update(1) [of idx a]
  by (simp add: dcmCronParseSetBit_def aget_def aset_def Let_def)

lemma dcmCronParseDelBit_ex:
  assumes "idx div 8 < length a" "length a \<le> 256"
  obtains a' where "dcmCronParseDelBit a idx = Some a'" "length a' = length a" "bits_of a' = bits_of a - {idx}"
  using assms bits_of_update(2) [of idx a]
  by (simp add: dcmCronParseDelBit_def aget_def aset_def Let_def)

lemma bits_of_zero [simp]: "bits_of (replicate n 0) = {}"
  by (auto simp: bits_of_def)

lemma bits_of_zero_byte [simp]: "bits_of [0] = {}"
  using bits_of_zero [of 1] by simp

text \<open>The loop over a range with a step, which cannot wrap around.\<close>

definition steps_set :: "nat \<Rightarrow> nat \<Rightarrow> nat \<Rightarrow> nat set" where
  "steps_set i hi delta = {j. \<exists>k. j = i + k * delta \<and> j \<le> hi}"

lemma steps_set_unfold:
  assumes "0 < delta"
  shows "steps_set i hi delta = (if i \<le> hi then insert i (steps_set (i + delta) hi delta) else {})"
proof -
  have "(\<exists>k. j = i + k * delta) \<longleftrightarrow> j = i \<or> (\<exists>k. j = i + delta + k * delta)" for j
  proof
    assume "\<exists>k. j = i + k * delta"
    then obtain k where k: "j = i + k * delta" by blast
    show "j = i \<or> (\<exists>k. j = i + delta + k * delta)"
      using k by (cases k) auto
  next
    assume "j = i \<or> (\<exists>k. j = i + delta + k * delta)"
    then show "\<exists>k. j = i + k * delta"
    proof
      assume "j = i"
      then have "j = i + 0 * delta" by simp
      then show ?thesis by blast
    next
      assume "\<exists>k. j = i + delta + k * delta"
      then obtain k where "j = i + Suc k * delta" by (auto simp: add.assoc)
      then show ?thesis by blast
    qed
  qed
  then show ?thesis by (auto simp: steps_set_def)
qed

lemma set_bits_step_ex:
  assumes "hi < 8 * length a" "length a \<le> 256" "0 < delta" "int delta \<le> INT_MAX"
  shows "\<exists>a'. set_bits_step a i hi delta = Some a' \<and> length a' = length a \<and>
     bits_of a' = bits_of a \<union> steps_set i hi delta"
  using assms
proof (induction "hi + 1 - i" arbitrary: i a rule: less_induct)
  case less
  show ?case
  proof (cases "i \<le> hi")
    case False
    then show ?thesis using less.prems
      by (simp add: set_bits_step.simps steps_set_unfold)
  next
    case True
    with less.prems have "i div 8 < length a" by (simp add: less_mult_imp_div_less mult.commute)
    then obtain a1 where a1: "dcmCronParseSetBit a i = Some a1" "length a1 = length a"
      "bits_of a1 = insert i (bits_of a)"
      using less.prems(2) by (rule dcmCronParseSetBit_ex)
    have n: "nat (uint32 (int i + int delta)) = i + delta"
      using True less.prems by (simp add: INT_MAX_def)
    have "\<exists>a'. set_bits_step a1 (i + delta) hi delta = Some a' \<and> length a' = length a1 \<and>
        bits_of a' = bits_of a1 \<union> steps_set (i + delta) hi delta"
      using less.prems a1 True by (intro less.hyps) auto
    then show ?thesis using a1 True less.prems(3)
      by (auto simp: set_bits_step.simps [of a i] n steps_set_unfold [of delta i])
  qed
qed

subsection \<open>Splitting\<close>

lemma split_count_acc: "split_count del s a n = n + split_count del s a 0"
proof (induction s arbitrary: a n)
  case Nil
  show ?case by simp
next
  case (Cons c s)
  show ?case
    using Cons.IH [of 0 "n + 1"] Cons.IH [of 0 1] Cons.IH [of 0 n] Cons.IH [of a n] Cons.IH [of "a + 1" n]
    by auto
qed

lemma store_token_ok:
  "length res < slots \<Longrightarrow>
   store_token mem slots res buf = (if mem (int (length buf) + 1) then Some (Some (res @ [buf])) else Some None)"
  by (simp add: store_token_def dcmCronParseStrDupl_def)

text \<open>The second pass never writes past the array that the first pass sized, and fills it.\<close>

lemma split_fill_ok:
  "length res + split_count del s (length buf) 0 \<le> slots \<Longrightarrow>
   split_fill mem del slots s buf res = Some None \<or>
   (\<exists>toks. split_fill mem del slots s buf res = Some (Some toks) \<and>
           length toks = length res + split_count del s (length buf) 0)"
proof (induction s arbitrary: buf res)
  case Nil
  then show ?case by (auto simp: store_token_ok)
next
  case (Cons c s)
  show ?case
  proof (cases "del = c")
    case T: True
    show ?thesis
    proof (cases "buf = []")
      case True
      with T Cons.prems Cons.IH [of res "[]"] show ?thesis by simp
    next
      case False
      with T Cons.prems have le: "length res + Suc (split_count c s 0 0) \<le> slots"
        using split_count_acc [of c s 0 1] by simp
      show ?thesis
        using T False le Cons.IH [of "res @ [buf]" "[]"] split_count_acc [of c s 0 1]
        by (auto simp: store_token_ok)
    qed
  next
    case False
    then show ?thesis
      using Cons.prems Cons.IH [of res "buf @ [c]"] Cons.IH [of res buf] by (auto split: if_splits)
  qed
qed

lemma dcmCronParseStrSplit_cases:
  obtains (none) n where "dcmCronParseStrSplit mem str del len_in = Some (None, n)" "n = 0 \<or> n = len_in"
  | (some) toks where "dcmCronParseStrSplit mem str del len_in = Some (Some toks, length toks)" "toks \<noteq> []"
proof -
  show thesis
  proof (cases "length str < CRON_MAX_STR_LEN_TO_SPLIT \<and> 0 < split_count del str 0 0 \<and>
      mem (int (length str) + 1) \<and> mem (int (split_count del str 0 0) * 8)")
    case 4: True
    consider (a) "split_fill mem del (split_count del str 0 0) str [] [] = Some None"
      | (b) toks where "split_fill mem del (split_count del str 0 0) str [] [] = Some (Some toks)"
        "length toks = split_count del str 0 0"
      using split_fill_ok [of "[]" del str "[]" "split_count del str 0 0" mem] by auto
    then show thesis
    proof cases
      case a
      with 4 show thesis by (intro none [of 0]) (simp_all add: dcmCronParseStrSplit_def Let_def)
    next
      case (b toks)
      with 4 show thesis by (intro some [of toks]) (auto simp: dcmCronParseStrSplit_def Let_def)
    qed
  next
    case False
    then have "\<exists>n. dcmCronParseStrSplit mem str del len_in = Some (None, n) \<and> (n = 0 \<or> n = len_in)"
      by (auto simp: dcmCronParseStrSplit_def Let_def)
    then show thesis using none by blast
  qed
qed

subsection \<open>Replacing names\<close>

lemma replace_copy_ok:
  "replace_count orig rep = Some n \<Longrightarrow> \<exists>r. replace_copy n orig rep w = Some r"
proof (induction n arbitrary: orig)
  case 0
  show ?case by simp
next
  case (Suc n)
  then obtain k where "strstr orig rep = Some k" "replace_count (drop (k + length rep) orig) rep = Some n"
    by (auto simp: replace_count.simps [of orig] split: if_splits option.splits)
  with Suc.IH [of "drop (k + length rep) orig"] show ?case by auto
qed

lemma replace_count_ex: "rep \<noteq> [] \<Longrightarrow> \<exists>n. replace_count orig rep = Some n"
proof (induction orig rep rule: replace_count.induct)
  case (1 ins rep)
  show ?case
  proof (cases "strstr ins rep")
    case None
    with 1 show ?thesis by (simp add: replace_count.simps [of ins])
  next
    case (Some k)
    with 1 show ?thesis by (auto simp: replace_count.simps [of ins])
  qed
qed

lemma dcmCronParseStrReplace_ok: "rep \<noteq> [] \<Longrightarrow> dcmCronParseStrReplace mem orig rep w \<noteq> None"
  using replace_count_ex [of rep orig] replace_copy_ok [of orig rep _ w]
  by (fastforce simp: dcmCronParseStrReplace_def)

lemma replace_ordinals_from_ok: "[] \<notin> set arr \<Longrightarrow> replace_ordinals_from mem i cur arr \<noteq> None"
proof (induction arr arbitrary: i cur)
  case Nil
  show ?case by simp
next
  case (Cons a arr)
  then have "dcmCronParseStrReplace mem cur a (nat_dec i) \<noteq> None"
    by (intro dcmCronParseStrReplace_ok) auto
  with Cons show ?case by (auto split: option.splits)
qed

lemma dcmCronParseReplaceOrdinals_ok:
  "[] \<notin> set arr \<Longrightarrow> dcmCronParseReplaceOrdinals mem v arr \<noteq> None"
  using replace_ordinals_from_ok [of arr mem 0 v] by (simp add: dcmCronParseReplaceOrdinals_def)

subsection \<open>Ranges and items\<close>

lemma range_check_Some:
  "range_check lo hi r = Some (a, b) \<longleftrightarrow> r = (a, b) \<and> lo \<le> a \<and> a \<le> b \<and> b < hi"
  by (cases r) (auto simp: range_check_def)

lemma dcmCronParseGetRange_ok: "dcmCronParseGetRange mem field lo hi \<noteq> None"
proof (cases rule: dcmCronParseStrSplit_cases [of mem field "CHR ''-''" 0])
  case (some toks)
  then show ?thesis
    by (auto simp: dcmCronParseGetRange_def numeral_2_eq_2 length_Suc_conv split: option.splits)
qed (auto simp: dcmCronParseGetRange_def)

lemma dcmCronParseGetRange_bounds:
  assumes "dcmCronParseGetRange mem field lo hi = Some (Some (a, b))"
  shows "lo \<le> a \<and> a \<le> b \<and> b < hi"
proof -
  have "\<exists>r. range_check lo hi r = Some (a, b)"
    using assms unfolding dcmCronParseGetRange_def
    by (auto split: if_splits option.splits list.splits simp del: split_paired_Ex)
  then show ?thesis by (auto simp: range_check_Some)
qed

lemma dcmCronParseParseUint_le: "dcmCronParseParseUint s = Some n \<Longrightarrow> int n \<le> INT_MAX"
  by (auto simp: dcmCronParseParseUint_def split: prod.splits if_splits)

text \<open>What one parsing step may do to the target array.\<close>

definition hits_ok :: "u8 list \<Rightarrow> nat \<Rightarrow> nat \<Rightarrow> int \<times> u8 list \<Rightarrow> bool" where
  "hits_ok t lo hi r = (length (snd r) = length t \<and> (fst r = 0 \<or> fst r = -1) \<and>
     (\<exists>S. bits_of (snd r) = bits_of t \<union> S \<and> S \<subseteq> {lo..<hi} \<and> (fst r = 0 \<longrightarrow> S \<noteq> {})))"

lemma hits_ok_fail [simp]: "hits_ok t lo hi (-1, t)"
  by (auto simp: hits_ok_def)

lemma hits_ok_trans:
  assumes "hits_ok t lo hi (r1, t1)" "hits_ok t1 lo hi (r2, t2)"
  shows "hits_ok t lo hi (r2, t2)"
proof -
  obtain S1 where S1: "bits_of t1 = bits_of t \<union> S1" "S1 \<subseteq> {lo..<hi}"
    using assms(1) by (auto simp: hits_ok_def)
  obtain S2 where S2: "bits_of t2 = bits_of t1 \<union> S2" "S2 \<subseteq> {lo..<hi}" "r2 = 0 \<longrightarrow> S2 \<noteq> {}"
    using assms(2) by (auto simp: hits_ok_def)
  have "bits_of t2 = bits_of t \<union> (S1 \<union> S2)" "S1 \<union> S2 \<subseteq> {lo..<hi}" "r2 = 0 \<longrightarrow> S1 \<union> S2 \<noteq> {}"
    using S1 S2 by auto
  moreover have "length t2 = length t" "r2 = 0 \<or> r2 = -1" using assms by (auto simp: hits_ok_def)
  ultimately show ?thesis unfolding hits_ok_def fst_conv snd_conv by blast
qed

lemma hits_ok_step:
  assumes "lo \<le> a" "a \<le> b" "b < hi" "hi \<le> 8 * length t" "length t \<le> 256" "0 < d" "int d \<le> INT_MAX"
  shows "\<exists>t'. set_bits_step t a b d = Some t' \<and> hits_ok t lo hi (0, t')"
proof -
  obtain t' where t': "set_bits_step t a b d = Some t'" "length t' = length t"
    "bits_of t' = bits_of t \<union> steps_set a b d"
    using set_bits_step_ex [of b t d a] assms by auto
  have "steps_set a b d \<subseteq> {lo..<hi}" using assms by (auto simp: steps_set_def)
  moreover have "a \<in> steps_set a b d" using assms by (simp add: steps_set_unfold)
  ultimately show ?thesis using t' by (auto simp: hits_ok_def)
qed

lemma set_item_hits_ok:
  assumes "hi \<le> 8 * length t" "length t \<le> 256"
  shows "\<exists>r. set_item_hits mem f t lo hi = Some r \<and> hits_ok t lo hi r"
proof (cases "strchr_has f (CHR ''/'')")
  case False
  obtain r where r: "dcmCronParseGetRange mem f lo hi = Some r"
    using dcmCronParseGetRange_ok [of mem f lo hi] by auto
  show ?thesis
  proof (cases r)
    case None
    with r False show ?thesis by (simp add: set_item_hits_def)
  next
    case (Some ab)
    obtain a b where ab: "ab = (a, b)" by (cases ab)
    have "\<exists>t'. set_bits_step t a b 1 = Some t' \<and> hits_ok t lo hi (0, t')"
      using dcmCronParseGetRange_bounds [of mem f lo hi a b] r Some ab assms
      by (intro hits_ok_step) (auto simp: INT_MAX_def)
    with r False Some ab show ?thesis by (auto simp: set_item_hits_def)
  qed
next
  case True
  show ?thesis
  proof (cases rule: dcmCronParseStrSplit_cases [of mem f "CHR ''/''" 0])
    case none
    with True show ?thesis by (auto simp: set_item_hits_def)
  next
    case (some toks)
    show ?thesis
    proof (cases "length toks = 2")
      case False
      with True some show ?thesis by (simp add: set_item_hits_def)
    next
      case T2: True
      then obtain s0 s1 where toks: "toks = [s0, s1]"
        by (auto simp: numeral_2_eq_2 length_Suc_conv)
      obtain r where r: "dcmCronParseGetRange mem s0 lo hi = Some r"
        using dcmCronParseGetRange_ok [of mem s0 lo hi] by auto
      show ?thesis
      proof (cases "r = None \<or> dcmCronParseParseUint s1 = None \<or> dcmCronParseParseUint s1 = Some 0")
        case F: True
        with r True some toks show ?thesis
          by (auto simp: set_item_hits_def split: option.splits)
      next
        case F: False
        then obtain a b d where abd: "r = Some (a, b)" "dcmCronParseParseUint s1 = Some d" "d \<noteq> 0"
          by auto
        let ?b = "if \<not> strchr_has s0 (CHR ''-'') then hi - 1 else b"
        have "\<exists>t'. set_bits_step t a ?b d = Some t' \<and> hits_ok t lo hi (0, t')"
          using dcmCronParseGetRange_bounds [of mem s0 lo hi a b] r abd assms
            dcmCronParseParseUint_le [of s1 d]
          by (intro hits_ok_step) auto
        with r True some toks abd show ?thesis by (auto simp: set_item_hits_def Let_def)
      qed
    qed
  qed
qed

lemma set_items_hits_ok:
  assumes "hi \<le> 8 * length t" "length t \<le> 256"
  shows "\<exists>r. set_items_hits mem fs t lo hi = Some r \<and> (fs \<noteq> [] \<longrightarrow> hits_ok t lo hi r) \<and>
     (fs = [] \<longrightarrow> r = (0, t))"
  using assms
proof (induction fs arbitrary: t)
  case Nil
  show ?case by simp
next
  case (Cons f fs)
  obtain ret t1 where 1: "set_item_hits mem f t lo hi = Some (ret, t1)" "hits_ok t lo hi (ret, t1)"
    using set_item_hits_ok [OF Cons.prems] by fastforce
  show ?case
  proof (cases "ret = 0 \<and> fs \<noteq> []")
    case False
    with 1 show ?thesis by (cases "ret = 0") auto
  next
    case True
    have "hi \<le> 8 * length t1" "length t1 \<le> 256" using 1(2) Cons.prems by (auto simp: hits_ok_def)
    then obtain r2 t2 where 2: "set_items_hits mem fs t1 lo hi = Some (r2, t2)" "hits_ok t1 lo hi (r2, t2)"
      using Cons.IH [of t1] True by fastforce
    have "hits_ok t lo hi (r2, t2)"
      using 1(2) 2(2) by (rule hits_ok_trans)
    with 1 2 True show ?thesis by simp
  qed
qed

lemma dcmCronParseSetNumberHits_ok:
  assumes "hi \<le> 8 * length t" "length t \<le> 256"
  obtains ret t' where "dcmCronParseSetNumberHits mem v t lo hi = Some (ret, t')" "hits_ok t lo hi (ret, t')"
proof (cases rule: dcmCronParseStrSplit_cases [of mem v "CHR '',''" 0])
  case none
  then show thesis by (intro that [of "-1" t]) (auto simp: dcmCronParseSetNumberHits_def)
next
  case (some toks)
  with set_items_hits_ok [OF assms, of mem toks lo] show thesis
    by (auto simp: dcmCronParseSetNumberHits_def intro: that)
qed

subsection \<open>Months and days of the week\<close>

lemma rotate_months_step:
  assumes "k \<le> 13" "1 \<le> k" "length t = 2" "S \<subseteq> {1..12}"
    "bits_of t = (\<lambda>i. i - 1) ` (S \<inter> {..<k}) \<union> (S \<inter> {k..})"
  shows "\<exists>t'. rotate_months [k..<13] t = Some t' \<and> length t' = 2 \<and> bits_of t' = (\<lambda>i. i - 1) ` S"
  using assms
proof (induction "13 - k" arbitrary: k t)
  case 0
  then have "k = 13" by simp
  moreover have "S \<inter> {..<13} = S" "S \<inter> {13..} = {}" using "0.prems"(4) by force+
  ultimately show ?case using "0.prems" by simp
next
  case (Suc n)
  then have k: "k \<le> 12" "[k..<13] = k # [Suc k..<13]" by (simp_all add: upt_conv_Cons)
  have g: "dcmCronParseGetBit t k = Some (k \<in> S)"
  proof -
    have "k \<in> bits_of t \<longleftrightarrow> k \<in> S" using Suc.prems by auto
    with k Suc.prems show ?thesis by (simp add: dcmCronParseGetBit_eq)
  qed
  show ?case
  proof (cases "k \<in> S")
    case False
    have "S \<inter> {..<k} = S \<inter> {..<Suc k}" "S \<inter> {k..} = S \<inter> {Suc k..}"
      using False by (auto simp: less_Suc_eq Suc_le_eq order.order_iff_strict)
    then show ?thesis using Suc.hyps Suc.prems k g False by simp
  next
    case True
    obtain t1 where t1: "dcmCronParseSetBit t (k - 1) = Some t1" "length t1 = length t"
      "bits_of t1 = insert (k - 1) (bits_of t)"
    proof (rule dcmCronParseSetBit_ex)
      show "(k - 1) div 8 < length t" using k(1) Suc.prems(3) by (simp add: less_mult_imp_div_less)
    qed (use Suc.prems(3) in simp_all)
    obtain t2 where t2: "dcmCronParseDelBit t1 k = Some t2" "length t2 = length t1"
      "bits_of t2 = bits_of t1 - {k}"
    proof (rule dcmCronParseDelBit_ex)
      show "k div 8 < length t1" using k(1) t1(2) Suc.prems(3) by (simp add: less_mult_imp_div_less)
    qed (use t1(2) Suc.prems(3) in simp_all)
    have "S \<inter> {..<Suc k} = insert k (S \<inter> {..<k})" "S \<inter> {k..} = insert k (S \<inter> {Suc k..})"
      using True by (auto simp: less_Suc_eq Suc_le_eq order.order_iff_strict)
    then have "bits_of t2 = (\<lambda>i. i - 1) ` (S \<inter> {..<Suc k}) \<union> (S \<inter> {Suc k..})"
      using t1 t2 Suc.prems by auto
    with Suc.hyps Suc.prems k t1 t2 have
      "\<exists>t'. rotate_months [Suc k..<13] t2 = Some t' \<and> length t' = 2 \<and> bits_of t' = (\<lambda>i. i - 1) ` S"
      by simp
    with k g True t1 t2 show ?thesis by simp
  qed
qed

lemma rotate_months_ok:
  assumes "length t = 2" "bits_of t \<subseteq> {1..12}"
  shows "\<exists>t'. rotate_months [1..<13] t = Some t' \<and> length t' = 2 \<and> bits_of t' = (\<lambda>i. i - 1) ` bits_of t"
proof (rule rotate_months_step)
  show "bits_of t = (\<lambda>i. i - 1) ` (bits_of t \<inter> {..<1}) \<union> (bits_of t \<inter> {1..})"
    using assms(2) by auto
qed (use assms in auto)

text \<open>A parsed field: its length is kept, its bits lie in the field's range, and a
  successful parse leaves at least one.\<close>

definition field_ok :: "nat \<Rightarrow> nat set \<Rightarrow> int \<times> u8 list \<Rightarrow> bool" where
  "field_ok n R r = (length (snd r) = n \<and> (fst r = 0 \<or> fst r = -1) \<and> bits_of (snd r) \<subseteq> R \<and>
     (fst r = 0 \<longrightarrow> bits_of (snd r) \<noteq> {}))"

lemma number_field:
  assumes "hi \<le> 8 * n" "n \<le> 256"
  shows "\<exists>r. dcmCronParseSetNumberHits mem v (replicate n 0) lo hi = Some r \<and> field_ok n {lo..<hi} r"
proof -
  obtain ret t' where "dcmCronParseSetNumberHits mem v (replicate n 0) lo hi = Some (ret, t')"
    "hits_ok (replicate n 0) lo hi (ret, t')"
    by (rule dcmCronParseSetNumberHits_ok [of hi "replicate n 0" mem v lo]) (use assms in simp_all)
  then show ?thesis by (auto simp: hits_ok_def field_ok_def)
qed

lemma names_nonempty: "[] \<notin> set MONTHS_ARR" "[] \<notin> set DAYS_ARR"
  by (simp_all add: MONTHS_ARR_def DAYS_ARR_def)

lemma month_field:
  "\<exists>r. dcmCronParseSetMonths mem v (replicate 2 0) = Some r \<and> field_ok 2 {0..<12} r"
proof -
  obtain rep where rep: "dcmCronParseReplaceOrdinals mem (dcmCronParseToUpper v) MONTHS_ARR = Some rep"
    using dcmCronParseReplaceOrdinals_ok names_nonempty by blast
  show ?thesis
  proof (cases rep)
    case None
    with rep show ?thesis by (simp add: dcmCronParseSetMonths_def field_ok_def)
  next
    case (Some r)
    obtain ret t where t: "dcmCronParseSetNumberHits mem r (replicate 2 0) 1 13 = Some (ret, t)"
      "field_ok 2 {1..<13} (ret, t)"
      using number_field [of 13 2 mem r 1] by auto
    then have "length t = 2" "bits_of t \<subseteq> {1..12}" by (auto simp: field_ok_def)
    then obtain t' where "rotate_months [1..<13] t = Some t'" "length t' = 2"
      "bits_of t' = (\<lambda>i. i - 1) ` bits_of t"
      using rotate_months_ok by blast
    moreover have "(\<lambda>i. i - 1) ` bits_of t \<subseteq> {0..<12}"
      using \<open>bits_of t \<subseteq> {1..12}\<close> by (auto dest!: subsetD)
    ultimately show ?thesis
      using rep Some t by (simp add: dcmCronParseSetMonths_def field_ok_def)
  qed
qed

lemma weekday_field:
  "\<exists>r. dcmCronParseSetDaysOfWeek mem v (replicate 1 0) = Some r \<and> field_ok 1 {0..<7} r"
proof -
  define f1 where "f1 = (if v = ''?'' then ''*'' else v)"
  obtain rep where rep: "dcmCronParseReplaceOrdinals mem (dcmCronParseToUpper f1) DAYS_ARR = Some rep"
    using dcmCronParseReplaceOrdinals_ok names_nonempty by blast
  show ?thesis
  proof (cases rep)
    case None
    with rep show ?thesis by (simp add: dcmCronParseSetDaysOfWeek_def field_ok_def f1_def Let_def)
  next
    case (Some r)
    obtain ret t where t: "dcmCronParseSetNumberHits mem r (replicate 1 0) 0 8 = Some (ret, t)"
      "length t = 1" "ret = 0 \<or> ret = -1" "bits_of t \<subseteq> {0..<8}" "ret = 0 \<longrightarrow> bits_of t \<noteq> {}"
      using number_field [of 8 1 mem r 0] by (auto simp: field_ok_def)
    have g: "dcmCronParseGetBit t 7 = Some (7 \<in> bits_of t)"
      using t(2) by (simp add: dcmCronParseGetBit_eq)
    obtain t1 where t1: "dcmCronParseSetBit t 0 = Some t1" "length t1 = length t"
      "bits_of t1 = insert 0 (bits_of t)"
      using dcmCronParseSetBit_ex [of 0 t] t(2) by auto
    obtain t2 where t2: "dcmCronParseDelBit t1 7 = Some t2" "length t2 = length t1"
      "bits_of t2 = bits_of t1 - {7}"
      using dcmCronParseDelBit_ex [of 7 t1] t1 t(2) by auto
    have sub: "S \<subseteq> {0..<8} \<Longrightarrow> 7 \<notin> S \<Longrightarrow> S \<subseteq> {0..<7}" for S :: "nat set"
      by (auto simp: subset_iff less_Suc_eq eval_nat_numeral)
    have "bits_of t - {7} \<subseteq> {0..<7}" using sub [of "bits_of t - {7}"] t(4) by auto
    with rep Some t g t1 t2 show ?thesis
      by (cases "7 \<in> bits_of t")
        (auto simp: dcmCronParseSetDaysOfWeek_def field_ok_def f1_def [symmetric] Let_def)
  qed
qed

lemma monthday_field:
  "\<exists>r. dcmCronParseSetDaysOfMonth mem v (replicate 4 0) = Some r \<and> field_ok 4 {1..<32} r"
  using number_field [of 32 4 mem _ 1] by (simp add: dcmCronParseSetDaysOfMonth_def Let_def)

subsection \<open>The whole pattern\<close>

definition cron_sizes :: "dcmCronExpr \<Rightarrow> bool" where
  "cron_sizes e = (length (seconds e) = 8 \<and> length (minutes e) = 8 \<and> length (hours e) = 3 \<and>
     length (days_of_week e) = 1 \<and> length (days_of_month e) = 4 \<and> length (months e) = 2)"

definition cron_ranges :: "dcmCronExpr \<Rightarrow> bool" where
  "cron_ranges e = (bits_of (seconds e) \<subseteq> {0..<60} \<and> bits_of (minutes e) \<subseteq> {0..<60} \<and>
     bits_of (hours e) \<subseteq> {0..<24} \<and> bits_of (days_of_week e) \<subseteq> {0..<7} \<and>
     bits_of (days_of_month e) \<subseteq> {1..<32} \<and> bits_of (months e) \<subseteq> {0..<12})"

text \<open>A usable pattern: every field has at least one value.\<close>

definition cron_wf :: "dcmCronExpr \<Rightarrow> bool" where
  "cron_wf e = (cron_sizes e \<and> cron_ranges e \<and> bits_of (seconds e) \<noteq> {} \<and> bits_of (minutes e) \<noteq> {} \<and>
     bits_of (hours e) \<noteq> {} \<and> bits_of (days_of_week e) \<noteq> {} \<and> bits_of (days_of_month e) \<noteq> {} \<and>
     bits_of (months e) \<noteq> {})"

lemma parse_from_minutes_ok:
  assumes s: "length (seconds e) = 8" "bits_of (seconds e) \<subseteq> {0..<60}" "bits_of (seconds e) \<noteq> {}"
    and z: "minutes e = replicate 8 0" "hours e = replicate 3 0" "days_of_month e = replicate 4 0"
      "months e = replicate 2 0" "days_of_week e = replicate 1 0"
  shows "\<exists>r e'. parse_from_minutes mem f0 f1 f2 f3 f4 e = Some (r, e') \<and> (r = 0 \<or> r = -1) \<and>
     cron_sizes e' \<and> cron_ranges e' \<and> (r = 0 \<longrightarrow> cron_wf e')"
proof -
  obtain r0 a0 where 0: "dcmCronParseSetNumberHits mem f0 (replicate 8 0) 0 60 = Some (r0, a0)" "field_ok 8 {0..<60} (r0, a0)"
    using number_field [of 60 8 mem f0 0] by auto
  obtain r1 a1 where 1: "dcmCronParseSetNumberHits mem f1 (replicate 3 0) 0 24 = Some (r1, a1)" "field_ok 3 {0..<24} (r1, a1)"
    using number_field [of 24 3 mem f1 0] by auto
  obtain r2 a2 where 2: "dcmCronParseSetDaysOfMonth mem f2 (replicate 4 0) = Some (r2, a2)" "field_ok 4 {1..<32} (r2, a2)"
    using monthday_field [of mem f2] by auto
  obtain r3 a3 where 3: "dcmCronParseSetMonths mem f3 (replicate 2 0) = Some (r3, a3)" "field_ok 2 {0..<12} (r3, a3)"
    using month_field [of mem f3] by auto
  obtain r4 a4 where 4: "dcmCronParseSetDaysOfWeek mem f4 (replicate 1 0) = Some (r4, a4)" "field_ok 1 {0..<7} (r4, a4)"
    using weekday_field [of mem f4] by auto
  note F = field_ok_def cron_sizes_def cron_ranges_def cron_wf_def
  show ?thesis
    using 0 1 2 3 4 s
    unfolding parse_from_minutes_def z
    by (cases "r0 = 0"; cases "r1 = 0"; cases "r2 = 0"; cases "r3 = 0") (simp_all add: F z Let_def del: replicate.simps replicate_Suc)
qed

lemma set_field_of_seconds:
  "aset (replicate 8 0) 0 1 = Some (1 # replicate 7 0)" "bits_of (1 # replicate 7 0) = {0}"
proof -
  show "aset (replicate 8 0) 0 1 = Some (1 # replicate 7 0)" by (simp add: aset_def eval_nat_numeral)
  have "bits_of (1 # replicate 7 0) = insert 0 (bits_of (0 # replicate 7 0))"
    using bits_of_update(1) [of 0 "0 # replicate 7 0"] by simp
  moreover have "bits_of (0 # replicate 7 0) = {}"
    using bits_of_zero [of "Suc 7"] by (simp only: replicate_Suc)
  ultimately show "bits_of (1 # replicate 7 0) = {0}" by simp
qed

lemma five_or_six_tokens:
  obtains "length toks < 5 \<or> length toks > 6"
    | f0 f1 f2 f3 f4 where "toks = [f0, f1, f2, f3, f4]"
    | f0 f1 f2 f3 f4 f5 where "toks = [f0, f1, f2, f3, f4, f5]"
proof -
  consider "length toks < 5 \<or> length toks > 6" | "length toks = 5" | "length toks = 6" by linarith
  then show thesis
  proof cases
    case 2
    then have "toks = [toks ! 0, toks ! 1, toks ! 2, toks ! 3, toks ! 4]"
      by (intro nth_equalityI) (auto simp: eval_nat_numeral less_Suc_eq)
    then show thesis by (rule that(2))
  next
    case 3
    then have "toks = [toks ! 0, toks ! 1, toks ! 2, toks ! 3, toks ! 4, toks ! 5]"
      by (intro nth_equalityI) (auto simp: eval_nat_numeral less_Suc_eq)
    then show thesis by (rule that(3))
  qed (rule that(1))
qed

lemma parse_six_ok:
  assumes "dcmCronParseSetNumberHits mem f0 (replicate 8 0) 0 60 = Some (0, a)"
  obtains r e where "parse_from_minutes mem f1 f2 f3 f4 f5 (zero_cron_expr\<lparr>seconds := a\<rparr>) = Some (r, e)"
    "r = 0 \<or> r = -1" "r = 0 \<longrightarrow> cron_wf e"
proof -
  have "field_ok 8 {0..<60} (0, a)" using number_field [of 60 8 mem f0 0] assms by auto
  then show thesis
    using that parse_from_minutes_ok [of "zero_cron_expr\<lparr>seconds := a\<rparr>" mem f1 f2 f3 f4 f5]
    by (auto simp: zero_cron_expr_def field_ok_def)
qed

lemma dcmCronParseExp_ok:
  "\<exists>ret target'. dcmCronParseExp mem expression target = Some (ret, target') \<and> (ret = 0 \<or> ret = -1) \<and>
     (ret = 0 \<longrightarrow> (\<exists>e. target' = Some e \<and> cron_wf e))"
proof (cases "expression = None \<or> target = None")
  case True
  then show ?thesis by (auto simp: dcmCronParseExp_def split: option.splits)
next
  case False
  then obtain s t where st: "expression = Some s" "target = Some t" by auto
  have z: "seconds zero_cron_expr = replicate 8 0" by (simp add: zero_cron_expr_def)
  show ?thesis
  proof (cases rule: dcmCronParseStrSplit_cases [of mem s "CHR '' ''" 0])
    case none
    with st show ?thesis by (auto simp: dcmCronParseExp_def)
  next
    case (some toks)
    then show ?thesis
    proof (cases toks rule: five_or_six_tokens)
      case 1
      with st some show ?thesis by (auto simp: dcmCronParseExp_def)
    next
      case (2 f0 f1 f2 f3 f4)
      obtain r e' where "parse_from_minutes mem f0 f1 f2 f3 f4 (zero_cron_expr\<lparr>seconds := 1 # replicate 7 0\<rparr>) = Some (r, e')"
        "r = 0 \<or> r = -1" "r = 0 \<longrightarrow> cron_wf e'"
        using parse_from_minutes_ok [of "zero_cron_expr\<lparr>seconds := 1 # replicate 7 0\<rparr>" mem f0 f1 f2 f3 f4]
        by (auto simp: zero_cron_expr_def set_field_of_seconds(2))
      then show ?thesis using st some 2 z
        by (simp add: dcmCronParseExp_def set_field_of_seconds(1) del: replicate.simps replicate_Suc)
    next
      case (3 f0 f1 f2 f3 f4 f5)
      obtain ret a where a: "dcmCronParseSetNumberHits mem f0 (replicate 8 0) 0 60 = Some (ret, a)" "ret = 0 \<or> ret = -1"
        using number_field [of 60 8 mem f0 0] by (auto simp: field_ok_def)
      then show ?thesis
      proof (cases "ret = 0")
        case True
        with a(1) obtain r e where "parse_from_minutes mem f1 f2 f3 f4 f5 (zero_cron_expr\<lparr>seconds := a\<rparr>) = Some (r, e)"
          "r = 0 \<or> r = -1" "r = 0 \<longrightarrow> cron_wf e" using parse_six_ok by metis
        with st some 3 a(1) z True show ?thesis by (simp add: dcmCronParseExp_def)
      qed (use st some 3 a z in \<open>simp add: dcmCronParseExp_def\<close>)
    qed
  qed
qed

end
