(* ===== verification/CronRender.thy ===== *)
theory CronRender
  imports CronParseProps
begin

text \<open>
  The specification of the cron pattern language: an abstract schedule, what it denotes and
  how it is written, and the theorem that \<^const>\<open>dcmCronParseExp\<close> reads every written
  schedule as what it denotes.
\<close>

subsection \<open>Abstract patterns\<close>

datatype cron_item = Star | Num nat | Range nat nat | StarStep nat | NumStep nat nat | RangeStep nat nat nat

fun item_text :: "cron_item \<Rightarrow> cstring" where
  "item_text Star = ''*''"
| "item_text (Num a) = nat_dec a"
| "item_text (Range a b) = nat_dec a @ ''-'' @ nat_dec b"
| "item_text (StarStep d) = ''*'' @ ''/'' @ nat_dec d"
| "item_text (NumStep a d) = nat_dec a @ ''/'' @ nat_dec d"
| "item_text (RangeStep a b d) = (nat_dec a @ ''-'' @ nat_dec b) @ ''/'' @ nat_dec d"

text \<open>The values an item stands for in a field with values \<open>lo\<close> to \<open>hi - 1\<close>.\<close>

fun item_values :: "nat \<Rightarrow> nat \<Rightarrow> cron_item \<Rightarrow> nat set" where
  "item_values lo hi Star = {lo..<hi}"
| "item_values lo hi (Num a) = {a}"
| "item_values lo hi (Range a b) = {a..b}"
| "item_values lo hi (StarStep d) = {i \<in> {lo..<hi}. d dvd i - lo}"
| "item_values lo hi (NumStep a d) = {i \<in> {a..<hi}. d dvd i - a}"
| "item_values lo hi (RangeStep a b d) = {i \<in> {a..b}. d dvd i - a}"

fun item_ok :: "nat \<Rightarrow> nat \<Rightarrow> cron_item \<Rightarrow> bool" where
  "item_ok lo hi Star = True"
| "item_ok lo hi (Num a) = (lo \<le> a \<and> a < hi)"
| "item_ok lo hi (Range a b) = (lo \<le> a \<and> a \<le> b \<and> b < hi)"
| "item_ok lo hi (StarStep d) = (0 < d \<and> d < 2147483648)"
| "item_ok lo hi (NumStep a d) = (lo \<le> a \<and> a < hi \<and> 0 < d \<and> d < 2147483648)"
| "item_ok lo hi (RangeStep a b d) = (lo \<le> a \<and> a \<le> b \<and> b < hi \<and> 0 < d \<and> d < 2147483648)"

fun join :: "char \<Rightarrow> cstring list \<Rightarrow> cstring" where
  "join d [] = []"
| "join d [t] = t"
| "join d (t # u # ts) = t @ d # join d (u # ts)"

definition field_text :: "cron_item list \<Rightarrow> cstring" where
  "field_text items = join (CHR '','') (map item_text items)"

definition field_values :: "nat \<Rightarrow> nat \<Rightarrow> cron_item list \<Rightarrow> nat set" where
  "field_values lo hi items = (\<Union>i \<in> set items. item_values lo hi i)"

definition items_ok :: "nat \<Rightarrow> nat \<Rightarrow> cron_item list \<Rightarrow> bool" where
  "items_ok lo hi items = (items \<noteq> [] \<and> list_all (item_ok lo hi) items)"

record schedule =
  s_minutes :: "cron_item list"
  s_hours :: "cron_item list"
  s_mdays :: "cron_item list"
  s_months :: "cron_item list"
  s_wdays :: "cron_item list"

definition schedule_text :: "schedule \<Rightarrow> cstring" where
  "schedule_text s = join (CHR '' '')
     [field_text (s_minutes s), field_text (s_hours s), field_text (s_mdays s),
      field_text (s_months s), field_text (s_wdays s)]"

definition schedule_ok :: "schedule \<Rightarrow> bool" where
  "schedule_ok s = (items_ok 0 60 (s_minutes s) \<and> items_ok 0 24 (s_hours s) \<and>
     items_ok 1 32 (s_mdays s) \<and> items_ok 1 13 (s_months s) \<and> items_ok 0 8 (s_wdays s))"

text \<open>Months are stored from 0, and Sunday is both 0 and 7.\<close>

definition denotes :: "dcmCronExpr \<Rightarrow> schedule \<Rightarrow> bool" where
  "denotes e s = (bits_of (seconds e) = {0} \<and>
     bits_of (minutes e) = field_values 0 60 (s_minutes s) \<and>
     bits_of (hours e) = field_values 0 24 (s_hours s) \<and>
     bits_of (days_of_month e) = field_values 1 32 (s_mdays s) \<and>
     bits_of (months e) = (\<lambda>m. m - 1) ` field_values 1 13 (s_months s) \<and>
     bits_of (days_of_week e) = (\<lambda>d. d mod 7) ` field_values 0 8 (s_wdays s))"

subsection \<open>Splitting what was joined\<close>

definition token :: "char \<Rightarrow> cstring \<Rightarrow> bool" where
  "token d t = (t \<noteq> [] \<and> (\<forall>c \<in> set t. c \<noteq> d \<and> \<not> isspace c))"

lemma split_count_append:
  "\<forall>c \<in> set t. c \<noteq> d \<and> \<not> isspace c \<Longrightarrow> split_count d (t @ s) n len = split_count d s (n + length t) len"
  by (induction t arbitrary: n) auto

lemma split_fill_append:
  "\<forall>c \<in> set t. c \<noteq> d \<and> \<not> isspace c \<Longrightarrow> split_fill mem d n (t @ s) buf res = split_fill mem d n s (buf @ t) res"
  by (induction t arbitrary: buf) auto

lemma split_count_join:
  "\<forall>t \<in> set ts. token d t \<Longrightarrow> split_count d (join d ts) 0 len = len + length ts"
proof (induction d ts arbitrary: len rule: join.induct)
  case (2 d t)
  then show ?case using split_count_append [of t d "[]" 0 len] by (simp add: token_def)
next
  case (3 d t u ts)
  then show ?case
    using split_count_append [of t d "d # join d (u # ts)" 0 len] by (simp add: token_def)
qed simp

lemma split_fill_join:
  assumes "\<forall>t \<in> set ts. token d t \<and> mem (int (length t) + 1)" "length res + length ts \<le> n"
  shows "split_fill mem d n (join d ts) [] res = Some (Some (res @ ts))"
  using assms
proof (induction d ts arbitrary: res rule: join.induct)
  case (2 d t)
  then show ?case
    using split_fill_append [of t d mem n "[]" "[]" res] by (simp add: token_def store_token_ok)
next
  case (3 d t u ts)
  then show ?case
    using split_fill_append [of t d mem n "d # join d (u # ts)" "[]" res]
    by (simp add: token_def store_token_ok)
qed simp

lemma length_join_ge: "t \<in> set ts \<Longrightarrow> length t \<le> length (join d ts)"
  by (induction d ts rule: join.induct) auto

lemma length_join_count: "\<forall>t \<in> set ts. t \<noteq> [] \<Longrightarrow> length ts \<le> length (join d ts)"
proof (induction d ts rule: join.induct)
  case (2 d t)
  then show ?case by (cases t) auto
next
  case (3 d t u ts)
  then show ?case by (cases t) auto
qed simp

text \<open>The largest block the parser asks for when no name has to be replaced.\<close>

definition mem_ok :: "allocator \<Rightarrow> bool" where
  "mem_ok mem = (\<forall>n. 0 < n \<and> n \<le> 2048 \<longrightarrow> mem n)"

lemma StrSplit_join:
  assumes "mem_ok mem" "\<forall>t \<in> set ts. token d t" "ts \<noteq> []" "length (join d ts) < 256"
  shows "dcmCronParseStrSplit mem (join d ts) d n = Some (Some ts, length ts)"
proof -
  have len: "length ts \<le> length (join d ts)" using assms(2) by (intro length_join_count) (auto simp: token_def)
  have small: "length t \<le> length (join d ts)" if "t \<in> set ts" for t using that by (rule length_join_ge)
  have "split_fill mem d (length ts) (join d ts) [] [] = Some (Some ([] @ ts))"
    using assms small by (intro split_fill_join) (fastforce simp: mem_ok_def)+
  with assms len show ?thesis
    by (simp add: dcmCronParseStrSplit_def CRON_MAX_STR_LEN_TO_SPLIT_def split_count_join Let_def mem_ok_def)
qed

subsection \<open>The characters of a printed pattern\<close>

definition num_char :: "char \<Rightarrow> bool" where
  "num_char c = (isdigit c \<or> c = CHR ''*'' \<or> c = CHR ''-'' \<or> c = CHR ''/'' \<or> c = CHR '','')"

lemma nat_dec_set: "c \<in> set (nat_dec n) \<Longrightarrow> isdigit c"
  using nat_dec_digits [of n] by blast

lemma nat_dec_nonempty [simp]: "nat_dec n \<noteq> []"
  using nat_dec_digits [of n] by blast

lemma isdigit_neq:
  "isdigit c \<Longrightarrow> c \<noteq> CHR ''*'' \<and> c \<noteq> CHR ''-'' \<and> c \<noteq> CHR ''/'' \<and> c \<noteq> CHR '','' \<and> c \<noteq> CHR '' '' \<and> c \<noteq> CHR ''?''"
  by (auto simp: isdigit_def)

lemma nat_dec_no:
  "CHR ''*'' \<notin> set (nat_dec n)" "CHR ''-'' \<notin> set (nat_dec n)" "CHR ''/'' \<notin> set (nat_dec n)"
  "CHR '','' \<notin> set (nat_dec n)" "CHR '' '' \<notin> set (nat_dec n)" "CHR ''?'' \<notin> set (nat_dec n)"
  using nat_dec_set isdigit_neq by blast+

lemma num_char_not_space: "num_char c \<Longrightarrow> \<not> isspace c"
  unfolding num_char_def by (auto dest: isdigit_not_space) (auto simp: isspace_def)

lemma item_text_chars: "c \<in> set (item_text i) \<Longrightarrow> num_char c \<and> c \<noteq> CHR '',''"
  by (cases i) (auto simp: num_char_def dest!: nat_dec_set dest: isdigit_neq)

lemma item_text_nonempty: "item_text i \<noteq> []"
  by (cases i) auto

lemma item_token: "token (CHR '','') (item_text i)"
  using item_text_chars [of _ i] num_char_not_space item_text_nonempty by (auto simp: token_def)

lemma join_chars: "c \<in> set (join d ts) \<Longrightarrow> c = d \<or> (\<exists>t \<in> set ts. c \<in> set t)"
  by (induction d ts rule: join.induct) auto

lemma field_text_chars: "c \<in> set (field_text items) \<Longrightarrow> num_char c"
  unfolding field_text_def by (drule join_chars) (auto simp: num_char_def dest: item_text_chars)

lemma field_text_nonempty: "items \<noteq> [] \<Longrightarrow> field_text items \<noteq> []"
  using item_text_nonempty by (cases items; cases "tl items") (auto simp: field_text_def)

lemma field_token: "items \<noteq> [] \<Longrightarrow> token (CHR '' '') (field_text items)"
proof -
  assume "items \<noteq> []"
  moreover have "c \<noteq> CHR '' '' \<and> \<not> isspace c" if "c \<in> set (field_text items)" for c
    using field_text_chars [OF that] num_char_not_space [of c] by (auto simp: isspace_def)
  ultimately show ?thesis using field_text_nonempty by (simp add: token_def)
qed

subsection \<open>Reading one item\<close>

lemma ParseUint_nat_dec: "n < 2147483648 \<Longrightarrow> dcmCronParseParseUint (nat_dec n) = Some n"
proof -
  assume "n < 2147483648"
  then have "strtol10 (nat_dec n) = (int n, False, [])"
    using strtol10_digits [of "nat_dec n"] nat_dec_digits [of n]
    by (simp add: digits_val_nat_dec LONG_MAX_def)
  with \<open>n < 2147483648\<close> show ?thesis by (simp add: dcmCronParseParseUint_def INT_MAX_def)
qed

lemma nat_dec_star: "nat_dec n \<noteq> ''*''"
proof
  assume "nat_dec n = ''*''"
  then have "CHR ''*'' \<in> set (nat_dec n)" by simp
  then show False using nat_dec_no(1) by simp
qed

lemma strchr_has_simps [cstr]:
  "\<not> strchr_has (nat_dec n) (CHR ''-'')" "\<not> strchr_has (nat_dec n) (CHR ''/'')"
  "strchr_has (a @ b) c \<longleftrightarrow> strchr_has a c \<or> strchr_has b c"
  "strchr_has (c' # b) c \<longleftrightarrow> c = c' \<or> strchr_has b c" "\<not> strchr_has [] c"
  using nat_dec_no by (auto simp: strchr_has_def)

lemma nat_dec_token: "d = CHR ''-'' \<or> d = CHR ''/'' \<Longrightarrow> token d (nat_dec n)"
  using nat_dec_set isdigit_not_space isdigit_neq by (fastforce simp: token_def)

text \<open>The part of an item before a step: a star, a number or a range.\<close>

lemma GetRange_star: "mem_ok mem \<Longrightarrow> lo < hi \<Longrightarrow> dcmCronParseGetRange mem ''*'' lo hi = Some (Some (lo, hi - 1))"
  by (auto simp add: dcmCronParseGetRange_def mem_ok_def range_check_def)

lemma GetRange_num:
  "mem_ok mem \<Longrightarrow> hi \<le> 60 \<Longrightarrow> lo \<le> a \<Longrightarrow> a < hi \<Longrightarrow>
   dcmCronParseGetRange mem (nat_dec a) lo hi = Some (Some (a, a))"
  by (simp add: dcmCronParseGetRange_def mem_ok_def range_check_def nat_dec_star cstr ParseUint_nat_dec)

lemma GetRange_range:
  assumes m: "mem_ok mem" and b: "hi \<le> 60" "lo \<le> a" "a \<le> b" "b < hi"
    and l: "length (nat_dec a @ ''-'' @ nat_dec b) < 256"
  shows "dcmCronParseGetRange mem (nat_dec a @ ''-'' @ nat_dec b) lo hi = Some (Some (a, b))"
proof -
  have "dcmCronParseStrSplit mem (nat_dec a @ ''-'' @ nat_dec b) (CHR ''-'') 0 = Some (Some [nat_dec a, nat_dec b], 2)"
    using StrSplit_join [OF m, of "[nat_dec a, nat_dec b]" "CHR ''-''" 0] l by (simp add: nat_dec_token)
  moreover have "nat_dec a @ ''-'' @ nat_dec b \<noteq> ''*''"
    using nat_dec_nonempty [of a] by (cases "nat_dec a") auto
  ultimately show ?thesis using m b
    by (simp add: dcmCronParseGetRange_def mem_ok_def range_check_def cstr ParseUint_nat_dec)
qed

lemma steps_set_dvd: "0 < d \<Longrightarrow> steps_set a b d = {i \<in> {a..b}. d dvd i - a}"
proof -
  have "(\<exists>k. i = a + k * d) \<longleftrightarrow> a \<le> i \<and> d dvd i - a" for i
    by (metis add_diff_cancel_left' dvd_triv_right le_add1 le_add_diff_inverse dvdE mult.commute)
  then show ?thesis by (auto simp: steps_set_def)
qed

lemma steps_set_1: "steps_set a b 1 = {a..b}"
  by (auto simp: steps_set_dvd)

definition reads :: "allocator \<Rightarrow> cstring \<Rightarrow> nat \<Rightarrow> nat \<Rightarrow> nat set \<Rightarrow> bool" where
  "reads mem f lo hi S = (\<forall>t. hi \<le> 8 * length t \<longrightarrow> length t \<le> 256 \<longrightarrow>
     (\<exists>t'. set_item_hits mem f t lo hi = Some (0, t') \<and> length t' = length t \<and> bits_of t' = bits_of t \<union> S))"

lemma reads_plain:
  assumes "\<not> strchr_has f (CHR ''/'')" "dcmCronParseGetRange mem f lo hi = Some (Some (a, b))"
  shows "reads mem f lo hi {a..b}"
  unfolding reads_def
proof (intro allI impI)
  fix t :: "u8 list"
  assume "hi \<le> 8 * length t" "length t \<le> 256"
  moreover have "b < hi" using dcmCronParseGetRange_bounds [OF assms(2)] by simp
  ultimately obtain t' where "set_bits_step t a b 1 = Some t'" "length t' = length t"
    "bits_of t' = bits_of t \<union> {a..b}"
    using set_bits_step_ex [of b t 1 a] by (auto simp: INT_MAX_def steps_set_1 [simplified])
  with assms show "\<exists>t'. set_item_hits mem f t lo hi = Some (0, t') \<and> length t' = length t \<and>
      bits_of t' = bits_of t \<union> {a..b}"
    by (simp add: set_item_hits_def)
qed

lemma reads_step:
  assumes m: "mem_ok mem" and len: "length (s0 @ ''/'' @ nat_dec d) < 256"
    and d: "0 < d" "d < 2147483648"
    and s0: "token (CHR ''/'') s0"
    and g: "dcmCronParseGetRange mem s0 lo hi = Some (Some (a, b))"
    and c: "c = (if strchr_has s0 (CHR ''-'') then b else hi - 1)"
  shows "reads mem (s0 @ ''/'' @ nat_dec d) lo hi {i \<in> {a..c}. d dvd i - a}"
  unfolding reads_def
proof (intro allI impI)
  fix t :: "u8 list"
  assume t: "hi \<le> 8 * length t" "length t \<le> 256"
  have "dcmCronParseStrSplit mem (s0 @ ''/'' @ nat_dec d) (CHR ''/'') 0 = Some (Some [s0, nat_dec d], 2)"
    using StrSplit_join [OF m, of "[s0, nat_dec d]" "CHR ''/''" 0] len s0 by (simp add: nat_dec_token)
  moreover have "c < hi" using dcmCronParseGetRange_bounds [OF g] c by auto
  then obtain t' where "set_bits_step t a c d = Some t'" "length t' = length t"
    "bits_of t' = bits_of t \<union> {i \<in> {a..c}. d dvd i - a}"
    using set_bits_step_ex [of c t d a] t d by (auto simp: INT_MAX_def steps_set_dvd)
  ultimately show "\<exists>t'. set_item_hits mem (s0 @ ''/'' @ nat_dec d) t lo hi = Some (0, t') \<and> length t' = length t \<and>
      bits_of t' = bits_of t \<union> {i \<in> {a..c}. d dvd i - a}"
    using g d c by (auto simp: set_item_hits_def cstr ParseUint_nat_dec Let_def)
qed

lemma reads_item:
  assumes m: "mem_ok mem" and i: "item_ok lo hi i" and h: "lo < hi" "hi \<le> 60" and len: "length (item_text i) < 256"
  shows "reads mem (item_text i) lo hi (item_values lo hi i)"
proof -
  have sets: "{a..hi - Suc 0} = {a..<hi}" for a using h by auto
  have star: "token (CHR ''/'') ''*''" by (simp add: token_def isspace_def)
  have range: "token (CHR ''/'') (nat_dec a @ ''-'' @ nat_dec b)" for a b
    using nat_dec_token [of "CHR ''/''"] by (auto simp: token_def isspace_def)
  show ?thesis
  proof (cases i)
    case Star
    then show ?thesis
      using reads_plain [OF _ GetRange_star [OF m h(1)]] by (simp add: cstr sets)
  next
    case (Num a)
    then show ?thesis
      using reads_plain [OF _ GetRange_num [OF m h(2), of lo a]] i by (simp add: cstr)
  next
    case (Range a b)
    then show ?thesis
      using reads_plain [OF _ GetRange_range [OF m h(2), of lo a b]] i len by (simp add: cstr)
  next
    case (StarStep d)
    then show ?thesis
      using reads_step [OF m _ _ _ star GetRange_star [OF m h(1)] refl, of d] i len by (simp add: cstr sets)
  next
    case (NumStep a d)
    then show ?thesis
      using reads_step [OF m _ _ _ nat_dec_token GetRange_num [OF m h(2), of lo a] refl, of d] i len
      by (simp add: cstr sets)
  next
    case (RangeStep a b d)
    then show ?thesis
      using reads_step [OF m _ _ _ range GetRange_range [OF m h(2), of lo a b] refl, of d] i len
      by (simp add: cstr)
  qed
qed

subsection \<open>Reading a field\<close>

lemma set_items_hits_reads:
  assumes "\<forall>i \<in> set items. reads mem (f i) lo hi (S i)" "hi \<le> 8 * length t" "length t \<le> 256"
  shows "\<exists>t'. set_items_hits mem (map f items) t lo hi = Some (0, t') \<and> length t' = length t \<and>
     bits_of t' = bits_of t \<union> (\<Union>i \<in> set items. S i)"
  using assms
proof (induction items arbitrary: t)
  case Nil
  show ?case by simp
next
  case (Cons i items)
  then obtain t1 where t1: "set_item_hits mem (f i) t lo hi = Some (0, t1)" "length t1 = length t"
    "bits_of t1 = bits_of t \<union> S i"
    by (auto simp: reads_def)
  with Cons.IH [of t1] Cons.prems show ?case by auto
qed

lemma SetNumberHits_field:
  assumes "mem_ok mem" "items_ok lo hi items" "lo < hi" "hi \<le> 60" "length (field_text items) < 256" "hi \<le> 8 * n" "n \<le> 256"
  shows "\<exists>t'. dcmCronParseSetNumberHits mem (field_text items) (replicate n 0) lo hi = Some (0, t') \<and>
     length t' = n \<and> bits_of t' = field_values lo hi items"
proof -
  have "dcmCronParseStrSplit mem (field_text items) (CHR '','') 0 = Some (Some (map item_text items), length items)"
    using StrSplit_join [of mem "map item_text items" "CHR '',''" 0] assms item_token
    by (simp add: field_text_def items_ok_def)
  moreover have "\<forall>i \<in> set items. reads mem (item_text i) lo hi (item_values lo hi i)"
  proof
    fix i assume "i \<in> set items"
    moreover from this have "length (item_text i) \<le> length (field_text items)"
      unfolding field_text_def by (intro length_join_ge) simp
    ultimately show "reads mem (item_text i) lo hi (item_values lo hi i)"
      using assms by (intro reads_item) (auto simp: items_ok_def list_all_iff)
  qed
  ultimately show ?thesis
    using set_items_hits_reads [of items mem item_text lo hi "item_values lo hi" "replicate n 0"] assms
    by (simp add: dcmCronParseSetNumberHits_def field_values_def)
qed

subsection \<open>No name occurs in a printed field\<close>

lemma toupper_num_char: "num_char c \<Longrightarrow> toupper c = c"
  by (auto simp: num_char_def toupper_def isdigit_def Let_def)

lemma ToUpper_field: "dcmCronParseToUpper (field_text items) = field_text items"
  unfolding dcmCronParseToUpper_def by (rule map_idI) (use toupper_num_char field_text_chars in blast)

lemma StrReplace_absent:
  assumes "mem_ok mem" "length s < 256" "c \<in> set name" "c \<notin> set s"
  shows "dcmCronParseStrReplace mem s name w = Some (Some s)"
proof -
  have "strstr s name = None" using assms(3,4) by (auto simp: strstr_None)
  moreover have "name \<noteq> []" using assms(3) by auto
  ultimately have "replace_count s name = Some 0" by (simp add: replace_count.simps)
  moreover have "mem (replace_size s name w 0)"
    using assms(1,2) by (simp add: replace_size_def uint32_def mem_ok_def)
  ultimately show ?thesis by (simp add: dcmCronParseStrReplace_def)
qed

lemma replace_ordinals_absent:
  assumes "mem_ok mem" "length s < 256" "\<forall>name \<in> set arr. \<exists>c \<in> set name. c \<notin> set s"
  shows "replace_ordinals_from mem i s arr = Some (Some s)"
  using assms(3)
proof (induction arr arbitrary: i)
  case Nil
  show ?case by simp
next
  case (Cons name arr)
  then obtain c where "c \<in> set name" "c \<notin> set s" by auto
  with Cons StrReplace_absent [OF assms(1,2)] show ?case by auto
qed

lemma ReplaceOrdinals_field:
  assumes "mem_ok mem" "length (field_text items) < 256" "arr = MONTHS_ARR \<or> arr = DAYS_ARR"
  shows "dcmCronParseReplaceOrdinals mem (field_text items) arr = Some (Some (field_text items))"
proof -
  have letter: "c \<notin> set (field_text items)" if "\<not> num_char c" for c
    using that field_text_chars by blast
  have "\<forall>name \<in> set arr. name \<noteq> [] \<and> \<not> num_char (hd name)"
    using assms(3) by (auto simp: MONTHS_ARR_def DAYS_ARR_def num_char_def isdigit_def)
  then have "\<forall>name \<in> set arr. \<exists>c \<in> set name. c \<notin> set (field_text items)"
    using letter hd_in_set by blast
  moreover have "arr \<noteq> []" using assms(3) by (auto simp: MONTHS_ARR_def DAYS_ARR_def)
  ultimately show ?thesis
    using replace_ordinals_absent [OF assms(1,2)] by (simp add: dcmCronParseReplaceOrdinals_def)
qed

lemma field_not_question: "field_text items \<noteq> ''?''"
proof
  assume "field_text items = ''?''"
  then have "CHR ''?'' \<in> set (field_text items)" by simp
  from field_text_chars [OF this] show False by (simp add: num_char_def isdigit_def)
qed

lemma item_values_bounds: "lo < hi \<Longrightarrow> item_ok lo hi i \<Longrightarrow> item_values lo hi i \<subseteq> {lo..<hi} \<and> item_values lo hi i \<noteq> {}"
  by (cases i) auto

lemma field_values_bounds: "lo < hi \<Longrightarrow> items_ok lo hi items \<Longrightarrow> field_values lo hi items \<subseteq> {lo..<hi}"
  using item_values_bounds by (fastforce simp: field_values_def items_ok_def list_all_iff)

lemma SetMonths_field:
  assumes "mem_ok mem" "items_ok 1 13 items" "length (field_text items) < 256"
  shows "\<exists>t'. dcmCronParseSetMonths mem (field_text items) (replicate 2 0) = Some (0, t') \<and>
     bits_of t' = (\<lambda>m. m - 1) ` field_values 1 13 items"
proof -
  obtain t where t: "dcmCronParseSetNumberHits mem (field_text items) (replicate 2 0) 1 13 = Some (0, t)"
    "length t = 2" "bits_of t = field_values 1 13 items"
    using SetNumberHits_field [of mem 1 13 items 2] assms by auto
  have "field_values 1 13 items \<subseteq> {1..12}" using field_values_bounds [of 1 13 items] assms(2) by fastforce
  then obtain t' where "rotate_months [1..<13] t = Some t'" "bits_of t' = (\<lambda>i. i - 1) ` bits_of t"
    using rotate_months_ok [of t] t by auto
  with t assms show ?thesis
    by (simp add: dcmCronParseSetMonths_def ToUpper_field ReplaceOrdinals_field)
qed

lemma SetDaysOfWeek_field:
  assumes "mem_ok mem" "items_ok 0 8 items" "length (field_text items) < 256"
  shows "\<exists>t'. dcmCronParseSetDaysOfWeek mem (field_text items) (replicate 1 0) = Some (0, t') \<and>
     bits_of t' = (\<lambda>d. d mod 7) ` field_values 0 8 items"
proof -
  obtain t where t: "dcmCronParseSetNumberHits mem (field_text items) (replicate 1 0) 0 8 = Some (0, t)"
    "length t = 1" "bits_of t = field_values 0 8 items"
    using SetNumberHits_field [of mem 0 8 items 1] assms by auto
  define F where "F = field_values 0 8 items"
  have F: "F \<subseteq> {0..<8}" using field_values_bounds [of 0 8 items] assms(2) by (simp add: F_def)
  have g: "dcmCronParseGetBit t 7 = Some (7 \<in> F)" using t by (simp add: dcmCronParseGetBit_eq F_def)
  obtain t1 where t1: "dcmCronParseSetBit t 0 = Some t1" "length t1 = length t" "bits_of t1 = insert 0 (bits_of t)"
    using dcmCronParseSetBit_ex [of 0 t] t(2) by auto
  obtain t2 where t2: "dcmCronParseDelBit t1 7 = Some t2" "bits_of t2 = bits_of t1 - {7}"
    by (rule dcmCronParseDelBit_ex [of 7 t1]) (use t1 t(2) in simp_all)
  have small: "d mod 7 = d" if "d \<in> F - {7}" for d
  proof -
    have "d < 8" "d \<noteq> 7" using F that by auto
    then show ?thesis by simp
  qed
  then have "(\<lambda>d. d mod 7) ` (F - {7}) = F - {7}" by (simp add: image_def)
  then have "(\<lambda>d. d mod 7) ` F = (if 7 \<in> F then insert 0 (F - {7}) else F)"
    by (metis Diff_empty Diff_insert0 image_insert insert_Diff mod_self)
  with t g t1 t2 assms show ?thesis
    by (cases "7 \<in> F")
      (auto simp: dcmCronParseSetDaysOfWeek_def ToUpper_field ReplaceOrdinals_field field_not_question Let_def F_def)
qed

lemma SetDaysOfMonth_field:
  assumes "mem_ok mem" "items_ok 1 32 items" "length (field_text items) < 256"
  shows "\<exists>t'. dcmCronParseSetDaysOfMonth mem (field_text items) (replicate 4 0) = Some (0, t') \<and>
     bits_of t' = field_values 1 32 items"
  using SetNumberHits_field [of mem 1 32 items 4] assms
  by (auto simp: dcmCronParseSetDaysOfMonth_def field_not_question Let_def)

subsection \<open>Reading a pattern\<close>

lemma parse_from_minutes_fields:
  assumes "mem_ok mem" "schedule_ok s" "bits_of (seconds e) = {0}"
    and z: "minutes e = replicate 8 0" "hours e = replicate 3 0" "days_of_month e = replicate 4 0"
      "months e = replicate 2 0" "days_of_week e = replicate 1 0"
    and l: "length (field_text (s_minutes s)) < 256" "length (field_text (s_hours s)) < 256"
      "length (field_text (s_mdays s)) < 256" "length (field_text (s_months s)) < 256"
      "length (field_text (s_wdays s)) < 256"
  shows "\<exists>e'. parse_from_minutes mem (field_text (s_minutes s)) (field_text (s_hours s)) (field_text (s_mdays s))
     (field_text (s_months s)) (field_text (s_wdays s)) e = Some (0, e') \<and> denotes e' s"
proof -
  have ok: "items_ok 0 60 (s_minutes s)" "items_ok 0 24 (s_hours s)" "items_ok 1 32 (s_mdays s)"
    "items_ok 1 13 (s_months s)" "items_ok 0 8 (s_wdays s)"
    using assms(2) by (simp_all add: schedule_ok_def)
  obtain a0 where 0: "dcmCronParseSetNumberHits mem (field_text (s_minutes s)) (replicate 8 0) 0 60 = Some (0, a0)"
    "bits_of a0 = field_values 0 60 (s_minutes s)"
    using SetNumberHits_field [OF assms(1) ok(1), of 8] l(1) by auto
  obtain a1 where 1: "dcmCronParseSetNumberHits mem (field_text (s_hours s)) (replicate 3 0) 0 24 = Some (0, a1)"
    "bits_of a1 = field_values 0 24 (s_hours s)"
    using SetNumberHits_field [OF assms(1) ok(2), of 3] l(2) by auto
  obtain a2 where 2: "dcmCronParseSetDaysOfMonth mem (field_text (s_mdays s)) (replicate 4 0) = Some (0, a2)"
    "bits_of a2 = field_values 1 32 (s_mdays s)"
    using SetDaysOfMonth_field [OF assms(1) ok(3) l(3)] by auto
  obtain a3 where 3: "dcmCronParseSetMonths mem (field_text (s_months s)) (replicate 2 0) = Some (0, a3)"
    "bits_of a3 = (\<lambda>m. m - 1) ` field_values 1 13 (s_months s)"
    using SetMonths_field [OF assms(1) ok(4) l(4)] by auto
  obtain a4 where 4: "dcmCronParseSetDaysOfWeek mem (field_text (s_wdays s)) (replicate 1 0) = Some (0, a4)"
    "bits_of a4 = (\<lambda>d. d mod 7) ` field_values 0 8 (s_wdays s)"
    using SetDaysOfWeek_field [OF assms(1) ok(5) l(5)] by auto
  from 0 1 2 3 4 assms(3) show ?thesis
    unfolding parse_from_minutes_def z
    by (simp add: z Let_def denotes_def del: replicate.simps replicate_Suc)
qed

lemma parse_schedule:
  assumes "mem_ok mem" "schedule_ok s" "length (schedule_text s) < 256"
  shows "\<exists>e. dcmCronParseExp mem (Some (schedule_text s)) (Some target) = Some (0, Some e) \<and> denotes e s"
proof -
  let ?fs = "[field_text (s_minutes s), field_text (s_hours s), field_text (s_mdays s),
      field_text (s_months s), field_text (s_wdays s)]"
  have ne: "s_minutes s \<noteq> []" "s_hours s \<noteq> []" "s_mdays s \<noteq> []" "s_months s \<noteq> []" "s_wdays s \<noteq> []"
    using assms(2) by (auto simp: schedule_ok_def items_ok_def)
  have "\<forall>t \<in> set ?fs. token (CHR '' '') t" using ne by (simp add: field_token)
  then have split: "dcmCronParseStrSplit mem (schedule_text s) (CHR '' '') 0 = Some (Some ?fs, 5)"
    using StrSplit_join [of mem ?fs "CHR '' ''" 0] assms by (simp add: schedule_text_def)
  have len: "length t < 256" if "t \<in> set ?fs" for t
    using length_join_ge [OF that, of "CHR '' ''"] assms(3) by (simp add: schedule_text_def)
  have z: "seconds zero_cron_expr = replicate 8 0" by (simp add: zero_cron_expr_def)
  obtain e where "parse_from_minutes mem (field_text (s_minutes s)) (field_text (s_hours s)) (field_text (s_mdays s))
     (field_text (s_months s)) (field_text (s_wdays s)) (zero_cron_expr\<lparr>seconds := 1 # replicate 7 0\<rparr>) = Some (0, e)"
    "denotes e s"
    using parse_from_minutes_fields [OF assms(1,2), of "zero_cron_expr\<lparr>seconds := 1 # replicate 7 0\<rparr>"] len
    by (auto simp: zero_cron_expr_def set_field_of_seconds(2))
  with split z show ?thesis
    by (simp add: dcmCronParseExp_def set_field_of_seconds(1) del: replicate.simps replicate_Suc)
qed

text \<open>
  Claim C6.  Round trip: every schedule made of stars, numbers, ranges and steps inside the
  ranges of the five fields, written as a cron pattern of fewer than 256 characters, is read
  by \<^verbatim>\<open>dcmCronParseExp\<close> (return code 0) as the bit sets it denotes: second 0, months
  counted from 0, Sunday as day 0 whether written 0 or 7.
\<close>

theorem parse_printed_schedule:
  assumes "mem_ok mem" "schedule_ok s" "length (schedule_text s) < 256"
  shows "\<exists>e. dcmCronParseExp mem (Some (schedule_text s)) (Some target) = Some (0, Some e) \<and> denotes e s"
  using assms by (rule parse_schedule)

text \<open>The pattern \<^verbatim>\<open>*/15 1-3,20 * 1,6-9/2 7\<close>.\<close>

definition sample_schedule :: schedule where
  "sample_schedule = \<lparr>s_minutes = [StarStep 15], s_hours = [Range 1 3, Num 20], s_mdays = [Star],
     s_months = [Num 1, RangeStep 6 9 2], s_wdays = [Num 7]\<rparr>"

theorem parse_printed_schedule_witness:
  "schedule_text sample_schedule = ''*/15 1-3,20 * 1,6-9/2 7'' \<and>
   (\<exists>e. dcmCronParseExp (\<lambda>_. True) (Some (schedule_text sample_schedule)) (Some zero_cron_expr) = Some (0, Some e) \<and>
     denotes e sample_schedule)"
proof (rule conjI)
  show 1: "schedule_text sample_schedule = ''*/15 1-3,20 * 1,6-9/2 7''"
    by (simp add: schedule_text_def sample_schedule_def field_text_def nat_dec.simps)
  have 2: "schedule_ok sample_schedule" by (simp add: schedule_ok_def items_ok_def sample_schedule_def)
  show "\<exists>e. dcmCronParseExp (\<lambda>_. True) (Some (schedule_text sample_schedule)) (Some zero_cron_expr) = Some (0, Some e) \<and>
     denotes e sample_schedule"
    by (rule parse_printed_schedule [OF _ 2]) (simp_all add: 1 mem_ok_def)
qed

subsection \<open>Names of months\<close>

lemma StrReplace_self:
  assumes "name \<noteq> []"
  shows "dcmCronParseStrReplace mem name name w =
     (if mem (replace_size name name w 1) then Some (Some w) else Some None)"
proof -
  have 1: "strstr name name = Some 0" using assms by (cases name) (auto simp: is_prefix_iff)
  have 2: "replace_count [] name = Some 0" using assms by (simp add: replace_count.simps)
  have "replace_count name name = Some 1" using 1 2 assms by (simp add: replace_count.simps [of name])
  with 1 show ?thesis by (simp add: dcmCronParseStrReplace_def)
qed

lemma replace_ordinals_append:
  "replace_ordinals_from mem i s (xs @ ys) =
     (case replace_ordinals_from mem i s xs of
        Some (Some r) \<Rightarrow> replace_ordinals_from mem (i + length xs) r ys
      | x \<Rightarrow> x)"
  by (induction xs arbitrary: i s) (auto split: option.splits)

lemma month_names:
  assumes "1 \<le> k" "k \<le> 12"
  shows "dcmCronParseToUpper (MONTHS_ARR ! k) = MONTHS_ARR ! k \<and> length (MONTHS_ARR ! k) = 3 \<and>
     (\<forall>name \<in> set (take k MONTHS_ARR). \<exists>c \<in> set name. c \<notin> set (MONTHS_ARR ! k))"
proof -
  have "list_all (\<lambda>k. dcmCronParseToUpper (MONTHS_ARR ! k) = MONTHS_ARR ! k \<and> length (MONTHS_ARR ! k) = 3 \<and>
     list_all (\<lambda>name. list_ex (\<lambda>c. \<not> List.member (MONTHS_ARR ! k) c) name) (take k MONTHS_ARR)) [1..<13]"
    by code_simp
  then show ?thesis using assms by (auto simp: list_all_iff list_ex_iff)
qed

lemma num_field: "nat_dec k = field_text [Num k]"
  by (simp add: field_text_def)

lemma month_name_ordinal:
  assumes m: "mem_ok mem" and k: "1 \<le> k" "k \<le> 12"
  shows "dcmCronParseReplaceOrdinals mem (MONTHS_ARR ! k) MONTHS_ARR =
     (if mem (replace_size (MONTHS_ARR ! k) (MONTHS_ARR ! k) (nat_dec k) 1) then Some (Some (nat_dec k)) else Some None)"
proof -
  let ?n = "MONTHS_ARR ! k"
  have len: "length MONTHS_ARR = 13" by (simp add: MONTHS_ARR_def)
  then have split: "MONTHS_ARR = take k MONTHS_ARR @ ?n # drop (Suc k) MONTHS_ARR"
    using k by (intro id_take_nth_drop) simp
  have n: "length ?n < 256" "?n \<noteq> []" "\<forall>name \<in> set (take k MONTHS_ARR). \<exists>c \<in> set name. c \<notin> set ?n"
    using month_names [OF k] by auto
  have pre: "replace_ordinals_from mem 0 ?n (take k MONTHS_ARR) = Some (Some ?n)"
    using replace_ordinals_absent [OF m n(1,3)] .
  have c: "name \<noteq> [] \<and> hd name \<notin> set (nat_dec k)" if "name \<in> set MONTHS_ARR" for name
  proof -
    have "name \<noteq> [] \<and> \<not> isdigit (hd name)" using that by (auto simp: MONTHS_ARR_def isdigit_def)
    then show ?thesis using nat_dec_set by blast
  qed
  have dec: "length (nat_dec k) < 256" using k by (simp add: nat_dec.simps)
  have "\<forall>name \<in> set (drop (Suc k) MONTHS_ARR). \<exists>c \<in> set name. c \<notin> set (nat_dec k)"
    using c in_set_dropD hd_in_set by metis
  then have post: "replace_ordinals_from mem (Suc k) (nat_dec k) (drop (Suc k) MONTHS_ARR) = Some (Some (nat_dec k))"
    by (rule replace_ordinals_absent [OF m dec])
  have "replace_ordinals_from mem 0 ?n MONTHS_ARR =
      (if mem (replace_size ?n ?n (nat_dec k) 1) then Some (Some (nat_dec k)) else Some None)"
    using pre post len k by (subst split) (simp add: replace_ordinals_append StrReplace_self n(2) min_def)
  then show ?thesis using len by (auto simp: dcmCronParseReplaceOrdinals_def)
qed

subsection \<open>The first claims of the parser\<close>

text \<open>
  Claim C5.  Safety and soundness of the parser: for every pattern (or \<^verbatim>\<open>NULL\<close>), every
  target (or \<^verbatim>\<open>NULL\<close>) and every allocator, \<^verbatim>\<open>dcmCronParseExp\<close> returns (no loop runs
  forever, no array is indexed out of its bounds), its return code is 0 or -1, and when it is
  0 every field of the target is a non-empty set of values inside the field's range.
\<close>

theorem parser_safe_and_sound:
  "\<exists>ret target'. dcmCronParseExp mem expression target = Some (ret, target') \<and> (ret = 0 \<or> ret = -1) \<and>
     (ret = 0 \<longrightarrow> (\<exists>e. target' = Some e \<and> cron_wf e))"
  by (rule dcmCronParseExp_ok)

theorem parser_safe_and_sound_witness:
  "\<exists>e. dcmCronParseExp (\<lambda>_. True) (Some ''0 3 * * 1-5'') (Some zero_cron_expr) = Some (0, Some e) \<and> cron_wf e"
proof -
  have "map_option fst (dcmCronParseExp (\<lambda>_. True) (Some ''0 3 * * 1-5'') (Some zero_cron_expr)) = Some 0"
    by code_simp
  then show ?thesis
    using parser_safe_and_sound [of "\<lambda>_. True" "Some ''0 3 * * 1-5''" "Some zero_cron_expr"] by auto
qed

text \<open>
  Claim C11.  A month written by name: when no block of 4 GiB can be allocated the whole field
  is refused, because the size that \<^verbatim>\<open>dcmCronParseStrReplace\<close> requests for replacing a name by
  a shorter number wraps around in 32 bits; when it is granted the name reads as its number.
\<close>

theorem month_name_needs_4GiB:
  assumes "mem_ok mem" "1 \<le> k" "k \<le> 12"
  shows "dcmCronParseSetMonths mem (MONTHS_ARR ! k) t =
     (if mem (4294967295 + int (length (nat_dec k)) + 2) then dcmCronParseSetMonths mem (nat_dec k) t else Some (-1, t))"
proof -
  have len: "length (nat_dec k) < 256" "length (nat_dec k) = 1 \<or> length (nat_dec k) = 2"
    using assms(2,3) by (auto simp: nat_dec.simps)
  have size: "replace_size (MONTHS_ARR ! k) (MONTHS_ARR ! k) (nat_dec k) 1 = 4294967295 + int (length (nat_dec k)) + 2"
    using month_names [OF assms(2,3)] len(2) by (auto simp: replace_size_def uint32_def)
  have num: "dcmCronParseReplaceOrdinals mem (dcmCronParseToUpper (nat_dec k)) MONTHS_ARR = Some (Some (nat_dec k))"
    using ReplaceOrdinals_field [OF assms(1), of "[Num k]" MONTHS_ARR] len(1)
    by (simp add: num_field [symmetric] ToUpper_field [of "[Num k]", folded num_field])
  show ?thesis
    using month_names [OF assms(2,3)] month_name_ordinal [OF assms] num
    by (simp add: dcmCronParseSetMonths_def size [simplified])
qed

theorem month_name_needs_4GiB_witness:
  "dcmCronParseSetMonths (\<lambda>n. n \<le> 1048576) ''MAR'' (replicate 2 0) = Some (-1, replicate 2 0)"
proof -
  have "mem_ok (\<lambda>n. n \<le> 1048576)" by (simp add: mem_ok_def)
  from month_name_needs_4GiB [OF this, of 3] show ?thesis by (simp add: MONTHS_ARR_def)
qed

end
