(* ===== verification/CronNextProps.thy ===== *)
theory CronNextProps
  imports CronNext CronRender
begin

text \<open>
  Correctness of the search for the next instant: for the patterns a 5-field cron line gives
  when every month is allowed and at most one of the two day fields is restricted,
  \<^const>\<open>dcmCronParseGetNext\<close> returns the earliest matching instant after the given one.  The
  proof views every calendar the search visits as an instant and shows that no step jumps
  over a matching instant.
\<close>

subsection \<open>Matching instants\<close>

definition minute_of :: "int \<Rightarrow> nat" where "minute_of t = nat (t div 60 mod 60)"
definition hour_of :: "int \<Rightarrow> nat" where "hour_of t = nat (t div 3600 mod 24)"

definition cron_matches :: "dcmCronExpr \<Rightarrow> int \<Rightarrow> bool" where
  "cron_matches e t =
     (nat (t mod 60) \<in> bits_of (seconds e) \<and> minute_of t \<in> bits_of (minutes e) \<and>
      hour_of t \<in> bits_of (hours e) \<and> nat (day_mday (day_number t)) \<in> bits_of (days_of_month e) \<and>
      nat (day_wday (day_number t)) \<in> bits_of (days_of_week e) \<and>
      nat (day_mon (day_number t)) \<in> bits_of (months e))"

text \<open>The patterns the theorem is about.\<close>

definition plain_pattern :: "dcmCronExpr \<Rightarrow> bool" where
  "plain_pattern e = (cron_wf e \<and> bits_of (seconds e) = {0} \<and> bits_of (months e) = {0..<12} \<and>
     (bits_of (days_of_month e) = {1..<32} \<or> bits_of (days_of_week e) = {0..<7}))"

subsection \<open>Calendars as instants\<close>

definition ok_time :: "int \<Rightarrow> bool" where "ok_time t = (0 \<le> t \<and> t \<le> time_limit)"

lemma mktime_err_civil:
  "tm_secs c = t \<Longrightarrow> ok_time t \<Longrightarrow> mktime_err c = (0, civil t)"
  using timegm_eq [of c] year_fits_time [of t]
  by (simp add: mktime_err_def dcmCronParseMktime_def ok_time_def)

lemma date_day_shift: "date_day y m (d + k) = date_day y m d + k"
  by (simp add: date_day_def Let_def)

lemma tm_secs_update:
  "tm_secs ((civil t)\<lparr>tm_sec := v\<rparr>) = t + (v - t mod 60)"
  "tm_secs ((civil t)\<lparr>tm_min := v\<rparr>) = t + (v - t div 60 mod 60) * 60"
  "tm_secs ((civil t)\<lparr>tm_hour := v\<rparr>) = t + (v - t div 3600 mod 24) * 3600"
  using tm_secs_civil [of t] by (simp_all add: tm_secs_def algebra_simps)

lemma tm_secs_next_day: "tm_secs ((civil t)\<lparr>tm_mday := day_mday (day_number t) + k\<rparr>) = t + k * 86400"
proof -
  have "date_day (day_year (day_number t)) (day_mon (day_number t)) (day_mday (day_number t) + k) = day_number t + k"
    using date_day_shift [of _ _ "day_mday (day_number t)"] by (simp add: date_day_roundtrip)
  then show ?thesis using second_decomposition [of t] by (simp add: tm_secs_def)
qed

text \<open>What resetting a field does to the instant.\<close>

definition reset_time :: "int \<Rightarrow> int \<Rightarrow> int" where
  "reset_time f t =
     (if f = 0 then t - t mod 60 else if f = 1 then t - t div 60 mod 60 * 60
      else if f = 2 then t - t div 3600 mod 24 * 3600 else t)"

lemma floor_minute: "t - t mod 60 = 60 * (t div 60)" for t :: int
  by (simp add: minus_mod_eq_mult_div)

lemma reset_time_bounds: "0 \<le> t \<Longrightarrow> 0 \<le> reset_time f t \<and> reset_time f t \<le> t"
proof -
  assume t: "0 \<le> t"
  define n h m x where d: "n = day_number t" "h = t div 3600 mod 24" "m = t div 60 mod 60" "x = t mod 60"
  have "0 \<le> n" using t by (simp add: d day_number_def)
  moreover have "0 \<le> h" "0 \<le> m" "0 \<le> x" by (simp_all add: d)
  moreover have "t = n * 86400 + h * 3600 + m * 60 + x" unfolding d by (rule second_decomposition)
  moreover have "reset_time f t = (if f = 0 then t - x else if f = 1 then t - m * 60 else if f = 2 then t - h * 3600 else t)"
    by (simp add: reset_time_def d)
  ultimately show ?thesis by (cases "f = 0"; cases "f = 1"; cases "f = 2") simp_all
qed

lemma ResetMin_civil:
  assumes "f \<in> {0, 1, 2}" "ok_time t"
  shows "dcmCronParseResetMin (civil t) f = (0, civil (reset_time f t))"
proof -
  have ok: "ok_time (reset_time f t)"
    using assms reset_time_bounds [of t f] by (simp add: ok_time_def)
  have 1: "mktime_err c = (0, civil (reset_time f t))" if "tm_secs c = reset_time f t" for c
    using that ok by (rule mktime_err_civil)
  note R = dcmCronParseResetMin_def put_field_def tm_secs_update reset_time_def
  from assms(1) consider "f = 0" | "f = 1" | "f = 2" by auto
  then show ?thesis
    by cases (use 1 [of "(civil t)\<lparr>tm_sec := 0\<rparr>"] 1 [of "(civil t)\<lparr>tm_min := 0\<rparr>"]
        1 [of "(civil t)\<lparr>tm_hour := 0\<rparr>"] in \<open>simp_all add: R\<close>)
qed

lemma ResetAllMin_civil:
  assumes "set fs \<subseteq> {-1, 0, 1, 2}" "ok_time t"
  shows "dcmCronParseResetAllMin (civil t) fs = (0, civil (fold reset_time fs t)) \<and>
     ok_time (fold reset_time fs t) \<and> fold reset_time fs t \<le> t"
  using assms
proof (induction fs arbitrary: t)
  case Nil
  show ?case using Nil by simp
next
  case (Cons f fs)
  have r: "reset_time f t \<le> t" "ok_time (reset_time f t)"
    using Cons.prems(2) reset_time_bounds [of t f] by (auto simp: ok_time_def)
  have "dcmCronParseResetAllMin (civil (reset_time f t)) fs = (0, civil (fold reset_time fs (reset_time f t))) \<and>
     ok_time (fold reset_time fs (reset_time f t)) \<and> fold reset_time fs (reset_time f t) \<le> reset_time f t"
    using Cons.prems(1) r(2) by (intro Cons.IH) auto
  moreover have "f = -1 \<or> f \<in> {0, 1, 2}" using Cons.prems(1) by auto
  moreover have "reset_time (-1) t = t" by (simp add: reset_time_def)
  ultimately show ?case using r Cons.prems(2) ResetMin_civil [of f t] by fastforce
qed

lemma SetField_civil:
  "ok_time (t + (v - t mod 60)) \<Longrightarrow> dcmCronParseSetField (civil t) 0 v = (0, civil (t + (v - t mod 60)))"
  "ok_time (t + (v - t div 60 mod 60) * 60) \<Longrightarrow>
     dcmCronParseSetField (civil t) 1 v = (0, civil (t + (v - t div 60 mod 60) * 60))"
  "ok_time (t + (v - t div 3600 mod 24) * 3600) \<Longrightarrow>
     dcmCronParseSetField (civil t) 2 v = (0, civil (t + (v - t div 3600 mod 24) * 3600))"
  by (simp_all add: dcmCronParseSetField_def put_field_def mktime_err_civil tm_secs_update)

lemma AddToField_civil:
  "ok_time (t + 60) \<Longrightarrow> dcmCronParseAddToField (civil t) 1 1 = Some (0, civil (t + 60))"
  "ok_time (t + 3600) \<Longrightarrow> dcmCronParseAddToField (civil t) 2 1 = Some (0, civil (t + 3600))"
  "ok_time (t + 86400) \<Longrightarrow> dcmCronParseAddToField (civil t) 3 1 = Some (0, civil (t + 86400))"
  "ok_time (t + 86400) \<Longrightarrow> dcmCronParseAddToField (civil t) 4 1 = Some (0, civil (t + 86400))"
  "ok_time (t + 1) \<Longrightarrow> dcmCronParseAddToField (civil t) 0 1 = Some (0, civil (t + 1))"
proof -
  have b: "0 \<le> t mod 60" "t mod 60 < 60" "0 \<le> t div 60 mod 60" "t div 60 mod 60 < 60"
    "0 \<le> t div 3600 mod 24" "t div 3600 mod 24 < 24" by simp_all
  have "add_int (t mod 60) 1 = Some (t mod 60 + 1)" "add_int (t div 60 mod 60) 1 = Some (t div 60 mod 60 + 1)"
    "add_int (t div 3600 mod 24) 1 = Some (t div 3600 mod 24 + 1)"
    "add_int (day_mday (day_number t)) 1 = Some (day_mday (day_number t) + 1)"
    using b day_mday_bounds [of "day_number t"] by (simp_all add: add_int_def INT_MIN_def INT_MAX_def)
  note add = this
  have m: "mktime_err c = (0, civil t')" if "tm_secs c = t'" "ok_time t'" for c t'
    using that by (rule mktime_err_civil)
  note defs = dcmCronParseAddToField_def store_sum_def tm_secs_update tm_secs_next_day add
  show "ok_time (t + 60) \<Longrightarrow> dcmCronParseAddToField (civil t) 1 1 = Some (0, civil (t + 60))"
    by (simp add: defs) (rule m; simp add: tm_secs_update)
  show "ok_time (t + 3600) \<Longrightarrow> dcmCronParseAddToField (civil t) 2 1 = Some (0, civil (t + 3600))"
    by (simp add: defs) (rule m; simp add: tm_secs_update)
  show "ok_time (t + 86400) \<Longrightarrow> dcmCronParseAddToField (civil t) 3 1 = Some (0, civil (t + 86400))"
    "ok_time (t + 86400) \<Longrightarrow> dcmCronParseAddToField (civil t) 4 1 = Some (0, civil (t + 86400))"
    by (simp_all add: defs) (rule m; simp add: tm_secs_next_day)+
  show "ok_time (t + 1) \<Longrightarrow> dcmCronParseAddToField (civil t) 0 1 = Some (0, civil (t + 1))"
    by (simp add: defs) (rule m; simp add: tm_secs_update)
qed

subsection \<open>The next value of a field\<close>

lemma NextSetBit_cases:
  assumes "max_i \<le> 8 * length bits" "length bits \<le> 256"
  shows "(\<exists>w. v \<le> w \<and> w < max_i \<and> w \<in> bits_of bits \<and> (\<forall>j. v \<le> j \<and> j < w \<longrightarrow> j \<notin> bits_of bits) \<and>
      dcmCronParseNextSetBit bits max_i v = Some (w, False)) \<or>
    ((\<forall>j. v \<le> j \<and> j < max_i \<longrightarrow> j \<notin> bits_of bits) \<and> dcmCronParseNextSetBit bits max_i v = Some (0, True))"
proof (induction "max_i - v" arbitrary: v)
  case 0
  then show ?case by (auto simp add: dcmCronParseNextSetBit.simps [of bits max_i v])
next
  case (Suc n)
  then have v: "v < max_i" by simp
  then have "dcmCronParseGetBit bits v = Some (v \<in> bits_of bits)"
    using assms by (simp add: dcmCronParseGetBit_eq less_mult_imp_div_less mult.commute)
  note step = dcmCronParseNextSetBit.simps [of bits max_i v, unfolded this]
  have split: "v \<le> j \<longleftrightarrow> j = v \<or> Suc v \<le> j" for j by auto
  show ?case
  proof (cases "v \<in> bits_of bits")
    case True
    with v show ?thesis by (intro disjI1 exI [of _ v]) (auto simp add: step)
  next
    case False
    have "n = max_i - Suc v" using Suc.hyps(2) by simp
    from Suc.hyps(1) [OF this] show ?thesis
    proof
      assume "\<exists>w. Suc v \<le> w \<and> w < max_i \<and> w \<in> bits_of bits \<and> (\<forall>j. Suc v \<le> j \<and> j < w \<longrightarrow> j \<notin> bits_of bits) \<and>
        dcmCronParseNextSetBit bits max_i (Suc v) = Some (w, False)"
      then obtain w where w: "Suc v \<le> w" "w < max_i" "w \<in> bits_of bits"
        "\<forall>j. Suc v \<le> j \<and> j < w \<longrightarrow> j \<notin> bits_of bits"
        "dcmCronParseNextSetBit bits max_i (Suc v) = Some (w, False)" by blast
      then show ?thesis using False v by (intro disjI1 exI [of _ w]) (auto simp: step split)
    next
      assume "(\<forall>j. Suc v \<le> j \<and> j < max_i \<longrightarrow> j \<notin> bits_of bits) \<and>
        dcmCronParseNextSetBit bits max_i (Suc v) = Some (0, True)"
      then show ?thesis using False v by (intro disjI2) (auto simp: step split)
    qed
  qed
qed

text \<open>Counting up from \<open>q\<close>, the residues modulo \<open>p\<close> run through the values from \<open>m\<close> and then
  from 0.\<close>

lemma residues_up:
  fixes q p :: int
  assumes m: "m = nat (q mod p)" and p: "0 < p" and w: "m \<le> w" "int w < p"
    and no: "\<forall>j. m \<le> j \<and> j < w \<longrightarrow> j \<notin> S" and r: "q \<le> r" "r < q + int (w - m)"
  shows "nat (r mod p) \<notin> S"
proof -
  have "0 \<le> q mod p" using p by simp
  then have q: "int m = q mod p" using m by simp
  define j where "j = nat (r - q)"
  have "r mod p = (q mod p + int j) mod p" using r(1) by (simp add: j_def mod_add_left_eq)
  also have "\<dots> = int m + int j" using q w r by (simp add: j_def)
  finally have "nat (r mod p) = m + j" by simp
  moreover have "m + j < w" using r w by (simp add: j_def)
  ultimately show ?thesis using no by simp
qed

lemma residues_wrap:
  fixes q p :: int
  assumes m: "m = nat (q mod p)" and p: "0 < p" and w: "int w < p"
    and no1: "\<forall>j. m \<le> j \<and> j < nat p \<longrightarrow> j \<notin> S" and no2: "\<forall>j. j < w \<longrightarrow> j \<notin> S"
    and r: "q \<le> r" "r < q + (p - int m) + int w"
  shows "nat (r mod p) \<notin> S"
proof -
  have "0 \<le> q mod p" "q mod p < p" using p by simp_all
  then have q: "int m = q mod p" "int m < p" using m by simp_all
  show ?thesis
  proof (cases "r < q + (p - int m)")
    case True
    define j where "j = nat (r - q)"
    have "r mod p = (q mod p + int j) mod p" using r(1) by (simp add: j_def mod_add_left_eq)
    also have "\<dots> = int m + int j" using q True r by (simp add: j_def)
    finally have "nat (r mod p) = m + j" by simp
    moreover have "m + j < nat p" using True r q by (simp add: j_def)
    ultimately show ?thesis using no1 by simp
  next
    case False
    define j where "j = nat (r - (q + (p - int m)))"
    have "r = int j + p * (q div p + 1)" using False q by (simp add: j_def algebra_simps minus_mod_eq_mult_div [symmetric])
    then have "r mod p = int j mod p" by (simp only: mod_mult_self2)
    also have "\<dots> = int j" using False r w by (simp add: j_def)
    finally have "nat (r mod p) = j" by simp
    moreover have "j < w" using False r by (simp add: j_def)
    ultimately show ?thesis using no2 by simp
  qed
qed

lemma residue_at:
  fixes q p :: int
  assumes "int m = q mod p" "m \<le> w" "int w < p"
  shows "(q + int (w - m)) mod p = int w"
proof -
  have "(q + int (w - m)) mod p = (q mod p + int (w - m)) mod p" by (simp add: mod_add_left_eq)
  also have "q mod p + int (w - m) = int w" using assms by simp
  finally show ?thesis using assms by simp
qed

lemma residue_at_wrap:
  fixes q p :: int
  assumes "int m = q mod p" "int w < p"
  shows "(q + (p - int m) + int w) mod p = int w"
proof -
  have "q + (p - int m) + int w = int w + p * (q div p + 1)"
    using assms(1) by (simp add: algebra_simps minus_mod_eq_mult_div [symmetric])
  then have "(q + (p - int m) + int w) mod p = int w mod p" by (simp only: mod_mult_self2)
  with assms show ?thesis by simp
qed

text \<open>The three fields below the day: unit, period, field and next field.\<close>

definition clock_field :: "int \<Rightarrow> nat \<Rightarrow> int \<Rightarrow> int \<Rightarrow> bool" where
  "clock_field u p f nf = ((u, p, f, nf) \<in> {(1, 60, 0, 1), (60, 60, 1, 2), (3600, 24, 2, 3)})"

lemma clock_ops:
  assumes "clock_field u p f nf"
  shows "0 < u" "0 < p" "f \<in> {0, 1, 2}"
    "ok_time (t + u * int p) \<Longrightarrow> dcmCronParseAddToField (civil t) nf 1 = Some (0, civil (t + u * int p))"
    "ok_time t \<Longrightarrow> dcmCronParseResetMin (civil t) f = (0, civil (t - t div u mod int p * u))"
    "ok_time (t + (v - t div u mod int p) * u) \<Longrightarrow>
       dcmCronParseSetField (civil t) f v = (0, civil (t + (v - t div u mod int p) * u))"
  using assms ResetMin_civil [of f t] AddToField_civil [of t] SetField_civil [of t v]
  by (auto simp: clock_field_def reset_time_def)

text \<open>The next set bit is the value itself, a later one, or the first one after a wrap.\<close>

lemma next_bit_cases:
  assumes len: "p \<le> 8 * length bits" "length bits \<le> 256" and S: "bits_of bits \<noteq> {}" "bits_of bits \<subseteq> {0..<p}"
    and m: "m < p"
  obtains "m \<in> bits_of bits" "dcmCronParseNextSetBit bits p m = Some (m, False)"
    | w where "m \<notin> bits_of bits" "m < w" "w < p" "w \<in> bits_of bits" "\<forall>j. m \<le> j \<and> j < w \<longrightarrow> j \<notin> bits_of bits"
        "dcmCronParseNextSetBit bits p m = Some (w, False)"
    | w where "m \<notin> bits_of bits" "\<forall>j. m \<le> j \<and> j < p \<longrightarrow> j \<notin> bits_of bits" "w < m" "w \<in> bits_of bits"
        "\<forall>j. j < w \<longrightarrow> j \<notin> bits_of bits" "dcmCronParseNextSetBit bits p m = Some (0, True)"
        "dcmCronParseNextSetBit bits p 0 = Some (w, False)"
  using NextSetBit_cases [OF len, of m]
proof
  assume "\<exists>w. m \<le> w \<and> w < p \<and> w \<in> bits_of bits \<and> (\<forall>j. m \<le> j \<and> j < w \<longrightarrow> j \<notin> bits_of bits) \<and>
    dcmCronParseNextSetBit bits p m = Some (w, False)"
  then obtain w where w: "m \<le> w" "w < p" "w \<in> bits_of bits" "\<forall>j. m \<le> j \<and> j < w \<longrightarrow> j \<notin> bits_of bits"
    "dcmCronParseNextSetBit bits p m = Some (w, False)" by blast
  show thesis
  proof (cases "w = m")
    case True
    with w that(1) show thesis by blast
  next
    case False
    with w that(2) [of w] show thesis by (metis le_neq_implies_less le_refl)
  qed
next
  assume no: "(\<forall>j. m \<le> j \<and> j < p \<longrightarrow> j \<notin> bits_of bits) \<and> dcmCronParseNextSetBit bits p m = Some (0, True)"
  from NextSetBit_cases [OF len, of 0] S obtain w where w: "w < p" "w \<in> bits_of bits"
    "\<forall>j. j < w \<longrightarrow> j \<notin> bits_of bits" "dcmCronParseNextSetBit bits p 0 = Some (w, False)" by fastforce
  moreover have "w < m" using w(1,2) no by (metis linorder_not_less)
  ultimately show thesis using that(3) [of w] no m by blast
qed

text \<open>The field moves up to a later value, or rolls over to the next value of the field above.\<close>

lemma within_two_days:
  assumes "ok_time t" "ok_time (t + 2 * 86400)" "set lower \<subseteq> {-1, 0, 1, 2}" "0 \<le> k" "k \<le> 2 * 86400"
  shows "ok_time (t + k)" "dcmCronParseResetAllMin (civil (t + k)) lower = (0, civil (fold reset_time lower (t + k)))"
proof -
  show ok: "ok_time (t + k)" using assms by (simp add: ok_time_def)
  show "dcmCronParseResetAllMin (civil (t + k)) lower = (0, civil (fold reset_time lower (t + k)))"
    using ResetAllMin_civil [OF assms(3) ok] by simp
qed

lemma clock_units:
  assumes "clock_field u p f nf" "0 \<le> i" "i \<le> int p"
  shows "0 \<le> i * u" "i * u \<le> 86400"
proof -
  have "u * i \<le> u * int p" using clock_ops(1) [OF assms(1)] assms(3) by (intro mult_left_mono) auto
  moreover have "u * int p \<le> 86400" using assms(1) by (auto simp: clock_field_def)
  ultimately show "i * u \<le> 86400" by (simp add: mult.commute)
  show "0 \<le> i * u" using clock_ops(1) [OF assms(1)] assms(2) by simp
qed

lemma FindNext_up:
  assumes cf: "clock_field u p f nf" and t: "ok_time t" "ok_time (t + 2 * 86400)" and lo: "set lower \<subseteq> {-1, 0, 1, 2}"
    and m: "int m = t div u mod int p" "m < w" "w < p" and found: "dcmCronParseNextSetBit bits p m = Some (w, False)"
  shows "dcmCronParseFindNext bits p m (civil t) f nf lower =
    Some (w, civil (fold reset_time lower (t + (int w - int m) * u)), 0)"
proof -
  have k: "0 \<le> (int w - int m) * u" "(int w - int m) * u \<le> 86400"
    using clock_units [OF cf, of "int w - int m"] m(2,3) by simp_all
  have "dcmCronParseSetField (civil t) f (int w) = (0, civil (t + (int w - int m) * u))"
    using clock_ops(6) [OF cf, of t "int w"] within_two_days(1) [OF t lo k(1)] k m(1) t(1) by simp
  then show ?thesis
    using found m(2) within_two_days(2) [OF t lo k(1)] k(2) by (simp add: dcmCronParseFindNext_def roll_over_def)
qed

lemma FindNext_wrap:
  assumes cf: "clock_field u p f nf" and t: "ok_time t" "ok_time (t + 2 * 86400)" and lo: "set lower \<subseteq> {-1, 0, 1, 2}"
    and m: "int m = t div u mod int p" "m < p" "w < m"
    and no: "dcmCronParseNextSetBit bits p m = Some (0, True)" and first: "dcmCronParseNextSetBit bits p 0 = Some (w, False)"
  shows "dcmCronParseFindNext bits p m (civil t) f nf lower =
    Some (w, civil (fold reset_time lower (t + (int p - int m + int w) * u)), 0)"
proof -
  note ops = clock_ops [OF cf] and day = within_two_days [OF t lo]
  define k where "k = (int p - int m) * u"
  have k: "0 \<le> k" "k \<le> 86400" and up: "0 \<le> int p * u" "int p * u \<le> 86400"
    and kw: "0 \<le> k + int w * u" "k + int w * u \<le> 86400"
    using clock_units [OF cf, of "int p - int m"] clock_units [OF cf, of "int p"]
      clock_units [OF cf, of "int p - int m + int w"] m(2,3) by (simp_all add: k_def algebra_simps)
  have add: "dcmCronParseAddToField (civil t) nf 1 = Some (0, civil (t + u * int p))"
    using ops(4) [of t] day(1) [OF up(1)] t(1) up(2) by (simp add: mult.commute)
  have "(t + u * int p) div u mod int p = int m" using ops(1) m(1) by simp
  then have rm: "dcmCronParseResetMin (civil (t + u * int p)) f = (0, civil (t + k))"
    using ops(5) [of "t + u * int p"] day(1) [OF up(1)] up(2) by (simp add: k_def algebra_simps)
  have "(t + k) div u = t div u + (int p - int m)" using ops(1) by (simp add: k_def)
  also have "\<dots> = int p * (t div u div int p + 1)" by (simp add: m(1) algebra_simps minus_mod_eq_mult_div [symmetric])
  finally have "(t + k) div u mod int p = 0" by simp
  then have sf: "dcmCronParseSetField (civil (t + k)) f (int w) = (0, civil (t + (k + int w * u)))"
    using ops(6) [of "t + k" "int w"] day(1) [OF k(1)] day(1) [OF kw(1)] k(2) kw(2) by (simp add: add.assoc)
  have "dcmCronParseFindNext bits p m (civil t) f nf lower =
      Some (w, civil (fold reset_time lower (t + (k + int w * u))), 0)"
    using no first add rm sf m(3) day(2) [OF kw(1)] kw(2) by (simp add: dcmCronParseFindNext_def roll_over_def)
  then show ?thesis by (simp add: k_def algebra_simps)
qed

text \<open>One search in a clock field: either the value is allowed and nothing changes, or the
  instant moves up to the next allowed value \<open>q'\<close> (counting units from the epoch), and the lower
  fields are reset.\<close>

lemma FindNext_clock:
  assumes cf: "clock_field u p f nf" and len: "p \<le> 8 * length bits" "length bits \<le> 256"
    and S: "bits_of bits \<noteq> {}" "bits_of bits \<subseteq> {0..<p}"
    and t: "ok_time t" "ok_time (t + 2 * 86400)" and lo: "set lower \<subseteq> {-1, 0, 1, 2}"
  defines "m \<equiv> nat (t div u mod int p)"
  shows "if m \<in> bits_of bits then dcmCronParseFindNext bits p m (civil t) f nf lower = Some (m, civil t, 0)
    else \<exists>q' v. t div u < q' \<and> q' \<le> t div u + int p \<and> v \<noteq> m \<and>
      nat (q' mod int p) \<in> bits_of bits \<and> (\<forall>r. t div u \<le> r \<and> r < q' \<longrightarrow> nat (r mod int p) \<notin> bits_of bits) \<and>
      dcmCronParseFindNext bits p m (civil t) f nf lower =
        Some (v, civil (fold reset_time lower (t + (q' - t div u) * u)), 0)"
proof -
  have p: "0 < p" using clock_ops(2) [OF cf] by simp
  have qm: "int m = t div u mod int p" "m < p" using p by (simp_all add: m_def nat_less_iff)
  consider (stay) "m \<in> bits_of bits" "dcmCronParseNextSetBit bits p m = Some (m, False)"
    | (up) w where "m \<notin> bits_of bits" "m < w" "w < p" "w \<in> bits_of bits" "\<forall>j. m \<le> j \<and> j < w \<longrightarrow> j \<notin> bits_of bits"
        "dcmCronParseNextSetBit bits p m = Some (w, False)"
    | (wrap) w where "m \<notin> bits_of bits" "\<forall>j. m \<le> j \<and> j < p \<longrightarrow> j \<notin> bits_of bits" "w < m" "w \<in> bits_of bits"
        "\<forall>j. j < w \<longrightarrow> j \<notin> bits_of bits" "dcmCronParseNextSetBit bits p m = Some (0, True)"
        "dcmCronParseNextSetBit bits p 0 = Some (w, False)"
    by (rule next_bit_cases [OF len S qm(2)]) blast+
  then show ?thesis
  proof cases
    case stay
    then show ?thesis by (simp add: dcmCronParseFindNext_def roll_over_def)
  next
    case up
    note f = FindNext_up [OF cf t lo qm(1) up(2,3,6)]
    have "nat (r mod int p) \<notin> bits_of bits" if "t div u \<le> r \<and> r < t div u + int (w - m)" for r
      using residues_up [of m "t div u" "int p" w] that up p qm by (simp add: m_def)
    moreover have "nat ((t div u + int (w - m)) mod int p) \<in> bits_of bits"
      using up(4) residue_at [of m "t div u" "int p" w] up(2,3) qm by simp
    ultimately show ?thesis using up(1,2,3) f
      by (intro if_not_P [THEN iffD2] exI [of _ "t div u + int (w - m)"] exI [of _ w]) (auto simp: of_nat_diff)
  next
    case wrap
    note f = FindNext_wrap [OF cf t lo qm wrap(3,6,7)]
    have "nat (r mod int p) \<notin> bits_of bits" if "t div u \<le> r \<and> r < t div u + (int p - int m) + int w" for r
      using residues_wrap [of m "t div u" "int p" w] that wrap p qm by (simp add: m_def)
    moreover have "nat ((t div u + (int p - int m) + int w) mod int p) \<in> bits_of bits"
      using wrap(3,4) residue_at_wrap [of m "t div u" "int p" w] qm by simp
    ultimately show ?thesis using wrap(1,3) f qm
      by (intro if_not_P [THEN iffD2] exI [of _ "t div u + (int p - int m) + int w"] exI [of _ w]) (auto simp: algebra_simps)
  qed
qed

lemma NextSetBit_hit:
  "v < max_i \<Longrightarrow> max_i \<le> 8 * length bits \<Longrightarrow> length bits \<le> 256 \<Longrightarrow> v \<in> bits_of bits \<Longrightarrow>
   dcmCronParseNextSetBit bits max_i v = Some (v, False)"
  by (simp add: dcmCronParseNextSetBit.simps [of bits max_i v] dcmCronParseGetBit_eq
      less_mult_imp_div_less mult.commute)

lemma FindNext_hit:
  "v < max_i \<Longrightarrow> max_i \<le> 8 * length bits \<Longrightarrow> length bits \<le> 256 \<Longrightarrow> v \<in> bits_of bits \<Longrightarrow>
   dcmCronParseFindNext bits max_i v c f nf lower = Some (v, c, 0)"
  by (simp add: dcmCronParseFindNext_def roll_over_def NextSetBit_hit)

subsection \<open>Consecutive days of the month\<close>

lemma month_of_yday_next:
  "0 \<le> d \<Longrightarrow> d < 365 + (if l then 1 else 0) \<Longrightarrow> d < days_before_month l (month_of_yday l d + 1)"
  by (cases l) (auto simp: month_of_yday_def days_before_month_def)

lemma month_of_yday_first:
  assumes "0 \<le> m" "m \<le> 10"
  shows "month_of_yday l (days_before_month l (m + 1)) = m + 1 \<and>
    days_before_month l m + 28 \<le> days_before_month l (m + 1)"
proof -
  have "m = 0 \<or> m = 1 \<or> m = 2 \<or> m = 3 \<or> m = 4 \<or> m = 5 \<or> m = 6 \<or> m = 7 \<or> m = 8 \<or> m = 9 \<or> m = 10"
    using assms by presburger
  then show ?thesis by (cases l) (auto simp: month_of_yday_def days_before_month_def)
qed

lemma month_of_yday_mono: "d \<le> e \<Longrightarrow> month_of_yday l d \<le> month_of_yday l e"
  by (cases l) (simp_all add: month_of_yday_def days_before_month_def)

lemma days_before_month_mono: "m \<le> k \<Longrightarrow> 0 \<le> m \<Longrightarrow> k \<le> 11 \<Longrightarrow> days_before_month l m \<le> days_before_month l k"
proof (induction k rule: int_ge_induct)
  case (step k)
  with month_of_yday_first [of k l] show ?case by simp
qed simp

lemma next_day_of_year:
  assumes d: "0 \<le> d" "d + 1 < 365 + (if l then 1 else 0)"
  shows "month_of_yday l (d + 1) = month_of_yday l d \<or>
    month_of_yday l (d + 1) = month_of_yday l d + 1 \<and> d + 1 = days_before_month l (month_of_yday l d + 1) \<and>
    days_before_month l (month_of_yday l d) + 28 \<le> d + 1"
proof -
  define m m' where mm: "m = month_of_yday l d" "m' = month_of_yday l (d + 1)"
  have b: "0 \<le> m" "d < days_before_month l (m + 1)" "m' \<le> 11" "days_before_month l m' \<le> d + 1" "m \<le> m'"
    using d month_of_yday_bounds [of d l] month_of_yday_next [of d l] month_of_yday_bounds [of "d + 1" l]
      month_of_yday_mono [of d "d + 1" l]
    by (simp_all add: mm)
  show ?thesis
  proof (cases "m' = m")
    case False
    then have "days_before_month l (m + 1) \<le> days_before_month l m'"
      using b(1,3,5) by (intro days_before_month_mono) simp_all
    with b have "d + 1 = days_before_month l (m + 1)" by simp
    moreover have "month_of_yday l (days_before_month l (m + 1)) = m + 1 \<and>
        days_before_month l m + 28 \<le> days_before_month l (m + 1)"
      using b False by (intro month_of_yday_first) simp_all
    ultimately show ?thesis by (simp add: mm)
  qed (simp add: mm)
qed

lemma mday_Suc: "day_mday (n + 1) = day_mday n + 1 \<or> day_mday (n + 1) = 1 \<and> 28 \<le> day_mday n"
proof -
  define y where "y = day_year n"
  have yd: "0 \<le> day_yday n" "day_yday n < year_length y" using day_yday_bounds [of n] by (simp_all add: y_def)
  have n: "n + epoch_days = days_before_year y + day_yday n" by (simp add: day_yday_def y_def)
  show ?thesis
  proof (cases "day_yday n + 1 < year_length y")
    case True
    have y': "day_year (n + 1) = y"
      unfolding day_year_def using n yd True days_before_year_Suc [of y]
      by (intro year_of_day_unique) simp_all
    then have yd': "day_yday (n + 1) = day_yday n + 1" using n by (simp add: day_yday_def)
    have "day_yday n + 1 < 365 + (if leap_year y then 1 else 0)"
      using True by (simp add: year_length_def split: if_splits)
    from next_day_of_year [OF yd(1) this] show ?thesis
      by (auto simp: day_mday_def day_mon_def y' yd' y_def [symmetric])
  next
    case False
    then have last: "day_yday n + 1 = year_length y" using yd by simp
    have y': "day_year (n + 1) = y + 1"
      unfolding day_year_def using n last days_before_year_Suc [of y] days_before_year_Suc [of "y + 1"]
        year_length_bounds [of "y + 1"]
      by (intro year_of_day_unique) simp_all
    have yd': "day_yday (n + 1) = 0"
      using n last days_before_year_Suc [of y] by (simp add: day_yday_def y')
    have "day_mday (n + 1) = 1"
      by (simp add: day_mday_def day_mon_def yd' month_of_yday_def days_before_month_def)
    moreover have "28 \<le> day_mday n"
    proof -
      have "day_yday n = (if leap_year y then 365 else 364)" using last by (simp add: year_length_def split: if_splits)
      then show ?thesis
        by (cases "leap_year y")
          (simp_all add: day_mday_def day_mon_def y_def [symmetric] month_of_yday_def days_before_month_def)
    qed
    ultimately show ?thesis by simp
  qed
qed

lemma mday_within_week:
  assumes "1 \<le> k" "k \<le> 6"
  shows "day_mday (n + int k) \<noteq> day_mday n"
proof -
  have "day_mday (n + int k) = day_mday n + int k \<or> day_mday (n + int k) \<le> int k \<and> 29 - int k \<le> day_mday n"
    if "1 \<le> k" for k
    using that
  proof (induction k rule: nat_induct_at_least)
    case base
    show ?case using mday_Suc [of n] by auto
  next
    case (Suc k)
    have e: "n + int (Suc k) = (n + int k) + 1" by simp
    show ?case unfolding e using mday_Suc [of "n + int k"] Suc by auto
  qed
  from this [OF assms(1)] assms show ?thesis by auto
qed

subsection \<open>The stages of the search\<close>

definition month_stage where
  "month_stage mem e dot resets c =
     (let month = nat (tm_mon c) in
      case dcmCronParseFindNext (months e) 12 month c CRON_CF_MONTH CRON_CF_YEAR resets of
        None \<Rightarrow> None
      | Some (update_month, c, res) \<Rightarrow>
          if res \<noteq> 0 then Some (res, c)
          else if month \<noteq> update_month then
            (if uint32 (tm_year c - int dot) > 4 then Some (-1, c) else dcmCronParseDoNext mem e c dot)
          else Some (0, c))"

definition day_stage where
  "day_stage mem e dot resets c =
     (let day_of_week = nat (tm_wday c); day_of_month = nat (tm_mday c) in
      case dcmCronParseFindNextDay c (days_of_month e) day_of_month (days_of_week e) day_of_week resets of
        None \<Rightarrow> None
      | Some (update_day_of_month, c, res) \<Rightarrow> do {
          (res, c) \<leftarrow> (if res = 0 \<and> day_of_month \<noteq> update_day_of_month
                        then dcmCronParseDoNext mem e c dot else Some (res, c));
          if res \<noteq> 0 then Some (res, c)
          else month_stage mem e dot (if day_of_month = update_day_of_month
                 then dcmCronParsePushToFieldsArr resets CRON_CF_DAY_OF_MONTH else resets) c })"

definition hour_stage where
  "hour_stage mem e dot resets c =
     (let hour = nat (tm_hour c) in
      case dcmCronParseFindNext (hours e) 24 hour c CRON_CF_HOUR_OF_DAY CRON_CF_DAY_OF_WEEK resets of
        None \<Rightarrow> None
      | Some (update_hour, c, res) \<Rightarrow> do {
          (res, c) \<leftarrow> (if res = 0 \<and> hour \<noteq> update_hour then dcmCronParseDoNext mem e c dot else Some (res, c));
          if res \<noteq> 0 then Some (res, c)
          else day_stage mem e dot (if hour = update_hour
                 then dcmCronParsePushToFieldsArr resets CRON_CF_HOUR_OF_DAY else resets) c })"

definition minute_stage where
  "minute_stage mem e dot resets c =
     (let minute = nat (tm_min c) in
      case dcmCronParseFindNext (minutes e) 60 minute c CRON_CF_MINUTE CRON_CF_HOUR_OF_DAY resets of
        None \<Rightarrow> None
      | Some (update_minute, c, res) \<Rightarrow> do {
          (res, c) \<leftarrow> (if res = 0 \<and> minute \<noteq> update_minute then dcmCronParseDoNext mem e c dot else Some (res, c));
          if res \<noteq> 0 then Some (res, c)
          else hour_stage mem e dot (if minute = update_minute
                 then dcmCronParsePushToFieldsArr resets CRON_CF_MINUTE else resets) c })"

lemma DoNext_stages:
  assumes "mem 28"
  shows "dcmCronParseDoNext mem e c dot =
     (let second = nat (tm_sec c) in
      case dcmCronParseFindNext (seconds e) 60 second c CRON_CF_SECOND CRON_CF_MINUTE empty_list of
        None \<Rightarrow> None
      | Some (update_second, c, res) \<Rightarrow>
          if res \<noteq> 0 then Some (res, c)
          else minute_stage mem e dot (if second = update_second
                 then dcmCronParsePushToFieldsArr empty_list CRON_CF_SECOND else empty_list) c)"
  using assms unfolding dcmCronParseDoNext.simps [of mem e c dot]
  by (simp add: minute_stage_def hour_stage_def day_stage_def month_stage_def Let_def
      cong: option.case_cong if_cong)

text \<open>At a matching instant every stage leaves the calendar alone.\<close>

lemma pattern_sizes:
  assumes "plain_pattern e"
  shows "length (seconds e) = 8" "length (minutes e) = 8" "length (hours e) = 3"
    "length (days_of_week e) = 1" "length (days_of_month e) = 4" "length (months e) = 2"
    "bits_of (seconds e) = {0}" "bits_of (months e) = {0..<12}"
    "bits_of (minutes e) \<subseteq> {0..<60}" "bits_of (hours e) \<subseteq> {0..<24}" "bits_of (minutes e) \<noteq> {}" "bits_of (hours e) \<noteq> {}"
  using assms by (simp_all add: plain_pattern_def cron_wf_def cron_sizes_def cron_ranges_def)

lemma month_stage_settled:
  assumes "plain_pattern e"
  shows "month_stage mem e dot resets (civil t) = Some (0, civil t)"
proof -
  have "nat (day_mon (day_number t)) < 12" using day_mon_bounds [of "day_number t"] by linarith
  then show ?thesis
    using pattern_sizes [OF assms] FindNext_hit [of "nat (day_mon (day_number t))" 12 "months e"]
    by (simp add: month_stage_def)
qed

definition day_ok :: "dcmCronExpr \<Rightarrow> int \<Rightarrow> bool" where
  "day_ok e n = (nat (day_mday n) \<in> bits_of (days_of_month e) \<and> nat (day_wday n) \<in> bits_of (days_of_week e))"

lemma get_day_bits:
  assumes "length doms = 4" "length dows = 1"
  shows "dcmCronParseGetBit doms (nat (day_mday n)) = Some (nat (day_mday n) \<in> bits_of doms)"
    "dcmCronParseGetBit dows (nat (day_wday n)) = Some (nat (day_wday n) \<in> bits_of dows)"
proof -
  have "nat (day_mday n) < 8 * 4" "nat (day_wday n) < 8 * 1"
    using day_mday_bounds [of n] day_wday_bounds [of n] by linarith+
  then show "dcmCronParseGetBit doms (nat (day_mday n)) = Some (nat (day_mday n) \<in> bits_of doms)"
    "dcmCronParseGetBit dows (nat (day_wday n)) = Some (nat (day_wday n) \<in> bits_of dows)"
    using assms by (auto intro!: dcmCronParseGetBit_eq less_mult_imp_div_less)
qed

text \<open>The loop over the days: the first day that is allowed, at its start if the search moved.\<close>

lemma find_next_day_run:
  assumes e: "length (days_of_month e) = 4" "length (days_of_week e) = 1"
    and R: "\<And>x. x mod 60 = 0 \<Longrightarrow> ok_time x \<Longrightarrow> dcmCronParseResetAllMin (civil x) resets = (0, civil (86400 * day_number x))"
  shows "day_ok e (day_number t + int k) \<Longrightarrow> (\<forall>j < k. \<not> day_ok e (day_number t + int j)) \<Longrightarrow> k \<le> n \<Longrightarrow>
    t mod 60 = 0 \<Longrightarrow> ok_time t \<Longrightarrow> ok_time (t + 86400 * int k) \<Longrightarrow>
    find_next_day n (civil t) (days_of_month e) (nat (day_mday (day_number t))) (days_of_week e)
      (nat (day_wday (day_number t))) resets =
    Some (nat (day_mday (day_number t + int k)),
          civil (if k = 0 then t else 86400 * (day_number t + int k)), 0)"
proof (induction k arbitrary: t n)
  case 0
  then show ?case
    by (simp add: find_next_day.simps [of n] get_day_bits [OF e] day_ok_def)
next
  case (Suc k)
  obtain m where n: "n = Suc m" using Suc.prems(3) by (cases n) auto
  define t' where "t' = 86400 * (day_number t + 1)"
  have dn: "day_number (t + 86400) = day_number t + 1" "day_number t' = day_number t + 1"
    by (simp_all add: day_number_def t'_def)
  have t: "86400 * day_number t \<le> t" by (simp add: day_number_def)
  have dk: "86400 * int (Suc k) = 86400 + 86400 * int k" by simp
  have okt: "ok_time (t + 86400)" "ok_time t'" "ok_time (t' + 86400 * int k)"
    using Suc.prems(5,6) t unfolding ok_time_def t'_def dk day_number_def
    by (auto simp: algebra_simps pos_imp_zdiv_nonneg_iff)
  have add: "dcmCronParseAddToField (civil t) 4 1 = Some (0, civil (t + 86400))"
    using okt(1) by (rule AddToField_civil(4))
  have "(t + 86400) mod 60 = 0" using Suc.prems(4) mod_mult_self2 [of t 60 1440] by simp
  then have reset: "dcmCronParseResetAllMin (civil (t + 86400)) resets = (0, civil t')"
    using R okt(1) by (simp add: dn t'_def)
  have no: "\<not> day_ok e (day_number t)" using Suc.prems(2) by force
  have step: "find_next_day n (civil t) (days_of_month e) (nat (day_mday (day_number t))) (days_of_week e)
      (nat (day_wday (day_number t))) resets =
      find_next_day m (civil t') (days_of_month e) (nat (day_mday (day_number t'))) (days_of_week e)
      (nat (day_wday (day_number t'))) resets"
    using no by (auto simp: find_next_day.simps [of "Suc m"] get_day_bits [OF e] day_ok_def n add reset dn)
  have shift: "day_number t' + int j = day_number t + int (Suc j)" for j by (simp add: dn)
  have "find_next_day m (civil t') (days_of_month e) (nat (day_mday (day_number t'))) (days_of_week e)
      (nat (day_wday (day_number t'))) resets =
    Some (nat (day_mday (day_number t' + int k)),
          civil (if k = 0 then t' else 86400 * (day_number t' + int k)), 0)"
  proof (rule Suc.IH)
    show "day_ok e (day_number t' + int k)" unfolding shift by (rule Suc.prems(1))
    show "\<forall>j<k. \<not> day_ok e (day_number t' + int j)" unfolding shift using Suc.prems(2) by blast
    show "k \<le> m" using Suc.prems(3) n by simp
    have "t' = 60 * (1440 * (day_number t + 1))" by (simp add: t'_def)
    then show "t' mod 60 = 0" by (simp only: mod_mult_self1_is_0)
  qed (use okt in simp_all)
  then show ?case unfolding step shift by (simp add: t'_def)
qed

lemma FindNextDay_hit:
  "day_ok e (day_number t) \<Longrightarrow> length (days_of_month e) = 4 \<Longrightarrow> length (days_of_week e) = 1 \<Longrightarrow>
   dcmCronParseFindNextDay (civil t) (days_of_month e) (nat (day_mday (day_number t))) (days_of_week e)
     (nat (day_wday (day_number t))) resets = Some (nat (day_mday (day_number t)), civil t, 0)"
  by (simp add: dcmCronParseFindNextDay_def find_next_day.simps [of 366] get_day_bits day_ok_def)

lemma day_stage_settled:
  assumes e: "plain_pattern e" and d: "day_ok e (day_number t)"
  shows "day_stage mem e dot resets (civil t) = Some (0, civil t)"
  using FindNextDay_hit [OF d pattern_sizes(5,4) [OF e]]
  by (simp add: day_stage_def month_stage_settled [OF e])

lemma hour_stage_settled:
  assumes e: "plain_pattern e" and d: "day_ok e (day_number t)" "hour_of t \<in> bits_of (hours e)"
  shows "hour_stage mem e dot resets (civil t) = Some (0, civil t)"
proof -
  note sz = pattern_sizes [OF e]
  have "dcmCronParseFindNext (hours e) 24 (hour_of t) (civil t) CRON_CF_HOUR_OF_DAY CRON_CF_DAY_OF_WEEK resets
      = Some (hour_of t, civil t, 0)"
    using sz(3,10) d(2) by (intro FindNext_hit) auto
  then show ?thesis
    by (simp add: hour_stage_def hour_of_def [symmetric] day_stage_settled [OF e d(1)])
qed

text \<open>The lists of lower fields the stages pass on.\<close>

definition sec_resets :: "bool \<Rightarrow> int list" where
  "sec_resets b = (if b then dcmCronParsePushToFieldsArr empty_list CRON_CF_SECOND else empty_list)"

definition min_resets :: "bool \<Rightarrow> int list" where
  "min_resets b = dcmCronParsePushToFieldsArr (sec_resets b) CRON_CF_MINUTE"

definition hour_resets :: "bool \<Rightarrow> int list" where
  "hour_resets b = dcmCronParsePushToFieldsArr (min_resets b) CRON_CF_HOUR_OF_DAY"

lemma resets_values:
  "sec_resets b = (if b then [0, -1, -1, -1, -1, -1, -1] else [-1, -1, -1, -1, -1, -1, -1])"
  "min_resets b = (if b then [0, 1, -1, -1, -1, -1, -1] else [1, -1, -1, -1, -1, -1, -1])"
  "hour_resets b = (if b then [0, 1, 2, -1, -1, -1, -1] else [1, 2, -1, -1, -1, -1, -1])"
  by (simp_all add: sec_resets_def min_resets_def hour_resets_def dcmCronParsePushToFieldsArr_def empty_list_def)

lemma reset_clock:
  assumes "x mod 60 = 0"
  shows "reset_time 0 x = x" "reset_time 1 x = 3600 * (x div 3600)" "reset_time (-1) x = x"
    "reset_time 2 (3600 * (x div 3600)) = 86400 * day_number x"
proof -
  show "reset_time 0 x = x" "reset_time (-1) x = x" using assms by (simp_all add: reset_time_def)
  have "x = 3600 * (x div 3600) + x div 60 mod 60 * 60"
    using second_decomposition [of x] assms div_mult_mod_eq [of "x div 3600" 24]
    by (simp add: day_number_def zdiv_zmult2_eq [symmetric])
  then show "reset_time 1 x = 3600 * (x div 3600)" by (simp add: reset_time_def)
  have "x div 3600 = 24 * day_number x + x div 3600 mod 24"
    using div_mult_mod_eq [of "x div 3600" 24] by (simp add: day_number_def zdiv_zmult2_eq [symmetric])
  then show "reset_time 2 (3600 * (x div 3600)) = 86400 * day_number x" by (simp add: reset_time_def)
qed

lemma reset_time_neg [simp]: "reset_time (-1) x = x"
  by (simp add: reset_time_def)

lemma resets_fold:
  assumes "x mod 60 = 0"
  shows "fold reset_time (sec_resets b) x = x" "fold reset_time (min_resets b) x = 3600 * (x div 3600)"
    "fold reset_time (hour_resets b) x = 86400 * day_number x"
  using reset_clock [OF assms] by (simp_all add: resets_values)

lemma resets_sets:
  "set (sec_resets b) \<subseteq> {-1, 0, 1, 2}" "set (min_resets b) \<subseteq> {-1, 0, 1, 2}" "set (hour_resets b) \<subseteq> {-1, 0, 1, 2}"
  by (simp_all add: resets_values)

subsection \<open>No stage jumps over a match\<close>

text \<open>\<open>T\<close> is the earliest match from \<open>t\<close> on.\<close>

definition least_match :: "dcmCronExpr \<Rightarrow> int \<Rightarrow> int \<Rightarrow> bool" where
  "least_match e t T = (t \<le> T \<and> cron_matches e T \<and> (\<forall>u. t \<le> u \<and> u < T \<longrightarrow> \<not> cron_matches e u))"

lemma least_match_later: "least_match e t T \<Longrightarrow> t \<le> t' \<Longrightarrow> t' \<le> T \<Longrightarrow> least_match e t' T"
  by (auto simp: least_match_def)

lemma cron_matches_iff:
  "plain_pattern e \<Longrightarrow> 0 \<le> t \<Longrightarrow> cron_matches e t \<longleftrightarrow>
     t mod 60 = 0 \<and> minute_of t \<in> bits_of (minutes e) \<and> hour_of t \<in> bits_of (hours e) \<and> day_ok e (day_number t)"
proof -
  assume "plain_pattern e"
  moreover have "nat (day_mon (day_number t)) < 12" using day_mon_bounds [of "day_number t"] by linarith
  moreover have "nat (t mod 60) = 0 \<longleftrightarrow> t mod 60 = 0"
    using pos_mod_sign [of 60 t] by (simp add: nat_eq_iff)
  ultimately show ?thesis by (auto simp: cron_matches_def day_ok_def pattern_sizes)
qed

lemma day_search_bound:
  assumes e: "plain_pattern e" and n: "day_ok e (n + int k)" "\<forall>j < k. \<not> day_ok e (n + int j)"
  shows "k \<le> 366" and "0 < k \<Longrightarrow> nat (day_mday (n + int k)) \<noteq> nat (day_mday n)"
proof -
  have pos: "nat (day_mday m) = nat (day_mday m') \<longleftrightarrow> day_mday m = day_mday m'" for m m'
    using day_mday_bounds [of m] day_mday_bounds [of m'] by (intro eq_nat_nat_iff) linarith+
  have ne: "\<exists>d. 1 \<le> d \<and> d \<le> 31 \<and> nat d \<in> bits_of (days_of_month e)" "\<exists>w. 0 \<le> w \<and> w \<le> 6 \<and> nat w \<in> bits_of (days_of_week e)"
  proof -
    obtain i j where "i \<in> bits_of (days_of_month e)" "1 \<le> i" "i < 32" "j \<in> bits_of (days_of_week e)" "j < 7"
      using e by (force simp: plain_pattern_def cron_wf_def cron_ranges_def)
    then show "\<exists>d. 1 \<le> d \<and> d \<le> 31 \<and> nat d \<in> bits_of (days_of_month e)"
      "\<exists>w. 0 \<le> w \<and> w \<le> 6 \<and> nat w \<in> bits_of (days_of_week e)"
      by (intro exI [of _ "int i"] exI [of _ "int j"]; simp)+
  qed
  have all: "bits_of (days_of_month e) = {1..<32} \<Longrightarrow> nat (day_mday m) \<in> bits_of (days_of_month e)"
    "bits_of (days_of_week e) = {0..<7} \<Longrightarrow> nat (day_wday m) \<in> bits_of (days_of_week e)" for m
    using day_mday_bounds [of m] day_wday_bounds [of m] by auto
  have least: "int k \<le> i" if "0 \<le> i" "day_ok e (n + i)" for i
    using n(2) that by (metis linorder_not_less nat_0_le nat_less_iff)
  consider (doms) "bits_of (days_of_month e) = {1..<32}" | (dows) "bits_of (days_of_week e) = {0..<7}"
    using e by (auto simp: plain_pattern_def)
  then have "k \<le> 366 \<and> (0 < k \<longrightarrow> nat (day_mday (n + int k)) \<noteq> nat (day_mday n))"
  proof cases
    case doms
    obtain w where w: "0 \<le> w" "w \<le> 6" "nat w \<in> bits_of (days_of_week e)" using ne(2) by blast
    obtain i where "0 \<le> i" "i \<le> 6" "day_wday (n + i) = w" using wday_within_a_week [OF w(1,2)] by blast
    then have "int k \<le> 6" using least [of i] w(3) all(1) [OF doms] by (simp add: day_ok_def)
    then show ?thesis using mday_within_week [of k n] by (simp add: pos)
  next
    case dows
    obtain d where d: "1 \<le> d" "d \<le> 31" "nat d \<in> bits_of (days_of_month e)" using ne(1) by blast
    obtain i where "0 \<le> i" "i \<le> 365" "day_mday (n + i) = d" using mday_within_a_year [OF d(1,2)] by blast
    then have "int k \<le> 365" using least [of i] d(3) all(2) [OF dows] by (simp add: day_ok_def)
    moreover have "nat (day_mday (n + int k)) \<noteq> nat (day_mday n)" if "0 < k"
      using n(1) n(2) [rule_format, OF that] all(2) [OF dows] by (auto simp: day_ok_def)
    ultimately show ?thesis by simp
  qed
  then show "k \<le> 366" "0 < k \<Longrightarrow> nat (day_mday (n + int k)) \<noteq> nat (day_mday n)" by simp_all
qed

text \<open>The three stages and the whole search, with what the recursive calls give as \<open>IH\<close>.\<close>

lemma day_stage_least:
  assumes e: "plain_pattern e" and m: "least_match e t T"
    and ok: "ok_time t" "ok_time (T + 2 * 86400)"
    and t: "t mod 60 = 0" "minute_of t \<in> bits_of (minutes e)" "hour_of t \<in> bits_of (hours e)"
    and IH: "\<And>t'. t < t' \<Longrightarrow> t' \<le> T \<Longrightarrow> dcmCronParseDoNext mem e (civil t') dot = Some (0, civil T)"
  shows "day_stage mem e dot (hour_resets b) (civil t) = Some (0, civil T)"
proof -
  note sz = pattern_sizes [OF e]
  define n where "n = day_number t"
  have T: "t \<le> T" "0 \<le> T" "day_ok e (day_number T)"
    using m ok(1) cron_matches_iff [OF e, of T] by (auto simp: least_match_def ok_time_def)
  have nT: "n \<le> day_number T" using T(1) by (simp add: n_def day_number_def zdiv_mono1)
  then have ex: "\<exists>k. day_ok e (n + int k)" using T(3) by (intro exI [of _ "nat (day_number T - n)"]) simp
  define k where "k = (LEAST k. day_ok e (n + int k))"
  have k: "day_ok e (n + int k)" "\<forall>j < k. \<not> day_ok e (n + int j)"
    unfolding k_def using LeastI_ex [OF ex] not_less_Least by blast+
  have "k \<le> nat (day_number T - n)"
    unfolding k_def using T(3) nT by (intro Least_le) simp
  then have kT: "n + int k \<le> day_number T" using nT by simp
  then have startT: "86400 * (n + int k) \<le> T" by (simp add: day_number_def)
  have okT: "ok_time (t + 86400 * int k)"
  proof -
    have "t < 86400 * (n + 1)" by (simp add: n_def day_number_def)
    then show ?thesis using startT ok by (simp add: ok_time_def)
  qed
  have reset: "dcmCronParseResetAllMin (civil x) (hour_resets b) = (0, civil (86400 * day_number x))"
    if "x mod 60 = 0" "ok_time x" for x
    using ResetAllMin_civil [OF resets_sets(3) that(2)] resets_fold(3) [OF that(1)] by simp
  have run: "find_next_day 366 (civil t) (days_of_month e) (nat (day_mday n)) (days_of_week e)
      (nat (day_wday n)) (hour_resets b) =
    Some (nat (day_mday (n + int k)), civil (if k = 0 then t else 86400 * (n + int k)), 0)"
    unfolding n_def
    by (rule find_next_day_run [OF sz(5,4) reset])
      (use k day_search_bound(1) [OF e k] t(1) ok(1) okT in \<open>simp_all add: n_def\<close>)
  show ?thesis
  proof (cases "k = 0")
    case True
    then have "day_ok e (day_number t)" using k(1) by (simp add: n_def)
    then have "cron_matches e t" using cron_matches_iff [OF e, of t] t ok(1) by (simp add: ok_time_def)
    then have "t = T" using m T(1) by (auto simp: least_match_def)
    then show ?thesis using T(3) by (simp add: day_stage_settled [OF e])
  next
    case False
    have "t < 86400 * (n + 1)" by (simp add: n_def day_number_def)
    also have "\<dots> \<le> 86400 * (n + int k)" using False by simp
    finally have "dcmCronParseDoNext mem e (civil (86400 * (n + int k))) dot = Some (0, civil T)"
      using startT by (rule IH)
    moreover have "nat (day_mday (n + int k)) \<noteq> nat (day_mday n)"
      using day_search_bound(2) [OF e k] False by simp
    ultimately show ?thesis using run False
      by (simp add: day_stage_def dcmCronParseFindNextDay_def n_def [symmetric] month_stage_settled [OF e])
  qed
qed

lemma hour_stage_least:
  assumes e: "plain_pattern e" and m: "least_match e t T"
    and ok: "ok_time t" "ok_time (T + 2 * 86400)"
    and t: "t mod 60 = 0" "minute_of t \<in> bits_of (minutes e)"
    and IH: "\<And>t'. t < t' \<Longrightarrow> t' \<le> T \<Longrightarrow> dcmCronParseDoNext mem e (civil t') dot = Some (0, civil T)"
  shows "hour_stage mem e dot (min_resets b) (civil t) = Some (0, civil T)"
proof -
  note sz = pattern_sizes [OF e]
  have T: "t \<le> T" "0 \<le> T" "day_ok e (day_number T)" "hour_of T \<in> bits_of (hours e)"
    using m ok(1) cron_matches_iff [OF e, of T] by (auto simp: least_match_def ok_time_def)
  have ok2: "ok_time (t + 2 * 86400)" using ok T by (simp add: ok_time_def)
  have cf: "clock_field 3600 24 2 3" by (simp add: clock_field_def)
  note F = FindNext_clock [OF cf, of "hours e" t "min_resets b", OF _ _ sz(12) sz(10) ok(1) ok2 resets_sets(2)]
  have h: "nat (t div 3600 mod int 24) = hour_of t" by (simp add: hour_of_def)
  show ?thesis
  proof (cases "hour_of t \<in> bits_of (hours e)")
    case True
    then have "dcmCronParseFindNext (hours e) 24 (hour_of t) (civil t) 2 3 (min_resets b) = Some (hour_of t, civil t, 0)"
      using F sz(3) by (simp add: hour_of_def)
    then show ?thesis
      using day_stage_least [OF e m ok t True IH, of b]
      by (simp add: hour_stage_def hour_of_def [symmetric] hour_resets_def)
  next
    case False
    then obtain q v where q: "t div 3600 < q" "v \<noteq> hour_of t"
      "\<forall>r. t div 3600 \<le> r \<and> r < q \<longrightarrow> nat (r mod 24) \<notin> bits_of (hours e)"
      "dcmCronParseFindNext (hours e) 24 (hour_of t) (civil t) 2 3 (min_resets b) =
        Some (v, civil (fold reset_time (min_resets b) (t + (q - t div 3600) * 3600)), 0)"
      using F sz(3) unfolding hour_of_def by auto
    define x where "x = t + (q - t div 3600) * 3600"
    have "x = t + 60 * ((q - t div 3600) * 60)" by (simp add: x_def)
    then have "x mod 60 = 0" using t(1) by (simp only: mod_mult_self2)
    moreover have "x div 3600 = q" by (simp add: x_def)
    ultimately have fold: "fold reset_time (min_resets b) x = 3600 * q" using resets_fold(2) by simp
    have "q \<le> T div 3600"
    proof (rule ccontr)
      assume "\<not> q \<le> T div 3600"
      then have "nat (T div 3600 mod 24) \<notin> bits_of (hours e)"
        using q(3) zdiv_mono1 [OF T(1), of 3600] by simp
      with T(4) show False by (simp add: hour_of_def)
    qed
    then have "3600 * q \<le> T" by linarith
    moreover have "t < 3600 * q" using q(1) by linarith
    ultimately have "dcmCronParseDoNext mem e (civil (3600 * q)) dot = Some (0, civil T)" by (intro IH)
    then show ?thesis
      using q(2) q(4) [folded x_def, unfolded fold] T(3) unfolding hour_stage_def
      by (simp add: hour_of_def [symmetric] day_stage_settled [OF e])
  qed
qed

lemma minute_stage_least:
  assumes e: "plain_pattern e" and m: "least_match e t T"
    and ok: "ok_time t" "ok_time (T + 2 * 86400)" and t: "t mod 60 = 0"
    and IH: "\<And>t'. t < t' \<Longrightarrow> t' \<le> T \<Longrightarrow> dcmCronParseDoNext mem e (civil t') dot = Some (0, civil T)"
  shows "minute_stage mem e dot (sec_resets b) (civil t) = Some (0, civil T)"
proof -
  note sz = pattern_sizes [OF e]
  have T: "t \<le> T" "0 \<le> T" "day_ok e (day_number T)" "hour_of T \<in> bits_of (hours e)" "minute_of T \<in> bits_of (minutes e)"
    using m ok(1) cron_matches_iff [OF e, of T] by (auto simp: least_match_def ok_time_def)
  have ok2: "ok_time (t + 2 * 86400)" using ok T by (simp add: ok_time_def)
  have cf: "clock_field 60 60 1 2" by (simp add: clock_field_def)
  note F = FindNext_clock [OF cf, of "minutes e" t "sec_resets b", OF _ _ sz(11) sz(9) ok(1) ok2 resets_sets(1)]
  show ?thesis
  proof (cases "minute_of t \<in> bits_of (minutes e)")
    case True
    then have "dcmCronParseFindNext (minutes e) 60 (minute_of t) (civil t) 1 2 (sec_resets b) = Some (minute_of t, civil t, 0)"
      using F sz(2) by (simp add: minute_of_def)
    then show ?thesis
      using hour_stage_least [OF e m ok t True IH, of b]
      by (simp add: minute_stage_def minute_of_def [symmetric] min_resets_def)
  next
    case False
    then obtain q v where q: "t div 60 < q" "v \<noteq> minute_of t"
      "\<forall>r. t div 60 \<le> r \<and> r < q \<longrightarrow> nat (r mod 60) \<notin> bits_of (minutes e)"
      "dcmCronParseFindNext (minutes e) 60 (minute_of t) (civil t) 1 2 (sec_resets b) =
        Some (v, civil (fold reset_time (sec_resets b) (t + (q - t div 60) * 60)), 0)"
      using F sz(2) unfolding minute_of_def by auto
    have x: "t + (q - t div 60) * 60 = 60 * q" using t floor_minute [of t] by (simp add: algebra_simps)
    have fold: "fold reset_time (sec_resets b) (60 * q) = 60 * q" by (rule resets_fold(1)) simp
    have "q \<le> T div 60"
    proof (rule ccontr)
      assume "\<not> q \<le> T div 60"
      then have "nat (T div 60 mod 60) \<notin> bits_of (minutes e)"
        using q(3) zdiv_mono1 [OF T(1), of 60] by simp
      with T(5) show False by (simp add: minute_of_def)
    qed
    then have "60 * q \<le> T" by linarith
    moreover have "t < 60 * q" using q(1) by linarith
    ultimately have "dcmCronParseDoNext mem e (civil (60 * q)) dot = Some (0, civil T)" by (intro IH)
    then show ?thesis
      using q(2) q(4) [unfolded x fold] T(3,4) unfolding minute_stage_def
      by (simp add: minute_of_def [symmetric] hour_stage_settled [OF e])
  qed
qed

lemma DoNext_least:
  assumes e: "plain_pattern e" and mem: "mem 28"
  shows "least_match e t T \<Longrightarrow> ok_time t \<Longrightarrow> ok_time (T + 2 * 86400) \<Longrightarrow>
     dcmCronParseDoNext mem e (civil t) dot = Some (0, civil T)"
proof (induction "nat (T - t)" arbitrary: t rule: less_induct)
  case less
  note m = less.prems(1) and ok = less.prems(2,3)
  note sz = pattern_sizes [OF e]
  have T: "t \<le> T" "0 \<le> T" "T mod 60 = 0"
    using m ok(1) cron_matches_iff [OF e, of T] by (auto simp: least_match_def ok_time_def)
  have IH: "dcmCronParseDoNext mem e (civil t') dot = Some (0, civil T)" if "t < t'" "t' \<le> T" for t'
    using that less.hyps [of t'] least_match_later [OF m, of t'] ok by (simp add: ok_time_def)
  have stage: "minute_stage mem e dot (sec_resets b) (civil t1) = Some (0, civil T)"
    if "t \<le> t1" "t1 \<le> T" "t1 mod 60 = 0" for t1 b
    using that ok IH least_match_later [OF m that(1,2)]
    by (intro minute_stage_least [OF e]) (simp_all add: ok_time_def)
  have ok2: "ok_time (t + 2 * 86400)" using ok T by (simp add: ok_time_def)
  have cf: "clock_field 1 60 0 1" by (simp add: clock_field_def)
  have lo: "set empty_list \<subseteq> {-1, 0, 1, 2}" by (simp add: empty_list_def)
  have nofold: "fold reset_time empty_list x = x" for x by (simp add: empty_list_def)
  note F = FindNext_clock [OF cf _ _ _ _ ok(1) ok2 lo, of "seconds e", unfolded nofold]
  show ?case
  proof (cases "t mod 60 = 0")
    case True
    then have "dcmCronParseFindNext (seconds e) 60 (nat (t mod 60)) (civil t) 0 1 empty_list = Some (0, civil t, 0)"
      using F sz(1,7) by simp
    then show ?thesis
      using stage [OF order_refl T(1) True, of True] True
      by (simp add: DoNext_stages [where mem = mem, OF mem] sec_resets_def)
  next
    case False
    then have "nat (t mod 60) \<noteq> 0" using pos_mod_sign [of 60 t] by simp
    then obtain q v where q: "t < q" "v \<noteq> nat (t mod 60)" "nat (q mod 60) = 0"
      "\<forall>r. t \<le> r \<and> r < q \<longrightarrow> nat (r mod 60) \<noteq> 0"
      "dcmCronParseFindNext (seconds e) 60 (nat (t mod 60)) (civil t) 0 1 empty_list = Some (v, civil q, 0)"
      using F sz(1,7) by auto
    have "q mod 60 = 0" using q(3) pos_mod_sign [of 60 q] by simp
    moreover have "q \<le> T" using q(4) T by (metis linorder_not_less nat_0)
    ultimately show ?thesis
      using stage [of q False] q(1,2,5) by (simp add: DoNext_stages [where mem = mem, OF mem] sec_resets_def)
  qed
qed

subsection \<open>A match exists within 368 days\<close>

lemma exists_match:
  assumes e: "plain_pattern e" and t: "0 \<le> t"
  obtains T where "least_match e t T" "T \<le> t + 368 * 86400"
proof -
  note sz = pattern_sizes [OF e]
  obtain h m where hm: "h \<in> bits_of (hours e)" "m \<in> bits_of (minutes e)" using sz by blast
  then have hm': "h < 24" "m < 60" using sz by auto
  define n where "n = day_number t + 1"
  have "\<exists>k. day_ok e (n + int k)"
  proof -
    obtain i j where ij: "i \<in> bits_of (days_of_month e)" "1 \<le> i" "i < 32" "j \<in> bits_of (days_of_week e)" "j < 7"
      using e by (force simp: plain_pattern_def cron_wf_def cron_ranges_def)
    have all: "bits_of (days_of_month e) = {1..<32} \<Longrightarrow> nat (day_mday m) \<in> bits_of (days_of_month e)"
      "bits_of (days_of_week e) = {0..<7} \<Longrightarrow> nat (day_wday m) \<in> bits_of (days_of_week e)" for m
      using day_mday_bounds [of m] day_wday_bounds [of m] by auto
    obtain a where a: "0 \<le> a" "day_mday (n + a) = int i" using mday_within_a_year [of "int i" n] ij by auto
    obtain c where c: "0 \<le> c" "day_wday (n + c) = int j" using wday_within_a_week [of "int j" n] ij by auto
    from e consider "bits_of (days_of_month e) = {1..<32}" | "bits_of (days_of_week e) = {0..<7}"
      by (auto simp: plain_pattern_def)
    then have "day_ok e (n + c) \<or> day_ok e (n + a)"
      using all a(2) c(2) ij by cases (simp_all add: day_ok_def)
    then show ?thesis using a(1) c(1) by (metis nat_0_le)
  qed
  then obtain k where k: "day_ok e (n + int k)" "\<forall>j < k. \<not> day_ok e (n + int j)"
    using exists_least_iff [of "\<lambda>k. day_ok e (n + int k)"] by blast
  define T where "T = (n + int k) * 86400 + int h * 3600 + int m * 60"
  have T: "T mod 60 = 0" "T div 60 mod 60 = int m" "T div 3600 mod 24 = int h" "day_number T = n + int k"
  proof -
    have "T = 60 * ((n + int k) * 1440 + int h * 60 + int m)" by (simp add: T_def)
    then show "T mod 60 = 0" by (simp only: mod_mult_self1_is_0)
    have "T div 60 = (n + int k) * 1440 + int h * 60 + int m" by (simp add: T_def)
    then have "T div 60 = int m + 60 * ((n + int k) * 24 + int h)" by simp
    then show "T div 60 mod 60 = int m" using hm'(2) by (simp only: mod_mult_self2) simp
    have d: "T div 3600 = (n + int k) * 24 + int h"
      unfolding T_def using hm'(2) by (intro int_div_pos_eq [of _ _ _ "int m * 60"]) simp_all
    then have "T div 3600 = int h + 24 * (n + int k)" by simp
    then show "T div 3600 mod 24 = int h" using hm'(1) by (simp only: mod_mult_self2) simp
    show "day_number T = n + int k"
      unfolding T_def day_number_def using hm' by (intro int_div_pos_eq [of _ _ _ "int h * 3600 + int m * 60"]) simp_all
  qed
  have t0: "86400 * (n - 1) \<le> t" "t < 86400 * n" by (simp_all add: n_def day_number_def)
  have "0 \<le> T" "t \<le> T" using t0 t hm' by (simp_all add: T_def)
  then have match: "cron_matches e T"
    using cron_matches_iff [OF e, of T] T k(1) hm by (simp add: minute_of_def hour_of_def)
  have bound: "T \<le> t + 368 * 86400" using day_search_bound(1) [OF e k] t0 hm' by (simp add: T_def)
  have "\<exists>d. cron_matches e (t + int d)" using match \<open>t \<le> T\<close> by (intro exI [of _ "nat (T - t)"]) simp
  then obtain d where d: "cron_matches e (t + int d)" "\<forall>j < d. \<not> cron_matches e (t + int j)"
    using exists_least_iff [of "\<lambda>d. cron_matches e (t + int d)"] by blast
  have "d \<le> nat (T - t)" using d(2) match \<open>t \<le> T\<close> by (metis linorder_not_less add_diff_cancel_left' diff_add_cancel nat_0_le diff_ge_0_iff_ge add.commute)
  then have "t + int d \<le> t + 368 * 86400" using bound \<open>t \<le> T\<close> by simp
  moreover have "least_match e t (t + int d)"
    unfolding least_match_def
  proof (intro conjI allI impI)
    fix u assume "t \<le> u \<and> u < t + int d"
    then have "nat (u - t) < d" "t + int (nat (u - t)) = u" by auto
    then show "\<not> cron_matches e u" using d(2) by metis
  qed (use d(1) in simp_all)
  ultimately show thesis by (rule that [rotated])
qed

subsection \<open>The next run\<close>

lemma GetNext_earliest:
  assumes "plain_pattern e" "mem 28" "0 \<le> date" "date \<le> 999999900000000"
  shows "\<exists>T. dcmCronParseGetNext mem (Some e) date = Some T \<and> date < T \<and> T \<le> date + 369 * 86400 \<and>
     cron_matches e T \<and> (\<forall>u. date < u \<and> u < T \<longrightarrow> \<not> cron_matches e u)"
proof -
  obtain T1 where T1: "least_match e date T1" "T1 \<le> date + 368 * 86400"
    using exists_match [OF assms(1,3)] by blast
  obtain T2 where T2: "least_match e (date + 1) T2" "T2 \<le> (date + 1) + 368 * 86400"
    using exists_match [OF assms(1), of "date + 1"] assms(3) by auto
  have le: "date \<le> T1" "date + 1 \<le> T2" using T1 T2 by (simp_all add: least_match_def)
  have ok: "ok_time date" "ok_time (date + 1)" "ok_time T1" "ok_time (T1 + 2 * 86400)" "ok_time T2" "ok_time (T2 + 2 * 86400)"
    using assms(3,4) T1(2) T2(2) le by (simp_all add: ok_time_def time_limit_def)
  have mk: "timegm (civil t) = (t, civil t)" "gmtime_r t = Some (civil t)" if "ok_time t" for t
    using year_fits_time [of t] that by (simp_all add: ok_time_def timegm_civil gmtime_r_def)
  have pos: "t \<noteq> -1" if "ok_time t" for t using that by (auto simp: ok_time_def)
  have D1: "dcmCronParseDoNext mem e (civil date) dot = Some (0, civil T1)" for dot
    using DoNext_least [where mem = mem, OF assms(1,2) T1(1)] ok by simp
  have D2: "dcmCronParseDoNext mem e (civil (date + 1)) dot = Some (0, civil T2)" for dot
    using DoNext_least [where mem = mem, OF assms(1,2) T2(1)] ok by simp
  note G = dcmCronParseGetNext_def dcmCronParseMktime_def
  show ?thesis
  proof (cases "T1 = date")
    case True
    have "dcmCronParseGetNext mem (Some e) date = Some T2"
      using ok True pos by (simp add: G mk D1 D2 AddToField_civil(5))
    moreover have "\<forall>u. date < u \<and> u < T2 \<longrightarrow> \<not> cron_matches e u" using T2(1) by (auto simp: least_match_def)
    ultimately show ?thesis using T2 le by (auto simp: least_match_def)
  next
    case False
    have "dcmCronParseGetNext mem (Some e) date = Some T1"
      using ok False pos by (simp add: G mk D1)
    moreover have "\<forall>u. date < u \<and> u < T1 \<longrightarrow> \<not> cron_matches e u" using T1(1) by (auto simp: least_match_def)
    ultimately show ?thesis using T1 le False by (auto simp: least_match_def)
  qed
qed

text \<open>
  Claim C3.  For a pattern with seconds 0, all months and at most one restricted day field,
  \<^verbatim>\<open>dcmCronParseGetNext\<close> returns (its recursion ends) the earliest instant after the given one that
  matches the pattern, and that instant lies within 369 days.
\<close>

theorem next_run_is_earliest:
  assumes "plain_pattern e" "mem 28" "0 \<le> date" "date \<le> 999999900000000"
  shows "\<exists>T. dcmCronParseGetNext mem (Some e) date = Some T \<and> date < T \<and> T \<le> date + 369 * 86400 \<and>
     cron_matches e T \<and> (\<forall>u. date < u \<and> u < T \<longrightarrow> \<not> cron_matches e u)"
  using assms by (rule GetNext_earliest)

text \<open>Every Tuesday at 05:30.\<close>

definition tuesday_pattern :: dcmCronExpr where
  "tuesday_pattern = \<lparr>seconds = [1, 0, 0, 0, 0, 0, 0, 0], minutes = [0, 0, 0, 64, 0, 0, 0, 0], hours = [32, 0, 0],
     days_of_week = [4], days_of_month = [254, 255, 255, 255], months = [255, 15]\<rparr>"

definition bit_list :: "u8 list \<Rightarrow> nat list" where
  "bit_list a = filter (\<lambda>i. bit (a ! (i div 8)) (i mod 8)) [0..<8 * length a]"

lemma bits_of_list: "bits_of a = set (bit_list a)"
  by (auto simp: bits_of_def bit_list_def less_mult_imp_div_less mult.commute)

lemma tuesday_bits:
  "bits_of (seconds tuesday_pattern) = {0}" "bits_of (minutes tuesday_pattern) = {30}"
  "bits_of (hours tuesday_pattern) = {5}" "bits_of (days_of_week tuesday_pattern) = {2}"
  "bits_of (days_of_month tuesday_pattern) = {1..<32}" "bits_of (months tuesday_pattern) = {0..<12}"
proof -
  have "bit_list (seconds tuesday_pattern) = [0] \<and> bit_list (minutes tuesday_pattern) = [30] \<and>
    bit_list (hours tuesday_pattern) = [5] \<and> bit_list (days_of_week tuesday_pattern) = [2] \<and>
    bit_list (days_of_month tuesday_pattern) = [1..<32] \<and> bit_list (months tuesday_pattern) = [0..<12]"
    by code_simp
  then show "bits_of (seconds tuesday_pattern) = {0}" "bits_of (minutes tuesday_pattern) = {30}"
    "bits_of (hours tuesday_pattern) = {5}" "bits_of (days_of_week tuesday_pattern) = {2}"
    "bits_of (days_of_month tuesday_pattern) = {1..<32}" "bits_of (months tuesday_pattern) = {0..<12}"
    by (simp_all only: bits_of_list set_upt simp_thms) simp_all
qed

theorem next_run_is_earliest_witness:
  "\<exists>T. dcmCronParseGetNext (\<lambda>_. True) (Some tuesday_pattern) 1707999000 = Some T \<and> 1707999000 < T \<and>
     cron_matches tuesday_pattern T"
proof -
  have "plain_pattern tuesday_pattern"
    by (simp add: plain_pattern_def cron_wf_def cron_sizes_def cron_ranges_def tuesday_bits)
      (simp add: tuesday_pattern_def)
  from next_run_is_earliest [OF this, of "\<lambda>_. True" 1707999000] show ?thesis by auto
qed

subsection \<open>From the text of a schedule to its runs\<close>

text \<open>When a schedule is due, read off its abstract form.\<close>

definition due :: "schedule \<Rightarrow> int \<Rightarrow> bool" where
  "due s t = (t mod 60 = 0 \<and> minute_of t \<in> field_values 0 60 (s_minutes s) \<and>
     hour_of t \<in> field_values 0 24 (s_hours s) \<and>
     nat (day_mday (day_number t)) \<in> field_values 1 32 (s_mdays s) \<and>
     (\<exists>d \<in> field_values 0 8 (s_wdays s). d mod 7 = nat (day_wday (day_number t))) \<and>
     nat (day_mon (day_number t)) + 1 \<in> field_values 1 13 (s_months s))"

lemma months_star: "(\<lambda>m. m - 1) ` field_values 1 13 [Star] = {0..<12}"
proof -
  have "m \<in> (\<lambda>m. m - 1) ` {1..<13}" if "m < 12" for m :: nat
    using that by (intro image_eqI [of _ _ "m + 1"]) auto
  then show ?thesis by (auto simp: field_values_def)
qed

lemma wdays_star: "(\<lambda>d. d mod 7) ` field_values 0 8 [Star] = {0..<7}"
proof -
  have "m \<in> (\<lambda>d. d mod 7) ` {0..<8}" if "m < 7" for m :: nat
    using that by (intro image_eqI [of _ _ m]) auto
  then show ?thesis by (auto simp: field_values_def)
qed

lemma denotes_plain:
  assumes "cron_wf e" "denotes e s" "s_months s = [Star]" "s_mdays s = [Star] \<or> s_wdays s = [Star]"
  shows "plain_pattern e"
  using assms months_star wdays_star by (auto simp: plain_pattern_def denotes_def field_values_def)

lemma denotes_due:
  assumes "denotes e s" "s_months s = [Star]" "0 \<le> t"
  shows "cron_matches e t \<longleftrightarrow> due s t"
proof -
  have m: "nat (day_mon (day_number t)) < 12" using day_mon_bounds [of "day_number t"] by linarith
  then have m': "nat (day_mon (day_number t)) + 1 \<in> field_values 1 13 (s_months s)"
    by (simp add: assms(2) field_values_def)
  have sec: "nat (t mod 60) \<in> {0} \<longleftrightarrow> t mod 60 = 0" using pos_mod_sign [of 60 t] by (simp add: nat_eq_iff)
  have w: "w \<in> (\<lambda>d. d mod 7) ` V \<longleftrightarrow> (\<exists>d \<in> V. d mod 7 = w)" for w :: nat and V by auto
  have D: "bits_of (seconds e) = {0}" "bits_of (minutes e) = field_values 0 60 (s_minutes s)"
    "bits_of (hours e) = field_values 0 24 (s_hours s)" "bits_of (days_of_month e) = field_values 1 32 (s_mdays s)"
    "bits_of (months e) = {0..<12}" "bits_of (days_of_week e) = (\<lambda>d. d mod 7) ` field_values 0 8 (s_wdays s)"
    using assms(1) by (simp_all only: denotes_def assms(2) months_star)
  show ?thesis unfolding cron_matches_def due_def D sec w using m m' by simp
qed

lemma schedule_next:
  assumes "mem_ok mem" "schedule_ok s" "length (schedule_text s) < 256" "s_months s = [Star]"
    "s_mdays s = [Star] \<or> s_wdays s = [Star]" "0 \<le> date" "date \<le> 999999900000000"
  shows "\<exists>e T. dcmCronParseExp mem (Some (schedule_text s)) (Some target) = Some (0, Some e) \<and>
     dcmCronParseGetNext mem (Some e) date = Some T \<and> date < T \<and> due s T \<and>
     (\<forall>u. date < u \<and> u < T \<longrightarrow> \<not> due s u)"
proof -
  obtain e where e: "dcmCronParseExp mem (Some (schedule_text s)) (Some target) = Some (0, Some e)" "denotes e s"
    using parse_schedule [OF assms(1-3)] by blast
  have "cron_wf e"
    using dcmCronParseExp_ok [of mem "Some (schedule_text s)" "Some target"] e(1) by simp
  then have "plain_pattern e" using e(2) assms(4,5) by (rule denotes_plain)
  moreover have "mem 28" using assms(1) by (simp add: mem_ok_def)
  ultimately obtain T where T: "dcmCronParseGetNext mem (Some e) date = Some T" "date < T" "cron_matches e T"
    "\<forall>u. date < u \<and> u < T \<longrightarrow> \<not> cron_matches e u"
    using GetNext_earliest [of e mem date] assms(6,7) by blast
  have "due s u \<longleftrightarrow> cron_matches e u" if "date < u" for u
    using denotes_due [OF e(2) assms(4), of u] that assms(6) by simp
  with e(1) T show ?thesis by blast
qed

text \<open>
  Claim C1.  From the text to the run: a schedule over minutes, hours, days of the month and
  days of the week (months \<open>*\<close>, at most one day field restricted), written as a cron pattern of
  fewer than 256 characters, parses, and the next run computed from the parsed pattern is the
  earliest instant after the given one at which the schedule is due.
\<close>

theorem cron_line_next_run:
  assumes "mem_ok mem" "schedule_ok s" "length (schedule_text s) < 256" "s_months s = [Star]"
    "s_mdays s = [Star] \<or> s_wdays s = [Star]" "0 \<le> date" "date \<le> 999999900000000"
  shows "\<exists>e T. dcmCronParseExp mem (Some (schedule_text s)) (Some target) = Some (0, Some e) \<and>
     dcmCronParseGetNext mem (Some e) date = Some T \<and> date < T \<and> due s T \<and>
     (\<forall>u. date < u \<and> u < T \<longrightarrow> \<not> due s u)"
  using assms by (rule schedule_next)

definition nightly_schedule :: schedule where
  "nightly_schedule = \<lparr>s_minutes = [Num 10], s_hours = [Range 1 3], s_mdays = [Star], s_months = [Star],
     s_wdays = [NumStep 1 2]\<rparr>"

theorem cron_line_next_run_witness:
  "schedule_text nightly_schedule = ''10 1-3 * * 1/2'' \<and>
   (\<exists>e T. dcmCronParseExp (\<lambda>_. True) (Some (schedule_text nightly_schedule)) (Some zero_cron_expr) = Some (0, Some e) \<and>
     dcmCronParseGetNext (\<lambda>_. True) (Some e) 1707999000 = Some T \<and> 1707999000 < T \<and> due nightly_schedule T)"
proof (rule conjI)
  show 1: "schedule_text nightly_schedule = ''10 1-3 * * 1/2''"
    by (simp add: schedule_text_def nightly_schedule_def field_text_def nat_dec.simps)
  have "schedule_ok nightly_schedule" by (simp add: schedule_ok_def items_ok_def nightly_schedule_def)
  from cron_line_next_run [OF _ this, of "\<lambda>_. True" 1707999000 zero_cron_expr] show "\<exists>e T.
     dcmCronParseExp (\<lambda>_. True) (Some (schedule_text nightly_schedule)) (Some zero_cron_expr) = Some (0, Some e) \<and>
     dcmCronParseGetNext (\<lambda>_. True) (Some e) 1707999000 = Some T \<and> 1707999000 < T \<and> due nightly_schedule T"
    unfolding 1 by (auto simp: mem_ok_def nightly_schedule_def)
qed

end
