(* ===== verification/CronDefects.thy ===== *)
theory CronDefects
  imports CronNextProps
begin

text \<open>
  Patterns outside \<^const>\<open>plain_pattern\<close> for which the search does not return the earliest
  matching instant: several seconds, both day fields restricted, and a restricted month reached
  from the end of a longer month.  The first two are stated for every such pattern and instant, the
  third is a computation.
\<close>

subsection \<open>Settled fields\<close>

lemma wf_sizes:
  assumes "cron_wf e"
  shows "length (seconds e) = 8" "length (minutes e) = 8" "length (hours e) = 3"
    "length (days_of_week e) = 1" "length (days_of_month e) = 4" "length (months e) = 2"
    "bits_of (seconds e) \<subseteq> {0..<60}" "bits_of (minutes e) \<subseteq> {0..<60}" "bits_of (hours e) \<subseteq> {0..<24}"
  using assms by (simp_all add: cron_wf_def cron_sizes_def cron_ranges_def)

lemma next_bit_at:
  assumes "p \<le> 8 * length a" "length a \<le> 256" "i \<le> w" "w < p" "w \<in> bits_of a" "\<forall>j. i \<le> j \<and> j < w \<longrightarrow> j \<notin> bits_of a"
  shows "dcmCronParseNextSetBit a p i = Some (w, False)"
proof -
  obtain v where v: "i \<le> v" "v \<in> bits_of a" "\<forall>j. i \<le> j \<and> j < v \<longrightarrow> j \<notin> bits_of a"
    "dcmCronParseNextSetBit a p i = Some (v, False)"
    using NextSetBit_cases [OF assms(1,2), of i] assms(3-5) by blast
  moreover have "v = w" using v(1-3) assms(3,5,6) by (metis linorder_neqE_nat)
  ultimately show ?thesis by simp
qed

lemma clock_bounds: "nat (t mod 60) < 60" "minute_of t < 60" "hour_of t < 24" "nat (day_mon (day_number t)) < 12"
  using day_mon_bounds [of "day_number t"] by (simp_all add: minute_of_def hour_of_def nat_less_iff)

text \<open>A field whose value is allowed does not move, and from a day and a month that are allowed the search
  ends.\<close>

lemma field_hits:
  assumes "cron_wf e"
  shows "nat (t mod 60) \<in> bits_of (seconds e) \<Longrightarrow>
      dcmCronParseFindNext (seconds e) 60 (nat (t mod 60)) c 0 1 r = Some (nat (t mod 60), c, 0)"
    "minute_of t \<in> bits_of (minutes e) \<Longrightarrow>
      dcmCronParseFindNext (minutes e) 60 (minute_of t) c 1 2 r = Some (minute_of t, c, 0)"
    "hour_of t \<in> bits_of (hours e) \<Longrightarrow>
      dcmCronParseFindNext (hours e) 24 (hour_of t) c 2 3 r = Some (hour_of t, c, 0)"
    "nat (day_mon (day_number t)) \<in> bits_of (months e) \<Longrightarrow>
      dcmCronParseFindNext (months e) 12 (nat (day_mon (day_number t))) c 5 6 r = Some (nat (day_mon (day_number t)), c, 0)"
  using wf_sizes [OF assms] clock_bounds by (auto intro!: FindNext_hit)

lemma month_settled:
  assumes "cron_wf e" "nat (day_mon (day_number t)) \<in> bits_of (months e)"
  shows "month_stage mem e dot r (civil t) = Some (0, civil t)"
  using field_hits(4) [OF assms] by (simp add: month_stage_def)

lemma hour_settled:
  assumes "cron_wf e" "hour_of t \<in> bits_of (hours e)" "day_ok e (day_number t)"
    "nat (day_mon (day_number t)) \<in> bits_of (months e)"
  shows "hour_stage mem e dot r (civil t) = Some (0, civil t)"
proof -
  have "day_stage mem e dot q (civil t) = Some (0, civil t)" for q
    using FindNextDay_hit [OF assms(3) wf_sizes(5,4) [OF assms(1)]] month_settled [OF assms(1,4)]
    by (simp add: day_stage_def)
  then show ?thesis
    using field_hits(3) [OF assms(1,2)] by (simp add: hour_stage_def flip: hour_of_def)
qed

lemma search_settled:
  assumes "cron_wf e" "mem 28" "cron_matches e t"
  shows "dcmCronParseDoNext mem e (civil t) dot = Some (0, civil t)"
proof -
  have "hour_stage mem e dot r (civil t) = Some (0, civil t)" for r
    using assms(3) by (intro hour_settled [OF assms(1)]) (simp_all add: cron_matches_def day_ok_def)
  then show ?thesis
    using assms field_hits(1,2) [OF assms(1)] by (simp add: DoNext_stages minute_stage_def cron_matches_def flip: minute_of_def)
qed

lemma GetNext_moves:
  assumes "\<And>dot. dcmCronParseDoNext mem e (civil t) dot = Some (0, civil T)" "ok_time t" "ok_time T" "T \<noteq> t"
  shows "dcmCronParseGetNext mem (Some e) t = Some T"
proof -
  have "timegm (civil u) = (u, civil u)" "gmtime_r u = Some (civil u)" "u \<noteq> -1" if "ok_time u" for u
    using year_fits_time [of u] that by (auto simp: ok_time_def timegm_civil gmtime_r_def)
  with assms show ?thesis by (simp add: dcmCronParseGetNext_def dcmCronParseMktime_def)
qed

subsection \<open>Several seconds\<close>

lemma fold_no_reset: "fold reset_time empty_list t = t"
  by (simp add: empty_list_def)

text \<open>
  Claim C12.  Several seconds (a pattern with 6 fields).  When neither the second nor the minute of the given
  instant is allowed and both have a later allowed value in the same minute and hour, on a day, a
  month and an hour that are allowed, \<^verbatim>\<open>dcmCronParseGetNext\<close> returns the next minute with the next second
  after the one of the given instant: it skips every earlier allowed second of that minute, because
  moving the minute does not reset a second that has itself moved.
\<close>

theorem several_seconds_skip_a_match:
  assumes "cron_wf e" "mem 28" "0 \<le> t" "t \<le> 999999900000000"
    and "hour_of t \<in> bits_of (hours e)" "day_ok e (day_number t)" "nat (day_mon (day_number t)) \<in> bits_of (months e)"
    and "nat (t mod 60) < s" "s \<in> bits_of (seconds e)" "\<forall>j. nat (t mod 60) \<le> j \<and> j < s \<longrightarrow> j \<notin> bits_of (seconds e)"
    and "minute_of t < m" "m \<in> bits_of (minutes e)" "\<forall>j. minute_of t \<le> j \<and> j < m \<longrightarrow> j \<notin> bits_of (minutes e)"
    and "s0 \<in> bits_of (seconds e)" "s0 < s"
  shows "dcmCronParseGetNext mem (Some e) t = Some (3600 * (t div 3600) + 60 * int m + int s) \<and>
    t < 3600 * (t div 3600) + 60 * int m + int s0 \<and> cron_matches e (3600 * (t div 3600) + 60 * int m + int s0)"
proof -
  note sz = wf_sizes [OF assms(1)]
  define h x where "h = t div 3600" and "x = 3600 * h + 60 * int m"
  have lt: "s < 60" "s0 < 60" "m < 60" using sz assms(9,12,14) by auto
  have t: "t = 3600 * h + 60 * int (minute_of t) + int (nat (t mod 60))"
    using second_decomposition [of t] div_mult_mod_eq [of h 24]
    by (simp add: h_def minute_of_def day_number_def zdiv_zmult2_eq [symmetric])
  have clock: "(x + int k) mod 60 = int k" "(x + int k) div 60 = 60 * h + int m" "minute_of (x + int k) = m"
    "(x + int k) div 3600 = h" "hour_of (x + int k) = hour_of t" "day_number (x + int k) = day_number t" if "k < 60" for k
  proof -
    have x: "x + int k = 60 * (60 * h + int m) + int k" by (simp add: x_def)
    have q: "(60 * q + int k) mod 60 = int k" "(60 * q + int k) div 60 = q" for q using that by simp_all
    show 1: "(x + int k) mod 60 = int k" "(x + int k) div 60 = 60 * h + int m" unfolding x by (rule q)+
    have "(x + int k) div 3600 = (x + int k) div 60 div 60" by (simp add: zdiv_zmult2_eq [symmetric])
    then show 2: "(x + int k) div 3600 = h" using 1 lt(3) by simp
    show "minute_of (x + int k) = m" using 1 lt(3) by (simp add: minute_of_def)
    show "hour_of (x + int k) = hour_of t" by (simp add: hour_of_def 2 flip: h_def)
    have "day_number u = u div 3600 div 24" for u by (simp add: day_number_def zdiv_zmult2_eq [symmetric])
    then show "day_number (x + int k) = day_number t" using 2 by (simp flip: h_def)
  qed
  have match: "cron_matches e (x + int k)" if "k \<in> bits_of (seconds e)" for k
    using that sz(7) clock [of k] assms(5-7,12) by (auto simp: cron_matches_def day_ok_def)
  have later: "t < x + int k" if "k < 60" for k
  proof -
    have "60 * int (minute_of t) + 60 \<le> 60 * int m" using assms(11) by simp
    then show ?thesis using t clock_bounds(1) [of t] by (simp add: x_def)
  qed
  define y where "y = t + (int s - int (nat (t mod 60)))"
  have y_eqs: "y div 60 = t div 60" "minute_of y = minute_of t"
  proof -
    have "y = 60 * (t div 60) + int s" by (simp add: y_def minus_mod_eq_mult_div algebra_simps)
    then show "y div 60 = t div 60" using lt(1) by simp
    then show "minute_of y = minute_of t" by (simp add: minute_of_def)
  qed
  have ok: "ok_time t" "ok_time (t + 2 * 86400)" "ok_time y" "ok_time (y + 2 * 86400)" "ok_time (x + int s)"
    using assms(3,4,8) lt t pos_imp_zdiv_nonneg_iff [of 3600 t] by (auto simp: ok_time_def time_limit_def x_def h_def y_def)
  have sec: "dcmCronParseFindNext (seconds e) 60 (nat (t mod 60)) (civil t) 0 1 empty_list = Some (s, civil y, 0)"
    using FindNext_up [of 1 60 0 1 t empty_list "nat (t mod 60)" s "seconds e"] ok(1,2) assms(8) lt(1) sz(1)
      next_bit_at [of 60 "seconds e" "nat (t mod 60)" s] assms(9,10)
    by (simp add: clock_field_def empty_list_def y_def)
  have "y + (int m - int (minute_of y)) * 60 = x + int s" unfolding y_eqs(2) using t by (simp add: x_def y_def)
  moreover have "dcmCronParseFindNext (minutes e) 60 (minute_of y) (civil y) 1 2 empty_list =
      Some (m, civil (fold reset_time empty_list (y + (int m - int (minute_of y)) * 60)), 0)"
  proof (rule FindNext_up)
    show "clock_field 60 60 1 2" by (simp add: clock_field_def)
    show "set empty_list \<subseteq> {-1, 0, 1, 2}" by (simp add: empty_list_def)
    show "int (minute_of y) = y div 60 mod int 60" by (simp add: minute_of_def)
    show "dcmCronParseNextSetBit (minutes e) 60 (minute_of y) = Some (m, False)"
      using sz(2) assms(11-13) lt(3) by (intro next_bit_at) (simp_all add: y_eqs(2))
  qed (use ok assms(11) lt(3) y_eqs(2) in simp_all)
  ultimately have mn: "dcmCronParseFindNext (minutes e) 60 (minute_of y) (civil y) 1 2 empty_list =
      Some (m, civil (x + int s), 0)" by (simp only: fold_no_reset)
  have hs: "hour_stage mem e dot r (civil (x + int s)) = Some (0, civil (x + int s))" for dot r
    using match [OF assms(9)] by (intro hour_settled [OF assms(1)]) (simp_all add: cron_matches_def day_ok_def)
  have "dcmCronParseDoNext mem e (civil t) dot = Some (0, civil (x + int s))" for dot
    using sec mn hs search_settled [where mem = mem, OF assms(1,2) match [OF assms(9)]] assms(8,11)
    by (simp add: DoNext_stages [where mem = mem, OF assms(2)] minute_stage_def y_eqs(2) flip: minute_of_def)
  then have "dcmCronParseGetNext mem (Some e) t = Some (x + int s)"
    using later [OF lt(1)] ok by (intro GetNext_moves) auto
  then show ?thesis using later [OF lt(2)] match [OF assms(14)] by (simp add: x_def h_def)
qed

text \<open>\<^verbatim>\<open>0,30 5 * * * *\<close>\<close>

definition half_minutes :: dcmCronExpr where
  "half_minutes = \<lparr>seconds = [1, 0, 0, 64, 0, 0, 0, 0], minutes = [32, 0, 0, 0, 0, 0, 0, 0], hours = [255, 255, 255],
     days_of_week = [127], days_of_month = [254, 255, 255, 255], months = [255, 15]\<rparr>"

lemma half_minutes_parsed:
  "dcmCronParseExp (\<lambda>_. True) (Some ''0,30 5 * * * *'') (Some zero_cron_expr) = Some (0, Some half_minutes)"
  by code_simp

text \<open>The bit sets of the arrays used here.\<close>

lemma array_bits:
  "bits_of [254, 255, 255, 255] = {1..<32}" "bits_of [127] = {0..<7}"
  "bits_of [1, 0, 0] = {0}" "bits_of [1, 0, 0, 0, 0, 0, 0, 0] = {0}" "bits_of [2, 0] = {1}"
  "bits_of [1, 0, 0, 64, 0, 0, 0, 0] = {0, 30}" "bits_of [32, 0, 0, 0, 0, 0, 0, 0] = {5}"
  "bits_of [255, 255, 255] = {0..<24}" "bits_of [255, 15] = {0..<12}"
proof -
  have "bit_list [254, 255, 255, 255] = [1..<32] \<and> bit_list [127] = [0..<7] \<and>
    bit_list [1, 0, 0] = [0] \<and> bit_list [1, 0, 0, 0, 0, 0, 0, 0] = [0] \<and> bit_list [2, 0] = [1] \<and>
    bit_list [1, 0, 0, 64, 0, 0, 0, 0] = [0, 30] \<and> bit_list [32, 0, 0, 0, 0, 0, 0, 0] = [5] \<and>
    bit_list [255, 255, 255] = [0..<24] \<and> bit_list [255, 15] = [0..<12]"
    by code_simp
  then show "bits_of [254, 255, 255, 255] = {1..<32}" "bits_of [127] = {0..<7}"
    "bits_of [1, 0, 0] = {0}" "bits_of [1, 0, 0, 0, 0, 0, 0, 0] = {0}" "bits_of [2, 0] = {1}"
    "bits_of [1, 0, 0, 64, 0, 0, 0, 0] = {0, 30}" "bits_of [32, 0, 0, 0, 0, 0, 0, 0] = {5}"
    "bits_of [255, 255, 255] = {0..<24}" "bits_of [255, 15] = {0..<12}"
    by (simp_all only: bits_of_list set_upt simp_thms) simp_all
qed

theorem several_seconds_skip_a_match_witness:
  "\<exists>e. dcmCronParseExp (\<lambda>_. True) (Some ''0,30 5 * * * *'') (Some zero_cron_expr) = Some (0, Some e) \<and>
     dcmCronParseGetNext (\<lambda>_. True) (Some e) 10 = Some 330 \<and> cron_matches e 300"
proof -
  have wf: "cron_wf half_minutes"
    by (simp add: cron_wf_def cron_sizes_def cron_ranges_def half_minutes_def array_bits)
  have d: "nat (day_mday (day_number 10)) = 1 \<and> nat (day_wday (day_number 10)) = 4 \<and> nat (day_mon (day_number 10)) = 0 \<and>
      hour_of 10 = 0 \<and> minute_of 10 = 0"
    by code_simp
  then have "day_ok half_minutes (day_number 10)" "nat (day_mon (day_number 10)) \<in> bits_of (months half_minutes)"
    "hour_of 10 \<in> bits_of (hours half_minutes)"
    by (simp_all add: day_ok_def half_minutes_def array_bits)
  then have "dcmCronParseGetNext (\<lambda>_. True) (Some half_minutes) 10 = Some 330 \<and> cron_matches half_minutes 300"
    using several_seconds_skip_a_match [OF wf, of "\<lambda>_. True" 10 30 5 0] d
    by (simp add: half_minutes_def array_bits)
  then show ?thesis using half_minutes_parsed by blast
qed

subsection \<open>Both day fields restricted\<close>

lemma midnight:
  "86400 * n mod 60 = (0 :: int)" "minute_of (86400 * n) = 0" "hour_of (86400 * n) = 0" "day_number (86400 * n) = n"
proof -
  have 1: "86400 * n = 60 * (1440 * n)" "86400 * n = 3600 * (24 * n)" by simp_all
  show "86400 * n mod 60 = 0" unfolding 1(1) by (rule mod_mult_self1_is_0)
  have "86400 * n div 60 = 60 * (24 * n)" unfolding 1(1) by simp
  then show "minute_of (86400 * n) = 0" by (simp only: minute_of_def mod_mult_self1_is_0 nat_zero_as_int)
  have "86400 * n div 3600 = 24 * n" unfolding 1(2) by (rule nonzero_mult_div_cancel_left) simp
  then show "hour_of (86400 * n) = 0" by (simp only: hour_of_def mod_mult_self1_is_0 nat_zero_as_int)
  show "day_number (86400 * n) = n" by (simp add: day_number_def)
qed


text \<open>\<^verbatim>\<open>30 5 15 * 1\<close>: the 15th when it is a Monday, at 05:30; 15 February 2024 is a Thursday.\<close>

definition monday_15th :: dcmCronExpr where
  "monday_15th = \<lparr>seconds = [1, 0, 0, 0, 0, 0, 0, 0], minutes = [0, 0, 0, 64, 0, 0, 0, 0], hours = [32, 0, 0],
     days_of_week = [2], days_of_month = [0, 128, 0, 0], months = [255, 15]\<rparr>"

definition feb15 :: int where "feb15 = 1707975000"

lemma monday_15th_parsed:
  "dcmCronParseExp (\<lambda>_. True) (Some ''30 5 15 * 1'') (Some zero_cron_expr) = Some (0, Some monday_15th)"
  by code_simp

lemma monday_15th_bits:
  "bits_of (seconds monday_15th) = {0}" "bits_of (minutes monday_15th) = {30}" "bits_of (hours monday_15th) = {5}"
  "bits_of (days_of_week monday_15th) = {1}" "bits_of (days_of_month monday_15th) = {15}"
  "bits_of (months monday_15th) = {0..<12}"
proof -
  have "bit_list (seconds monday_15th) = [0] \<and> bit_list (minutes monday_15th) = [30] \<and>
    bit_list (hours monday_15th) = [5] \<and> bit_list (days_of_week monday_15th) = [1] \<and>
    bit_list (days_of_month monday_15th) = [15] \<and> bit_list (months monday_15th) = [0..<12]"
    by code_simp
  then show "bits_of (seconds monday_15th) = {0}" "bits_of (minutes monday_15th) = {30}"
    "bits_of (hours monday_15th) = {5}" "bits_of (days_of_week monday_15th) = {1}"
    "bits_of (days_of_month monday_15th) = {15}" "bits_of (months monday_15th) = {0..<12}"
    by (simp_all only: bits_of_list set_upt simp_thms) simp_all
qed

lemma monday_15th_sizes:
  "length (seconds monday_15th) = 8" "length (minutes monday_15th) = 8" "length (hours monday_15th) = 3"
  "length (days_of_week monday_15th) = 1" "length (days_of_month monday_15th) = 4" "length (months monday_15th) = 2"
  by (simp_all add: monday_15th_def)

fun no_monday_15th :: "nat \<Rightarrow> int \<Rightarrow> bool" where
  "no_monday_15th 0 n = True"
| "no_monday_15th (Suc k) n = (\<not> (day_mday n = 15 \<and> day_wday n = 1) \<and> no_monday_15th k (n + 1))"

lemma no_monday_15th_all: "no_monday_15th k n \<Longrightarrow> j < k \<Longrightarrow> \<not> (day_mday (n + int j) = 15 \<and> day_wday (n + int j) = 1)"
proof (induction k arbitrary: n j)
  case (Suc k)
  show ?case
  proof (cases j)
    case (Suc i)
    with Suc.prems Suc.IH [of "n + 1" i] show ?thesis by (simp add: add.assoc)
  qed (use Suc.prems in simp)
qed simp

lemma monday_15th_days:
  "day_number feb15 = 19768 \<and> day_mday 19768 = 15 \<and> day_wday 19768 = 4 \<and> day_mday 19828 = 15 \<and>
   day_wday 19828 = 1 \<and> no_monday_15th 60 19768 \<and>
   feb15 mod 60 = 0 \<and> feb15 div 60 mod 60 = 30 \<and> feb15 div 3600 mod 24 = 5 \<and> day_mon 19828 = 3"
  by code_simp


subsection \<open>A month reached from day 29, 30 or 31\<close>

lemma any_day_ok:
  fixes e :: dcmCronExpr
  assumes "days_of_month e = [254, 255, 255, 255]" "days_of_week e = [127]"
  shows "dcmCronParseFindNextDay (civil t) (days_of_month e) (nat (day_mday (day_number t))) (days_of_week e)
     (nat (day_wday (day_number t))) resets = Some (nat (day_mday (day_number t)), civil t, 0)"
proof -
  have "nat (day_mday (day_number t)) \<in> {1..<32}" "nat (day_wday (day_number t)) \<in> {0..<7}"
    using day_mday_bounds [of "day_number t"] day_wday_bounds [of "day_number t"] by auto
  then have "day_ok e (day_number t)" using assms by (simp add: day_ok_def array_bits)
  then show ?thesis by (rule FindNextDay_hit) (simp_all add: assms)
qed

text \<open>\<^verbatim>\<open>0 0 * 2 *\<close>: every midnight of February, seen from 29 January 2023, 00:00:00.\<close>

definition february :: dcmCronExpr where
  "february = \<lparr>seconds = [1, 0, 0, 0, 0, 0, 0, 0], minutes = [1, 0, 0, 0, 0, 0, 0, 0], hours = [1, 0, 0],
     days_of_week = [127], days_of_month = [254, 255, 255, 255], months = [2, 0]\<rparr>"

definition jan29 :: int where "jan29 = 1674950400"
definition mar1 :: int where "mar1 = 1677628800"
definition mar1_next :: int where "mar1_next = 1709251200"
definition jan1_next :: int where "jan1_next = 1704067200"
definition feb1_next :: int where "feb1_next = 1706745600"

lemma february_parsed:
  "dcmCronParseExp (\<lambda>_. True) (Some ''0 0 * 2 *'') (Some zero_cron_expr) = Some (0, Some february)"
  by code_simp

text \<open>At a midnight only the month stage is left to do.\<close>

lemma february_midnight:
  assumes "t mod 60 = 0" "t div 60 mod 60 = 0" "t div 3600 mod 24 = 0"
  shows "dcmCronParseDoNext (\<lambda>_. True) february (civil t) dot =
     month_stage (\<lambda>_. True) february dot [0, 1, 2, 4, -1, -1, -1] (civil t)"
proof -
  have hit: "dcmCronParseFindNext (seconds february) 60 0 (civil t) 0 1 r = Some (0, civil t, 0)"
    "dcmCronParseFindNext (minutes february) 60 0 (civil t) 1 2 r = Some (0, civil t, 0)"
    "dcmCronParseFindNext (hours february) 24 0 (civil t) 2 3 r = Some (0, civil t, 0)" for r
    by (rule FindNext_hit; simp add: february_def array_bits)+
  have "days_of_month february = [254, 255, 255, 255]" "days_of_week february = [127]"
    by (simp_all add: february_def)
  note day = any_day_ok [OF this]
  from hit assms show ?thesis
    by (simp add: day DoNext_stages minute_stage_def hour_stage_def day_stage_def
        dcmCronParsePushToFieldsArr_def empty_list_def)
qed

lemma february_calls:
  "dcmCronParseNextSetBit (months february) 12 0 = Some (1, False) \<and>
   dcmCronParseNextSetBit (months february) 12 1 = Some (1, False) \<and>
   dcmCronParseNextSetBit (months february) 12 2 = Some (0, True) \<and>
   dcmCronParseSetField (civil jan29) 5 1 = (0, civil mar1) \<and>
   dcmCronParseAddToField (civil mar1) 6 1 = Some (0, civil mar1_next) \<and>
   dcmCronParseResetMin (civil mar1_next) 5 = (0, civil jan1_next) \<and>
   dcmCronParseSetField (civil jan1_next) 5 1 = (0, civil feb1_next)"
  by code_simp

lemma february_resets:
  "dcmCronParseResetMin (civil mar1) 0 = (0, civil mar1) \<and> dcmCronParseResetMin (civil mar1) 1 = (0, civil mar1) \<and>
   dcmCronParseResetMin (civil mar1) 2 = (0, civil mar1) \<and> dcmCronParseResetMin (civil mar1) 4 = (0, civil mar1) \<and>
   dcmCronParseResetMin (civil feb1_next) 0 = (0, civil feb1_next) \<and>
   dcmCronParseResetMin (civil feb1_next) 1 = (0, civil feb1_next) \<and>
   dcmCronParseResetMin (civil feb1_next) 2 = (0, civil feb1_next) \<and>
   dcmCronParseResetMin (civil feb1_next) 4 = (0, civil feb1_next)"
  by code_simp

lemma february_dates:
  "tm_mon (civil jan29) = 0 \<and> tm_mon (civil mar1) = 2 \<and> tm_mon (civil feb1_next) = 1 \<and>
   tm_year (civil jan29) = 123 \<and> tm_year (civil mar1) = 123 \<and> tm_year (civil feb1_next) = 124 \<and>
   timegm (civil jan29) = (jan29, civil jan29) \<and> timegm (civil feb1_next) = (feb1_next, civil feb1_next) \<and>
   gmtime_r jan29 = Some (civil jan29)"
  by code_simp

lemma february_moves:
  "dcmCronParseFindNext (months february) 12 0 (civil jan29) 5 6 [0, 1, 2, 4, -1, -1, -1] = Some (1, civil mar1, 0)"
  "dcmCronParseFindNext (months february) 12 2 (civil mar1) 5 6 [0, 1, 2, 4, -1, -1, -1] = Some (1, civil feb1_next, 0)"
  "dcmCronParseFindNext (months february) 12 1 (civil feb1_next) 5 6 r = Some (1, civil feb1_next, 0)"
  by (simp_all add: dcmCronParseFindNext_def roll_over_def february_calls february_resets
      february_calls [simplified One_nat_def])

lemma month_stage_move:
  "dcmCronParseFindNext (months e) 12 (nat (tm_mon c)) c 5 6 r = Some (v, c', 0) \<Longrightarrow>
   month_stage mem e dot r c =
     (if nat (tm_mon c) = v then Some (0, c')
      else if uint32 (tm_year c' - int dot) > 4 then Some (-1, c')
      else dcmCronParseDoNext mem e c' dot)"
  by (simp add: month_stage_def)

lemma february_run:
  "dcmCronParseDoNext (\<lambda>_. True) february (civil jan29) 123 = Some (0, civil feb1_next)"
proof -
  let ?r = "[0, 1, 2, 4, -1, -1, -1] :: int list"
  let ?go = "\<lambda>t. dcmCronParseDoNext (\<lambda>_. True) february (civil t) 123"
  have mon: "nat (tm_mon (civil jan29)) = 0" "nat (tm_mon (civil mar1)) = 2" "nat (tm_mon (civil feb1_next)) = 1"
    using february_dates by (simp_all del: civil_sel)
  have yr: "\<not> uint32 (tm_year (civil mar1) - int 123) > 4" "\<not> uint32 (tm_year (civil feb1_next) - int 123) > 4"
    using february_dates by (simp_all add: uint32_def del: civil_sel)
  have "?go feb1_next = month_stage (\<lambda>_. True) february 123 ?r (civil feb1_next)"
    by (rule february_midnight) (simp_all add: feb1_next_def)
  also have "\<dots> = Some (0, civil feb1_next)"
    using month_stage_move [OF february_moves(3) [folded mon(3)]] mon by (simp del: civil_sel)
  finally have feb: "?go feb1_next = Some (0, civil feb1_next)" .
  have "?go mar1 = month_stage (\<lambda>_. True) february 123 ?r (civil mar1)"
    by (rule february_midnight) (simp_all add: mar1_def)
  also have "\<dots> = ?go feb1_next"
    using month_stage_move [OF february_moves(2) [folded mon(2)]] yr(2) mon by (simp del: civil_sel)
  finally have mar: "?go mar1 = ?go feb1_next" .
  have "?go jan29 = month_stage (\<lambda>_. True) february 123 ?r (civil jan29)"
    by (rule february_midnight) (simp_all add: jan29_def)
  also have "\<dots> = ?go mar1"
    using month_stage_move [OF february_moves(1) [folded mon(1)]] yr(1) mon by (simp del: civil_sel)
  finally show ?thesis using mar feb by simp
qed

text \<open>
  A month that is reached from day 29, 30 or 31 and is too short is skipped: on 29 January
  2023 the next run of \<^verbatim>\<open>0 0 * 2 *\<close> (every day of February at midnight) is 1 February 2024, although
  1 February 2023 matches (setting \<^verbatim>\<open>tm_mon\<close> before \<^verbatim>\<open>tm_mday\<close> is reset normalises 29 February to
  1 March).
\<close>

lemma short_month_is_skipped:
  "dcmCronParseExp (\<lambda>_. True) (Some ''0 0 * 2 *'') (Some zero_cron_expr) = Some (0, Some february) \<and>
   dcmCronParseGetNext (\<lambda>_. True) (Some february) 1674950400 = Some 1706745600 \<and>
   1674950400 < (1675209600 :: int) \<and> (1675209600 :: int) < 1706745600 \<and> cron_matches february 1675209600"
proof (intro conjI)
  show "dcmCronParseExp (\<lambda>_. True) (Some ''0 0 * 2 *'') (Some zero_cron_expr) = Some (0, Some february)"
    by (rule february_parsed)
  have "jan29 \<noteq> -1" "feb1_next \<noteq> -1" "feb1_next \<noteq> jan29" by (simp_all add: jan29_def feb1_next_def)
  then have "dcmCronParseGetNext (\<lambda>_. True) (Some february) jan29 = Some feb1_next"
    by (simp add: dcmCronParseGetNext_def dcmCronParseMktime_def february_dates february_run del: civil_sel)
  then show "dcmCronParseGetNext (\<lambda>_. True) (Some february) 1674950400 = Some 1706745600"
    by (simp add: jan29_def feb1_next_def)
  show "cron_matches february 1675209600"
    unfolding cron_matches_def bits_of_list by code_simp
qed simp_all

end
