(* ===== verification/CronBits.thy ===== *)
theory CronBits
  imports CronNextProps
begin

text \<open>
  The bit arrays of the cron expressions as an implementation of finite sets of numbers: the abstraction is
  \<open>bits_of\<close>, and each operation on an array commutes with the set operation.
\<close>

lemma next_set_bit_least:
  assumes "m \<le> 8 * length a" "length a \<le> 256"
  shows "dcmCronParseNextSetBit a m i =
    Some (if \<exists>j \<in> bits_of a. i \<le> j \<and> j < m then (Min {j \<in> bits_of a. i \<le> j \<and> j < m}, False) else (0, True))"
  using NextSetBit_cases [OF assms, of i]
proof
  assume "\<exists>w. i \<le> w \<and> w < m \<and> w \<in> bits_of a \<and> (\<forall>j. i \<le> j \<and> j < w \<longrightarrow> j \<notin> bits_of a) \<and>
    dcmCronParseNextSetBit a m i = Some (w, False)"
  then obtain w where w: "i \<le> w" "w < m" "w \<in> bits_of a" "\<forall>j. i \<le> j \<and> j < w \<longrightarrow> j \<notin> bits_of a"
    "dcmCronParseNextSetBit a m i = Some (w, False)" by blast
  moreover have "Min {j \<in> bits_of a. i \<le> j \<and> j < m} = w"
    using w(1-4) by (intro Min_eqI) (auto simp: not_less [symmetric])
  ultimately show ?thesis by auto
next
  assume "(\<forall>j. i \<le> j \<and> j < m \<longrightarrow> j \<notin> bits_of a) \<and> dcmCronParseNextSetBit a m i = Some (0, True)"
  then show ?thesis by auto
qed

text \<open>
  Claim C4. Bit arrays implement sets.  Inside an array, testing, setting and deleting a bit are membership,
  insertion and removal, the search for the next set bit gives the least element of the set from an
  index on, and setting the bits of a range with a step adds the multiples of the step; no operation
  leaves the array, changes its size or touches another element.
\<close>

theorem bit_arrays_are_sets:
  assumes "i < 8 * length a" "m \<le> 8 * length a" "hi < 8 * length a" "length a \<le> 256"
    and "0 < delta" "int delta \<le> INT_MAX"
  shows "dcmCronParseGetBit a i = Some (i \<in> bits_of a) \<and>
    (\<exists>b. dcmCronParseSetBit a i = Some b \<and> length b = length a \<and> bits_of b = insert i (bits_of a)) \<and>
    (\<exists>b. dcmCronParseDelBit a i = Some b \<and> length b = length a \<and> bits_of b = bits_of a - {i}) \<and>
    dcmCronParseNextSetBit a m i =
      Some (if \<exists>j \<in> bits_of a. i \<le> j \<and> j < m then (Min {j \<in> bits_of a. i \<le> j \<and> j < m}, False) else (0, True)) \<and>
    (\<exists>b. set_bits_step a i hi delta = Some b \<and> length b = length a \<and>
       bits_of b = bits_of a \<union> {j. \<exists>k. j = i + k * delta \<and> j \<le> hi})"
proof -
  have i: "i div 8 < length a" using assms(1) by (simp add: less_mult_imp_div_less mult.commute)
  obtain b where b: "dcmCronParseSetBit a i = Some b" "length b = length a" "bits_of b = insert i (bits_of a)"
    by (rule dcmCronParseSetBit_ex [OF i assms(4)])
  obtain c where c: "dcmCronParseDelBit a i = Some c" "length c = length a" "bits_of c = bits_of a - {i}"
    by (rule dcmCronParseDelBit_ex [OF i assms(4)])
  obtain d where d: "set_bits_step a i hi delta = Some d" "length d = length a"
    "bits_of d = bits_of a \<union> {j. \<exists>k. j = i + k * delta \<and> j \<le> hi}"
    using set_bits_step_ex [OF assms(3-6), of i] unfolding steps_set_def by blast
  show ?thesis
    using b c d dcmCronParseGetBit_eq [OF i assms(4)] next_set_bit_least [OF assms(2,4)] by simp
qed

text \<open>The minutes of the pattern item \<^verbatim>\<open>10-59/20\<close>, in an empty array.\<close>

theorem bit_arrays_are_sets_witness:
  "\<exists>b. set_bits_step (replicate 8 0) 10 59 20 = Some b \<and> bits_of b = {j. \<exists>k. j = 10 + k * 20 \<and> j \<le> 59} \<and>
     dcmCronParseGetBit (replicate 8 0) 10 = Some False"
  using bit_arrays_are_sets [of 10 "replicate 8 0" 60 59 20] by (auto simp: INT_MAX_def)

end
