(* ===== verification/FileSys.thy ===== *)
theory FileSys
  imports DcmPrelude "HOL-Library.AList"
begin

text \<open>
  The file system the programs of the repository work on, as far as their system calls see it:
  a tree of regular files, directories and symbolic links.

  A path string is split at its slashes; empty and \<^verbatim>\<open>.\<close> components do not count, so that
  \<^verbatim>\<open>/tmp/DCM/\<close>, \<^verbatim>\<open>/tmp/DCM\<close> and \<^verbatim>\<open>/tmp//DCM\<close> name the same node.  The nodes are an association
  list, whose order is the (unspecified) order in which \<^verbatim>\<open>readdir\<close> delivers the entries of a
  directory.  \<open>denied\<close> lists the nodes on which every operation that opens or changes them fails
  although the tree would allow it (permissions, a read-only mount, an I/O error), so that the
  error branches of the sources are reachable.  A symbolic link is followed at the last
  component of a path only.
\<close>

subsection \<open>Paths\<close>

type_synonym path = "string list"

fun split_slash :: "cstring \<Rightarrow> string \<Rightarrow> path" where
  "split_slash [] acc = [rev acc]"
| "split_slash (c # s) acc = (if c = CHR ''/'' then rev acc # split_slash s [] else split_slash s (c # acc))"

definition comps :: "cstring \<Rightarrow> path" where
  "comps s = filter (\<lambda>x. x \<noteq> [] \<and> x \<noteq> ''.'') (split_slash s [])"

text \<open>\<^verbatim>\<open>snprintf(buf, n, "%s/%s", d, f)\<close> writes this string, cut to the size of the buffer.\<close>

definition slashed :: "cstring \<Rightarrow> cstring \<Rightarrow> cstring" where
  "slashed d f = d @ ''/'' @ f"

lemma split_slash_no_slash: "CHR ''/'' \<notin> set s \<Longrightarrow> split_slash s acc = [rev acc @ s]"
  by (induction s arbitrary: acc) auto

lemma split_slash_append:
  "split_slash (a @ CHR ''/'' # b) acc = split_slash a acc @ split_slash b []"
  by (induction a arbitrary: acc) auto

lemma comps_slashed [simp]: "comps (slashed d f) = comps d @ comps f"
  by (simp add: comps_def slashed_def split_slash_append)

lemma comps_name [simp]: "CHR ''/'' \<notin> set f \<Longrightarrow> f \<noteq> [] \<Longrightarrow> f \<noteq> ''.'' \<Longrightarrow> comps f = [f]"
  by (simp add: comps_def split_slash_no_slash)

subsection \<open>Nodes\<close>

datatype node = Reg (node_data: cstring) (node_mtime: int) | Dir (node_mtime: int)
  | Lnk (node_target: cstring) (node_mtime: int)

record fsys =
  nodes :: "(path \<times> node) list"
  denied :: "path list"

datatype errno = ENOENT | EACCES | EISDIR | ENOTDIR | ENOTEMPTY | EEXIST | ELOOP

definition is_reg :: "node \<Rightarrow> bool" where
  "is_reg n = (case n of Reg d t \<Rightarrow> True | Dir t \<Rightarrow> False | Lnk d t \<Rightarrow> False)"

definition is_dir :: "node \<Rightarrow> bool" where
  "is_dir n = (case n of Reg d t \<Rightarrow> False | Dir t \<Rightarrow> True | Lnk d t \<Rightarrow> False)"

definition lookup :: "fsys \<Rightarrow> path \<Rightarrow> node option" where
  "lookup f p = map_of (nodes f) p"

definition put :: "fsys \<Rightarrow> path \<Rightarrow> node \<Rightarrow> fsys" where
  "put f p n = f\<lparr>nodes := AList.update p n (nodes f)\<rparr>"

definition del :: "fsys \<Rightarrow> path \<Rightarrow> fsys" where
  "del f p = f\<lparr>nodes := AList.delete p (nodes f)\<rparr>"

lemma lookup_put [simp]: "lookup (put f p n) q = (if q = p then Some n else lookup f q)"
  by (simp add: lookup_def put_def update_conv')

lemma lookup_del [simp]: "lookup (del f p) q = (if q = p then None else lookup f q)"
  by (simp add: lookup_def del_def delete_conv')

lemma denied_put [simp]: "denied (put f p n) = denied f"
  by (simp add: put_def)

lemma denied_del [simp]: "denied (del f p) = denied f"
  by (simp add: del_def)

text \<open>The root directory always exists.\<close>

definition is_dir_at :: "fsys \<Rightarrow> path \<Rightarrow> bool" where
  "is_dir_at f p = (p = [] \<or> (case lookup f p of None \<Rightarrow> False | Some n \<Rightarrow> is_dir n))"

text \<open>Following the symbolic link at the last component, at most \<open>k\<close> times.\<close>

fun follow :: "nat \<Rightarrow> fsys \<Rightarrow> path \<Rightarrow> path option" where
  "follow 0 f p = None"
| "follow (Suc k) f p =
     (case lookup f p of
        Some (Lnk t m) \<Rightarrow> follow k f (if is_prefix ''/'' t then comps t else butlast p @ comps t)
      | Some (Reg d m) \<Rightarrow> Some p
      | Some (Dir m) \<Rightarrow> Some p
      | None \<Rightarrow> Some p)"

text \<open>The Linux limit on followed links is 40.\<close>

definition resolve :: "fsys \<Rightarrow> cstring \<Rightarrow> path option" where
  "resolve f s = follow 41 f (comps s)"

lemma resolve_plain:
  assumes "\<And>t m. lookup f (comps s) \<noteq> Some (Lnk t m)"
  shows "resolve f s = Some (comps s)"
proof -
  have "follow (Suc k) f (comps s) = Some (comps s)" for k
    using assms by (cases "lookup f (comps s)") (auto split: node.splits)
  from this [of 40] show ?thesis by (simp only: resolve_def numeral_eq_Suc pred_numeral_simps)
qed

subsection \<open>System calls\<close>

definition os_lstat :: "fsys \<Rightarrow> cstring \<Rightarrow> node option" where
  "os_lstat f s = (if comps s = [] then Some (Dir 0) else lookup f (comps s))"

definition os_stat :: "fsys \<Rightarrow> cstring \<Rightarrow> node option" where
  "os_stat f s =
     (case resolve f s of None \<Rightarrow> None
      | Some p \<Rightarrow> if p = [] then Some (Dir 0) else lookup f p)"

text \<open>The names \<^verbatim>\<open>readdir\<close> delivers, or \<^const>\<open>None\<close> when \<^verbatim>\<open>opendir\<close> fails.\<close>

definition child_name :: "path \<Rightarrow> path \<Rightarrow> string list" where
  "child_name d p = (if p \<noteq> [] \<and> butlast p = d then [last p] else [])"

definition children :: "fsys \<Rightarrow> path \<Rightarrow> string list" where
  "children f d = concat (map (\<lambda>e. child_name d (fst e)) (nodes f))"

definition os_readdir :: "fsys \<Rightarrow> cstring \<Rightarrow> string list option" where
  "os_readdir f s =
     (case resolve f s of None \<Rightarrow> None
      | Some p \<Rightarrow> if is_dir_at f p \<and> \<not> List.member (denied f) p
                  then Some (''.'' # ''..'' # children f p) else None)"

lemma set_children: "set (children f d) = {n. lookup f (d @ [n]) \<noteq> None}"
proof -
  have "n \<in> set (children f d) \<longleftrightarrow> d @ [n] \<in> fst ` set (nodes f)" for n
  proof
    assume "n \<in> set (children f d)"
    then obtain e where e: "e \<in> set (nodes f)" "fst e \<noteq> []" "butlast (fst e) = d" "n = last (fst e)"
      by (auto simp: children_def child_name_def split: if_splits)
    then have "fst e = d @ [n]" by auto
    with e(1) show "d @ [n] \<in> fst ` set (nodes f)" by (metis imageI)
  next
    assume "d @ [n] \<in> fst ` set (nodes f)"
    then obtain e where "e \<in> set (nodes f)" "fst e = d @ [n]" by auto
    then show "n \<in> set (children f d)"
      by (force simp: children_def child_name_def)
  qed
  then show ?thesis
    by (auto simp: lookup_def map_of_eq_None_iff)
qed

text \<open>\<^verbatim>\<open>fopen(path, "r")\<close> and reading to the end.  A directory can be opened, but not read.\<close>

definition os_read :: "fsys \<Rightarrow> cstring \<Rightarrow> cstring option" where
  "os_read f s =
     (case resolve f s of None \<Rightarrow> None
      | Some p \<Rightarrow> if List.member (denied f) p then None
                  else if p = [] then Some []
                  else case lookup f p of None \<Rightarrow> None
                       | Some (Reg d m) \<Rightarrow> Some d
                       | Some (Dir m) \<Rightarrow> Some []
                       | Some (Lnk t m) \<Rightarrow> None)"

text \<open>\<^verbatim>\<open>fopen(path, "w")\<close>, writing \<open>txt\<close> and closing the file at time \<open>t\<close>.\<close>

definition os_write_at :: "fsys \<Rightarrow> path \<Rightarrow> cstring \<Rightarrow> int \<Rightarrow> fsys option" where
  "os_write_at f p txt t =
     (if p = [] \<or> List.member (denied f) p \<or> \<not> is_dir_at f (butlast p) \<or> is_dir_at f p then None
      else Some (put f p (Reg txt t)))"

definition os_write :: "fsys \<Rightarrow> cstring \<Rightarrow> cstring \<Rightarrow> int \<Rightarrow> fsys option" where
  "os_write f s txt t = (case resolve f s of None \<Rightarrow> None | Some p \<Rightarrow> os_write_at f p txt t)"

text \<open>\<^verbatim>\<open>fopen(path, "a")\<close>, writing \<open>txt\<close> at the end and closing the file.\<close>

definition os_append :: "fsys \<Rightarrow> cstring \<Rightarrow> cstring \<Rightarrow> int \<Rightarrow> fsys option" where
  "os_append f s txt t =
     (case resolve f s of None \<Rightarrow> None
      | Some p \<Rightarrow> (case lookup f p of
            Some (Reg d m) \<Rightarrow> os_write_at f p (d @ txt) t
          | Some (Dir m) \<Rightarrow> None
          | Some (Lnk r m) \<Rightarrow> None
          | None \<Rightarrow> os_write_at f p txt t))"

text \<open>\<^verbatim>\<open>open(path, O_RDONLY | O_NOFOLLOW)\<close>: the node that is opened.\<close>

definition os_open_nofollow :: "fsys \<Rightarrow> cstring \<Rightarrow> node option" where
  "os_open_nofollow f s =
     (if List.member (denied f) (comps s) then None
      else case os_lstat f s of None \<Rightarrow> None
           | Some n \<Rightarrow> (case n of Reg d m \<Rightarrow> Some n | Dir m \<Rightarrow> Some n | Lnk t m \<Rightarrow> None))"

text \<open>\<^verbatim>\<open>open(path, O_WRONLY | O_TRUNC | O_NOFOLLOW)\<close> of an existing node.\<close>

definition os_truncate_nofollow :: "fsys \<Rightarrow> cstring \<Rightarrow> int \<Rightarrow> fsys option" where
  "os_truncate_nofollow f s t =
     (case os_open_nofollow f s of None \<Rightarrow> None
      | Some n \<Rightarrow> if is_reg n then Some (put f (comps s) (Reg [] t)) else None)"

definition os_unlink :: "fsys \<Rightarrow> cstring \<Rightarrow> errno + fsys" where
  "os_unlink f s =
     (let p = comps s in
      if p = [] then Inl EISDIR
      else case lookup f p of
             None \<Rightarrow> Inl ENOENT
           | Some n \<Rightarrow> if is_dir n then Inl EISDIR
                       else if List.member (denied f) p then Inl EACCES
                       else Inr (del f p))"

definition os_rmdir :: "fsys \<Rightarrow> cstring \<Rightarrow> errno + fsys" where
  "os_rmdir f s =
     (let p = comps s in
      case lookup f p of
        None \<Rightarrow> Inl (if p = [] then EACCES else ENOENT)
      | Some n \<Rightarrow> if \<not> is_dir n then Inl ENOTDIR
                  else if children f p \<noteq> [] then Inl ENOTEMPTY
                  else if List.member (denied f) p then Inl EACCES
                  else Inr (del f p))"

definition os_mkdir :: "fsys \<Rightarrow> cstring \<Rightarrow> int \<Rightarrow> errno + fsys" where
  "os_mkdir f s t =
     (let p = comps s in
      if p = [] \<or> lookup f p \<noteq> None then Inl EEXIST
      else if \<not> is_dir_at f (butlast p) then Inl ENOENT
      else if List.member (denied f) p then Inl EACCES
      else Inr (put f p (Dir t)))"

text \<open>\<^verbatim>\<open>access(path, F_OK)\<close> and \<^verbatim>\<open>access(path, W_OK)\<close>.\<close>

definition os_access :: "fsys \<Rightarrow> cstring \<Rightarrow> bool" where
  "os_access f s = (os_stat f s \<noteq> None)"

definition os_access_w :: "fsys \<Rightarrow> cstring \<Rightarrow> bool" where
  "os_access_w f s =
     (case resolve f s of None \<Rightarrow> False
      | Some p \<Rightarrow> (p = [] \<or> lookup f p \<noteq> None) \<and> \<not> List.member (denied f) p)"

text \<open>\<^verbatim>\<open>rename\<close> replaces a file that is in the way and moves a directory with all below it.\<close>

definition under :: "path \<Rightarrow> path \<Rightarrow> bool" where
  "under d p = (take (length d) p = d)"

definition moved :: "path \<Rightarrow> path \<Rightarrow> path \<Rightarrow> path" where
  "moved a b p = (if under a p then b @ drop (length a) p else p)"

definition move_nodes :: "path \<Rightarrow> path \<Rightarrow> (path \<times> node) list \<Rightarrow> (path \<times> node) list" where
  "move_nodes a b xs = map (\<lambda>e. (moved a b (fst e), snd e)) (AList.delete b xs)"

definition os_rename :: "fsys \<Rightarrow> cstring \<Rightarrow> cstring \<Rightarrow> errno + fsys" where
  "os_rename f s r =
     (let a = comps s; b = comps r in
      case lookup f a of
        None \<Rightarrow> Inl (if a = [] then EACCES else ENOENT)
      | Some n \<Rightarrow>
          if a = b then Inr f
          else if List.member (denied f) a \<or> List.member (denied f) b \<or> b = [] \<or> under a b then Inl EACCES
          else if \<not> is_dir_at f (butlast b) then Inl ENOENT
          else if is_dir_at f b \<and> \<not> is_dir n then Inl EISDIR
          else if is_dir_at f b \<and> children f b \<noteq> [] then Inl ENOTEMPTY
          else if is_dir n \<and> lookup f b \<noteq> None \<and> \<not> is_dir_at f b then Inl ENOTDIR
          else Inr (f\<lparr>nodes := move_nodes a b (nodes f)\<rparr>))"


subsection \<open>Well-formed trees\<close>

definition wf_fs :: "fsys \<Rightarrow> bool" where
  "wf_fs f = (distinct (map fst (nodes f)) \<and>
     list_all (\<lambda>e. fst e \<noteq> [] \<and> is_dir_at f (butlast (fst e))) (nodes f))"

lemma wf_fs_parent:
  assumes "wf_fs f" "lookup f p \<noteq> None"
  shows "p \<noteq> [] \<and> is_dir_at f (butlast p)"
proof -
  from assms(2) obtain n where "(p, n) \<in> set (nodes f)"
    by (auto simp: lookup_def dest: map_of_SomeD)
  with assms(1) show ?thesis by (force simp: wf_fs_def list_all_iff)
qed

lemma under_refl [simp]: "under p p"
  by (simp add: under_def)

lemma under_append [simp]: "under d (d @ r)"
  by (simp add: under_def)

lemma underE: "under d p \<Longrightarrow> (\<And>r. p = d @ r \<Longrightarrow> P) \<Longrightarrow> P"
  by (metis append_take_drop_id under_def)

lemma wf_fs_below_dir:
  "wf_fs f \<Longrightarrow> lookup f (d @ r) \<noteq> None \<Longrightarrow> r \<noteq> [] \<Longrightarrow> is_dir_at f d"
proof (induction r rule: rev_induct)
  case Nil
  then show ?case by simp
next
  case (snoc x r)
  have "is_dir_at f (d @ r)"
    using wf_fs_parent [OF snoc.prems(1), of "d @ r @ [x]"] snoc.prems(2)
    by (metis append.assoc butlast_snoc)
  then show ?case
  proof (cases "r = []")
    case True
    with \<open>is_dir_at f (d @ r)\<close> show ?thesis by simp
  next
    case False
    with \<open>is_dir_at f (d @ r)\<close> have "lookup f (d @ r) \<noteq> None"
      by (auto simp: is_dir_at_def split: option.splits)
    with snoc.IH snoc.prems(1) False show ?thesis by simp
  qed
qed

lemma wf_fs_below_empty:
  assumes "wf_fs f" "children f d = []" "r \<noteq> []"
  shows "lookup f (d @ r) = None"
  using assms(3)
proof (induction r rule: rev_induct)
  case Nil
  then show ?case by simp
next
  case (snoc x r)
  show ?case
  proof (cases "r = []")
    case True
    have "x \<notin> set (children f d)" using assms(2) by simp
    then show ?thesis unfolding set_children True by simp
  next
    case False
    then have "lookup f (d @ r) = None" by (rule snoc.IH)
    show ?thesis
    proof (rule ccontr)
      assume "lookup f (d @ r @ [x]) \<noteq> None"
      then have "is_dir_at f (d @ r)"
        using wf_fs_parent [OF assms(1), of "d @ r @ [x]"] by (metis append.assoc butlast_snoc)
      with \<open>lookup f (d @ r) = None\<close> False show False by (simp add: is_dir_at_def)
    qed
  qed
qed

lemma map_of_rekey:
  assumes "\<And>p. p \<in> fst ` set xs \<Longrightarrow> (g p = q) = (p = p0)"
  shows "map_of (map (\<lambda>e. (g (fst e), snd e)) xs) q = map_of xs p0"
  using assms
proof (induction xs)
  case Nil
  then show ?case by simp
next
  case (Cons e xs)
  then show ?case by (cases e) force
qed

lemma map_of_rekey_None:
  assumes "\<And>p. p \<in> fst ` set xs \<Longrightarrow> g p \<noteq> q"
  shows "map_of (map (\<lambda>e. (g (fst e), snd e)) xs) q = None"
  using assms by (force simp: map_of_eq_None_iff)

text \<open>A successful \<^verbatim>\<open>rename\<close>: what it has found, and what the tree holds afterwards.\<close>

lemma os_renameE:
  assumes "os_rename f s r = Inr f'" "comps s \<noteq> comps r"
  obtains n where "lookup f (comps s) = Some n" "nodes f' = move_nodes (comps s) (comps r) (nodes f)"
    "\<not> under (comps s) (comps r)" "comps r \<noteq> []" "is_dir_at f (butlast (comps r))"
    "is_dir_at f (comps r) \<longrightarrow> children f (comps r) = []"
  using assms by (auto simp: os_rename_def Let_def split: option.splits if_splits)

lemma deleted_keys: "p \<in> fst ` set (AList.delete b (nodes f)) \<longleftrightarrow> p \<noteq> b \<and> lookup f p \<noteq> None"
proof -
  have "fst ` set (AList.delete b (nodes f)) = set (removeAll b (map fst (nodes f)))"
    by (metis delete_keys set_map)
  then show ?thesis by (auto simp: lookup_def map_of_eq_None_iff)
qed

lemma nothing_below_target:
  assumes "wf_fs f" "is_dir_at f b \<longrightarrow> children f b = []" "p \<in> fst ` set (AList.delete b (nodes f))"
  shows "\<not> under b p"
proof
  assume "under b p"
  then obtain t where t: "p = b @ t" by (rule underE)
  with assms(3) have "t \<noteq> []" "lookup f (b @ t) \<noteq> None" by (auto simp: deleted_keys)
  moreover from this have "is_dir_at f b" using wf_fs_below_dir [OF assms(1)] by blast
  ultimately show False using assms(2) wf_fs_below_empty [OF assms(1), of b t] by simp
qed

lemma lookup_rename:
  assumes wf: "wf_fs f" and ok: "os_rename f s r = Inr f'" and ne: "comps s \<noteq> comps r"
  shows "lookup f' q =
    (if under (comps r) q then lookup f (comps s @ drop (length (comps r)) q)
     else if under (comps s) q then None else lookup f q)"
proof -
  define a where "a = comps s"
  define b where "b = comps r"
  obtain n where f': "nodes f' = move_nodes a b (nodes f)" and ab: "\<not> under a b"
    and bdir: "is_dir_at f b \<longrightarrow> children f b = []"
    unfolding a_def b_def using os_renameE [OF ok ne] by blast
  define xs where "xs = AList.delete b (nodes f)"
  have nb: "\<not> under b p" if "p \<in> fst ` set xs" for p
    using nothing_below_target [OF wf bdir] that by (simp add: xs_def)
  have look: "lookup f' q = map_of (map (\<lambda>e. (moved a b (fst e), snd e)) xs) q"
    by (simp add: lookup_def f' move_nodes_def xs_def)
  have xsl: "map_of xs p = lookup f p" if "p \<noteq> b" for p
    using that by (simp add: xs_def delete_conv' lookup_def)
  consider t where "q = b @ t" | "\<not> under b q" "under a q" | "\<not> under b q" "\<not> under a q" by (metis underE)
  then show ?thesis
  proof cases
    case 1
    have "(moved a b p = q) = (p = a @ t)" if "p \<in> fst ` set xs" for p
      using nb [OF that] by (auto simp: moved_def 1 elim: underE)
    then have "lookup f' q = map_of xs (a @ t)" unfolding look by (rule map_of_rekey)
    also have "\<dots> = lookup f (a @ t)" using ab by (intro xsl) (auto simp: under_def)
    finally show ?thesis by (simp add: 1 flip: a_def b_def)
  next
    case 2
    then have "moved a b p \<noteq> q" for p by (auto simp: moved_def)
    then have "lookup f' q = None" unfolding look by (intro map_of_rekey_None)
    with 2 show ?thesis by (simp add: a_def b_def)
  next
    case 3
    then have "(moved a b p = q) = (p = q)" for p by (auto simp: moved_def)
    then have "lookup f' q = map_of xs q" unfolding look by (rule map_of_rekey)
    also have "\<dots> = lookup f q" using 3 by (intro xsl) auto
    finally show ?thesis using 3 by (simp add: a_def b_def)
  qed
qed

end
