(* ===== verification/UploadTypes.thy ===== *)
theory UploadTypes
  imports FileSys
begin

text \<open>
  The data of the log upload tool (\<^verbatim>\<open>uploadstblogs/include/uploadstblogs_types.h\<close>), the world
  its functions act on, and the code it calls that is not in the repository.

  A \<^verbatim>\<open>char\<close> array is the string it holds; the sizes of the arrays appear at the calls that cut
  a string to them.  The \<open>outer\<close> state is what other code can change as well: the file system,
  the clock, the advisory locks, and the state \<open>net\<close> of everything beyond the process (server,
  libraries, bus), of an arbitrary type.  The \<open>world\<close> extends it by the static variables of the
  tool and by the trace of what the tool has sent out, in order.

  The functions of the libraries (\<^verbatim>\<open>common_utilities\<close>, \<^verbatim>\<open>uploadutil\<close>, the IARM bus, OpenSSL) are
  the fields of the record \<open>externals\<close>, an argument of every definition that calls them.  They
  get and return the outer state only, so they cannot touch the static variables.
\<close>

named_theorems upload \<open>how the operations of the tool change the trace and the static variables\<close>

subsection \<open>Enumerations\<close>

datatype TriggerType = TRIGGER_SCHEDULED | TRIGGER_MANUAL | TRIGGER_REBOOT | TRIGGER_CRASH
  | TRIGGER_DEBUG | TRIGGER_ONDEMAND | TRIGGER_MEMCAPTURE

text \<open>\<^verbatim>\<open>ctx->trigger_type\<close> is an \<^verbatim>\<open>int\<close>; the enumerators have these values.\<close>

fun trigger_code :: "TriggerType \<Rightarrow> int" where
  "trigger_code TRIGGER_SCHEDULED = 0" | "trigger_code TRIGGER_MANUAL = 1"
| "trigger_code TRIGGER_REBOOT = 2" | "trigger_code TRIGGER_CRASH = 3"
| "trigger_code TRIGGER_DEBUG = 4" | "trigger_code TRIGGER_ONDEMAND = 5"
| "trigger_code TRIGGER_MEMCAPTURE = 6"

datatype Strategy = STRAT_RRD | STRAT_PRIVACY_ABORT | STRAT_NO_LOGS | STRAT_NON_DCM
  | STRAT_ONDEMAND | STRAT_REBOOT | STRAT_DCM

datatype UploadPath = PATH_DIRECT | PATH_CODEBIG | PATH_NONE

datatype UploadResult = UPLOADSTB_SUCCESS | UPLOADSTB_FAILED | UPLOADSTB_ABORTED | UPLOADSTB_RETRY

subsection \<open>Structures\<close>

record UploadSTBLogsParams =
  p_flag :: int
  p_dcm_flag :: int
  p_upload_on_reboot :: bool
  p_upload_protocol :: "cstring option"
  p_upload_http_link :: "cstring option"
  p_trigger_type :: TriggerType
  p_rrd_flag :: bool
  p_rrd_file :: "cstring option"

record RuntimeContext =
  rrd_flag :: int
  dcm_flag :: int
  flag :: int
  upload_on_reboot :: int
  trigger_type :: int
  privacy_do_not_share :: bool
  ocsp_enabled :: bool
  encryption_enable :: bool
  direct_blocked :: bool
  codebig_blocked :: bool
  include_pcap :: bool
  include_dri :: bool
  tls_enabled :: bool
  maintenance_enabled :: bool
  uploadlogsnow_mode :: bool
  archive_ref_time :: int
  log_path :: cstring
  prev_log_path :: cstring
  archive_path :: cstring
  rrd_file :: cstring
  dri_log_path :: cstring
  temp_dir :: cstring
  telemetry_path :: cstring
  dcm_log_file :: cstring
  dcm_log_path :: cstring
  iarm_event_binary :: cstring
  endpoint_url :: cstring
  upload_http_link :: cstring
  presign_url :: cstring
  proxy_bucket :: cstring
  mac_address :: cstring
  device_type :: cstring
  build_type :: cstring
  cert_path :: cstring
  key_path :: cstring
  ca_cert_path :: cstring
  direct_max_attempts :: int
  codebig_max_attempts :: int
  direct_retry_delay :: int
  codebig_retry_delay :: int
  curl_timeout :: int
  curl_tls_timeout :: int

text \<open>\<^verbatim>\<open>memset(ctx, 0, sizeof(RuntimeContext))\<close>.\<close>

definition zero_context :: RuntimeContext where
  "zero_context = \<lparr>rrd_flag = 0, dcm_flag = 0, flag = 0, upload_on_reboot = 0, trigger_type = 0,
     privacy_do_not_share = False, ocsp_enabled = False, encryption_enable = False,
     direct_blocked = False, codebig_blocked = False, include_pcap = False, include_dri = False,
     tls_enabled = False, maintenance_enabled = False, uploadlogsnow_mode = False,
     archive_ref_time = 0, log_path = [], prev_log_path = [], archive_path = [], rrd_file = [],
     dri_log_path = [], temp_dir = [], telemetry_path = [], dcm_log_file = [], dcm_log_path = [],
     iarm_event_binary = [], endpoint_url = [], upload_http_link = [], presign_url = [],
     proxy_bucket = [], mac_address = [], device_type = [], build_type = [], cert_path = [],
     key_path = [], ca_cert_path = [], direct_max_attempts = 0, codebig_max_attempts = 0,
     direct_retry_delay = 0, codebig_retry_delay = 0, curl_timeout = 0, curl_tls_timeout = 0\<rparr>"

record SessionState =
  strategy :: Strategy
  primary :: UploadPath
  fallback :: UploadPath
  direct_attempts :: int
  codebig_attempts :: int
  http_code :: int
  curl_code :: int
  used_fallback :: bool
  success :: bool
  archive_file :: cstring

text \<open>\<^verbatim>\<open>SessionState session = {0};\<close>: the first enumerators are zero.\<close>

definition zero_session :: SessionState where
  "zero_session = \<lparr>strategy = STRAT_RRD, primary = PATH_DIRECT, fallback = PATH_DIRECT,
     direct_attempts = 0, codebig_attempts = 0, http_code = 0, curl_code = 0,
     used_fallback = False, success = False, archive_file = []\<rparr>"

subsection \<open>The world\<close>

text \<open>What leaves the process: telemetry markers, bus events, the calls of the upload library, the
  shell commands, and the pauses.\<close>

datatype event =
    T2Count cstring
  | T2Val cstring cstring
  | SysState int int
  | MaintStatus int
  | MetadataPost cstring cstring cstring
  | S3Put cstring cstring
  | ProxyPut cstring cstring
  | CodeBigPost cstring
  | CodeBigPut cstring cstring
  | Shell cstring
  | Slept int

record 'n outer =
  fs :: fsys
  clock :: int
  flocks :: "(cstring \<times> int) list"
  next_fd :: int
  net :: 'n

record 'n world = "'n outer" +
  trace :: "event list"
  iarm_initialized :: bool
  lock_fd :: int
  g_timestamp_prefix :: cstring
  perm_log_path_storage :: cstring
  g_rbusInitialized :: bool

definition outer_of :: "'n world \<Rightarrow> 'n outer" where
  "outer_of w = \<lparr>fs = fs w, clock = clock w, flocks = flocks w, next_fd = next_fd w, net = net w\<rparr>"

definition set_outer :: "'n outer \<Rightarrow> 'n world \<Rightarrow> 'n world" where
  "set_outer u w = w\<lparr>fs := fs u, clock := clock u, flocks := flocks u, next_fd := next_fd u, net := net u\<rparr>"

text \<open>Calling code outside the repository.\<close>

definition xcall :: "('n outer \<Rightarrow> 'r \<times> 'n outer) \<Rightarrow> 'n world \<Rightarrow> 'r \<times> 'n world" where
  "xcall f w = (case f (outer_of w) of (r, u) \<Rightarrow> (r, set_outer u w))"

definition emit :: "event \<Rightarrow> 'n world \<Rightarrow> 'n world" where
  "emit e w = w\<lparr>trace := trace w @ [e]\<rparr>"

definition sleep :: "int \<Rightarrow> 'n world \<Rightarrow> 'n world" where
  "sleep n w = emit (Slept n) (w\<lparr>clock := clock w + n\<rparr>)"

lemma set_outer_sel [simp]:
  "fs (set_outer u w) = fs u" "clock (set_outer u w) = clock u" "flocks (set_outer u w) = flocks u"
  "next_fd (set_outer u w) = next_fd u" "net (set_outer u w) = net u"
  "trace (set_outer u w) = trace w" "iarm_initialized (set_outer u w) = iarm_initialized w"
  "lock_fd (set_outer u w) = lock_fd w" "g_timestamp_prefix (set_outer u w) = g_timestamp_prefix w"
  "perm_log_path_storage (set_outer u w) = perm_log_path_storage w"
  "g_rbusInitialized (set_outer u w) = g_rbusInitialized w"
  by (simp_all add: set_outer_def)

lemma outer_of_sel [simp]:
  "fs (outer_of w) = fs w" "clock (outer_of w) = clock w" "flocks (outer_of w) = flocks w"
  "next_fd (outer_of w) = next_fd w" "net (outer_of w) = net w"
  by (simp_all add: outer_of_def)

lemma emit_sel [simp]:
  "fs (emit e w) = fs w" "clock (emit e w) = clock w" "flocks (emit e w) = flocks w"
  "next_fd (emit e w) = next_fd w" "net (emit e w) = net w"
  "trace (emit e w) = trace w @ [e]" "iarm_initialized (emit e w) = iarm_initialized w"
  "lock_fd (emit e w) = lock_fd w" "g_timestamp_prefix (emit e w) = g_timestamp_prefix w"
  "perm_log_path_storage (emit e w) = perm_log_path_storage w"
  "g_rbusInitialized (emit e w) = g_rbusInitialized w"
  by (simp_all add: emit_def)

lemma sleep_sel [simp]:
  "fs (sleep n w) = fs w" "clock (sleep n w) = clock w + n" "flocks (sleep n w) = flocks w"
  "next_fd (sleep n w) = next_fd w" "net (sleep n w) = net w"
  "trace (sleep n w) = trace w @ [Slept n]" "iarm_initialized (sleep n w) = iarm_initialized w"
  "lock_fd (sleep n w) = lock_fd w" "g_timestamp_prefix (sleep n w) = g_timestamp_prefix w"
  "perm_log_path_storage (sleep n w) = perm_log_path_storage w"
  "g_rbusInitialized (sleep n w) = g_rbusInitialized w"
  by (simp_all add: sleep_def)

lemma xcall_keeps:
  assumes "xcall f w = (r, w')"
  shows "trace w' = trace w" "iarm_initialized w' = iarm_initialized w" "lock_fd w' = lock_fd w"
    "g_timestamp_prefix w' = g_timestamp_prefix w"
    "perm_log_path_storage w' = perm_log_path_storage w"
    "g_rbusInitialized w' = g_rbusInitialized w"
  using assms by (auto simp: xcall_def split: prod.splits)

text \<open>Agreement of two worlds on the static variables other than the state of the bus.\<close>

definition same_statics :: "'n world \<Rightarrow> 'n world \<Rightarrow> bool" where
  "same_statics w w' =
     (lock_fd w' = lock_fd w \<and> g_timestamp_prefix w' = g_timestamp_prefix w \<and>
      perm_log_path_storage w' = perm_log_path_storage w \<and> g_rbusInitialized w' = g_rbusInitialized w)"

lemma same_statics_refl [simp]: "same_statics w w"
  by (simp add: same_statics_def)

lemma same_statics_emit [simp]:
  "same_statics v (emit e w) = same_statics v w" "same_statics v (sleep n w) = same_statics v w"
  "same_statics (emit e w) v = same_statics w v" "same_statics (sleep n w) v = same_statics w v"
  by (simp_all add: same_statics_def)

lemma same_statics_update [simp]:
  "same_statics v (w\<lparr>fs := g\<rparr>) = same_statics v w" "same_statics v (w\<lparr>iarm_initialized := b\<rparr>) = same_statics v w"
  "same_statics (w\<lparr>fs := g\<rparr>) v = same_statics w v"
  by (simp_all add: same_statics_def)

lemma same_statics_trans: "same_statics u v \<Longrightarrow> same_statics v w \<Longrightarrow> same_statics u w"
  by (simp add: same_statics_def)

lemma xcall_statics: "xcall f w = (r, w') \<Longrightarrow> same_statics w w' \<and> trace w' = trace w \<and>
    iarm_initialized w' = iarm_initialized w"
  by (auto simp: same_statics_def dest: xcall_keeps)

text \<open>\<open>extends P w w'\<close>: between the two worlds only events that satisfy \<open>P\<close> have left the process, and
  the static variables are as before.\<close>

definition extends :: "(event \<Rightarrow> bool) \<Rightarrow> 'n world \<Rightarrow> 'n world \<Rightarrow> bool" where
  "extends P w w' = ((\<exists>t. trace w' = trace w @ t \<and> list_all P t) \<and> same_statics w w')"

lemma extends_refl [simp]: "extends P w w"
  by (auto simp: extends_def)

lemma extends_trans: "extends P u v \<Longrightarrow> extends P v w \<Longrightarrow> extends P u w"
  by (auto simp: extends_def intro: same_statics_trans)

lemma extends_emit: "extends P w v \<Longrightarrow> P e \<Longrightarrow> extends P w (emit e v)"
  by (auto simp: extends_def)

lemma extends_sleep: "extends P w v \<Longrightarrow> P (Slept n) \<Longrightarrow> extends P w (sleep n v)"
  by (auto simp: extends_def)

lemma extends_xcall: "extends P w v \<Longrightarrow> xcall f v = (r, v') \<Longrightarrow> extends P w v'"
  using xcall_statics [of f v r v'] by (auto simp: extends_def intro: same_statics_trans)

lemma extends_mono: "extends P w v \<Longrightarrow> (\<And>e. P e \<Longrightarrow> Q e) \<Longrightarrow> extends Q w v"
  by (auto simp: extends_def list_all_iff)

lemma extends_update [simp]:
  "extends P w (v\<lparr>fs := g\<rparr>) = extends P w v" "extends P w (v\<lparr>iarm_initialized := b\<rparr>) = extends P w v"
  by (simp_all add: extends_def)

text \<open>How often an event has left the process.\<close>

fun count_ev :: "event \<Rightarrow> event list \<Rightarrow> nat" where
  "count_ev e [] = 0"
| "count_ev e (x # xs) = (if x = e then Suc (count_ev e xs) else count_ev e xs)"

lemma count_ev_append [simp]: "count_ev e (xs @ ys) = count_ev e xs + count_ev e ys"
  by (induction xs) auto

lemma count_ev_none: "list_all P xs \<Longrightarrow> \<not> P e \<Longrightarrow> count_ev e xs = 0"
  by (induction xs) auto

lemma extends_count: "extends P w v \<Longrightarrow> \<not> P e \<Longrightarrow> count_ev e (trace v) = count_ev e (trace w)"
  by (auto simp: extends_def count_ev_none)

text \<open>The seconds slept.\<close>

fun pause :: "event list \<Rightarrow> int" where
  "pause [] = 0"
| "pause (Slept n # xs) = n + pause xs"
| "pause (x # xs) = pause xs"

lemma pause_append [simp]: "pause (xs @ ys) = pause xs + pause ys"
  by (induction xs rule: pause.induct) auto

lemma pause_none: "list_all P xs \<Longrightarrow> (\<And>n. \<not> P (Slept n)) \<Longrightarrow> pause xs = 0"
  by (induction xs rule: pause.induct) auto

lemma extends_pause: "extends P w v \<Longrightarrow> (\<And>n. \<not> P (Slept n)) \<Longrightarrow> pause (trace v) = pause (trace w)"
  by (auto simp: extends_def pause_none)

subsection \<open>Code outside the repository\<close>

type_synonym auth = string

datatype IARM_Result = IARM_RESULT_SUCCESS | IARM_RESULT_INVALID_STATE | IARM_RESULT_FAILURE

text \<open>One round of \<^verbatim>\<open>select\<close> and \<^verbatim>\<open>read\<close> on the inotify descriptor: interrupted, failed, timed out,
  nothing read, or the names of the events read.\<close>

datatype select_result = SelInterrupted | SelFailed | SelTimeout | SelNothing | SelNames "cstring list"

record 'n externals =
  filePresentCheck :: "'n outer \<Rightarrow> cstring \<Rightarrow> int"
  folderCheck :: "'n outer \<Rightarrow> cstring \<Rightarrow> int"
  createDir :: "cstring \<Rightarrow> 'n outer \<Rightarrow> int \<times> 'n outer"
  removeFile :: "cstring \<Rightarrow> 'n outer \<Rightarrow> int \<times> 'n outer"
  emptyFolder :: "cstring \<Rightarrow> 'n outer \<Rightarrow> int \<times> 'n outer"
  copyFiles :: "cstring \<Rightarrow> cstring \<Rightarrow> 'n outer \<Rightarrow> int \<times> 'n outer"
  getFileSize :: "'n outer \<Rightarrow> cstring \<Rightarrow> int"
  getDevicePropertyData :: "'n outer \<Rightarrow> cstring \<Rightarrow> nat \<Rightarrow> cstring option"
  getIncludePropertyData :: "'n outer \<Rightarrow> cstring \<Rightarrow> nat \<Rightarrow> cstring option"
  GetEstbMac :: "'n outer \<Rightarrow> nat \<Rightarrow> cstring"
  v_secure_system :: "cstring \<Rightarrow> 'n outer \<Rightarrow> int \<times> 'n outer"
  rbus_open :: "'n outer \<Rightarrow> int \<times> 'n outer"
  rbus_get_string :: "'n outer \<Rightarrow> cstring \<Rightarrow> cstring option"
  rbus_get_bool :: "'n outer \<Rightarrow> cstring \<Rightarrow> bool option"
  IARM_Bus_IsConnected :: "'n outer \<Rightarrow> int \<times> 'n outer"
  IARM_Bus_Init :: "'n outer \<Rightarrow> IARM_Result \<times> 'n outer"
  IARM_Bus_Connect :: "'n outer \<Rightarrow> IARM_Result \<times> 'n outer"
  IARM_Bus_BroadcastEvent :: "event \<Rightarrow> 'n outer \<Rightarrow> IARM_Result \<times> 'n outer"
  IARM_Bus_Disconnect_Term :: "'n outer \<Rightarrow> unit \<times> 'n outer"
  evp_md5 :: "cstring \<Rightarrow> u8 list option"
  uploadutil_set_ocsp :: "bool \<Rightarrow> 'n outer \<Rightarrow> unit \<times> 'n outer"
  uploadutil_get_status :: "'n outer \<Rightarrow> int \<times> int"
  performMetadataPostWithCertRotationEx ::
    "cstring \<Rightarrow> cstring \<Rightarrow> cstring \<Rightarrow> 'n outer \<Rightarrow> (int \<times> auth \<times> int) \<times> 'n outer"
  extractS3PresignedUrl :: "'n outer \<Rightarrow> cstring \<Rightarrow> nat \<Rightarrow> int \<times> cstring"
  performS3PutWithCert :: "cstring \<Rightarrow> cstring \<Rightarrow> auth \<Rightarrow> 'n outer \<Rightarrow> int \<times> 'n outer"
  performS3PutUploadEx ::
    "cstring \<Rightarrow> cstring \<Rightarrow> cstring option \<Rightarrow> bool \<Rightarrow> 'n outer \<Rightarrow> (int \<times> int \<times> int) \<times> 'n outer"
  performCodeBigMetadataPost :: "cstring \<Rightarrow> cstring option \<Rightarrow> 'n outer \<Rightarrow> (int \<times> int) \<times> 'n outer"
  performCodeBigS3Put :: "cstring \<Rightarrow> cstring \<Rightarrow> 'n outer \<Rightarrow> int \<times> 'n outer"
  st_mode_of :: "'n outer \<Rightarrow> cstring \<Rightarrow> nat"
  gzip_bytes :: "cstring \<Rightarrow> cstring"
  gzwrite_ok :: "'n outer \<Rightarrow> nat \<Rightarrow> bool"
  gzclose_ok :: "'n outer \<Rightarrow> bool"
  alloc_ok :: "'n outer \<Rightarrow> bool"
  jsonrpc :: "cstring \<Rightarrow> 'n outer \<Rightarrow> (int \<times> cstring) \<times> 'n outer"
  json_result_status :: "cstring \<Rightarrow> cstring option"
  inotify_init1 :: "'n outer \<Rightarrow> int"
  inotify_add_watch :: "'n outer \<Rightarrow> cstring \<Rightarrow> int"
  clock_monotonic :: "'n outer \<Rightarrow> int option"
  inotify_select :: "'n outer \<Rightarrow> select_result \<times> 'n outer"
  ctime_text :: "'n outer \<Rightarrow> int \<Rightarrow> cstring option"

end
