(* ===== verification/Environment.thy ===== *)
theory Environment
  imports UploadTypes
begin

text \<open>
  One concrete surrounding of the upload tool, on which the witnesses of the properties run.  The
  file utilities do on the tree what the functions of \<^verbatim>\<open>common_utilities\<close> do on the device; the
  server and the bus answer from a script of replies.  No property is about this surrounding:
  the properties hold for every \<open>externals\<close>, or for those that satisfy \<open>file_utilities\<close>, the
  documented behaviour of the file utilities.
\<close>

subsection \<open>The documented behaviour of the file utilities\<close>

definition file_utilities :: "'n externals \<Rightarrow> bool" where
  "file_utilities E =
     ((\<forall>u p. filePresentCheck E u p = (if os_stat (fs u) p = None then -1 else 0)) \<and>
      (\<forall>u p. folderCheck E u p = (case os_stat (fs u) p of None \<Rightarrow> 0 | Some n \<Rightarrow> if is_dir n then 1 else 0)) \<and>
      (\<forall>u p. createDir E p u =
         (if (case os_stat (fs u) p of None \<Rightarrow> False | Some n \<Rightarrow> is_dir n) then (0, u)
          else case os_mkdir (fs u) p (clock u) of Inl e \<Rightarrow> (-1, u) | Inr g \<Rightarrow> (0, u\<lparr>fs := g\<rparr>))) \<and>
      (\<forall>u p. removeFile E p u =
         (case os_unlink (fs u) p of Inl e \<Rightarrow> (-1, u) | Inr g \<Rightarrow> (0, u\<lparr>fs := g\<rparr>))))"

subsection \<open>A script of replies\<close>

text \<open>What \<^verbatim>\<open>copyFiles\<close> does: the destination is written as a whole, or nothing is.\<close>

definition copy_utility :: "'n externals \<Rightarrow> bool" where
  "copy_utility E =
     (\<forall>u a b. copyFiles E a b u =
        (case os_read (fs u) a of None \<Rightarrow> (-1, u)
         | Some d \<Rightarrow> (case os_write (fs u) b d (clock u) of None \<Rightarrow> (-1, u) | Some g \<Rightarrow> (0, u\<lparr>fs := g\<rparr>))))"

text \<open>\<open>posts\<close> and \<open>puts\<close> are the HTTP and curl codes of the coming requests; \<open>last_status\<close> is what
  the upload library remembers of the last request.\<close>

record script =
  posts :: "(int \<times> int) list"
  puts :: "(int \<times> int) list"
  cbposts :: "(int \<times> int) list"
  last_status :: "int \<times> int"
  bus :: bool
  codebig_access :: bool
  device_props :: "(cstring \<times> cstring) list"
  bools :: "(cstring \<times> bool) list"

fun pop :: "(int \<times> int) list \<Rightarrow> (int \<times> int) \<times> (int \<times> int) list" where
  "pop [] = ((0, 7), [])"
| "pop (r # rs) = (r, rs)"

definition under_entries :: "path \<Rightarrow> (path \<times> node) list \<Rightarrow> (path \<times> node) list" where
  "under_entries d xs = filter (\<lambda>e. \<not> (under d (fst e) \<and> fst e \<noteq> d)) xs"

definition script_write :: "script outer \<Rightarrow> cstring \<Rightarrow> cstring \<Rightarrow> script outer" where
  "script_write u p txt = (case os_write (fs u) p txt (clock u) of None \<Rightarrow> u | Some g \<Rightarrow> u\<lparr>fs := g\<rparr>)"

text \<open>Each function is a constant of its own, so that evaluation unfolds it only when it is called.\<close>

definition script_filePresentCheck :: "script outer \<Rightarrow> cstring \<Rightarrow> int" where
  "script_filePresentCheck u p = (if os_stat (fs u) p = None then -1 else 0)"

definition script_folderCheck :: "script outer \<Rightarrow> cstring \<Rightarrow> int" where
  "script_folderCheck u p = (case os_stat (fs u) p of None \<Rightarrow> 0 | Some n \<Rightarrow> if is_dir n then 1 else 0)"

definition script_createDir :: "cstring \<Rightarrow> script outer \<Rightarrow> int \<times> script outer" where
  "script_createDir p u =
     (if (case os_stat (fs u) p of None \<Rightarrow> False | Some n \<Rightarrow> is_dir n) then (0, u)
      else case os_mkdir (fs u) p (clock u) of Inl e \<Rightarrow> (-1, u) | Inr g \<Rightarrow> (0, u\<lparr>fs := g\<rparr>))"

definition script_removeFile :: "cstring \<Rightarrow> script outer \<Rightarrow> int \<times> script outer" where
  "script_removeFile p u = (case os_unlink (fs u) p of Inl e \<Rightarrow> (-1, u) | Inr g \<Rightarrow> (0, u\<lparr>fs := g\<rparr>))"

definition script_emptyFolder :: "cstring \<Rightarrow> script outer \<Rightarrow> int \<times> script outer" where
  "script_emptyFolder p u = ((0, u\<lparr>fs := (fs u)\<lparr>nodes := under_entries (comps p) (nodes (fs u))\<rparr>\<rparr>))"

definition script_copyFiles :: "cstring \<Rightarrow> cstring \<Rightarrow> script outer \<Rightarrow> int \<times> script outer" where
  "script_copyFiles a b u = (case os_read (fs u) a of None \<Rightarrow> (-1, u)
        | Some d \<Rightarrow> (case os_write (fs u) b d (clock u) of None \<Rightarrow> (-1, u) | Some g \<Rightarrow> (0, u\<lparr>fs := g\<rparr>)))"

definition script_getFileSize :: "script outer \<Rightarrow> cstring \<Rightarrow> int" where
  "script_getFileSize u p = (case os_stat (fs u) p of None \<Rightarrow> -1
        | Some n \<Rightarrow> (case n of Reg d m \<Rightarrow> int (length d) | Dir m \<Rightarrow> 4096 | Lnk t m \<Rightarrow> 0))"

definition script_getDevicePropertyData :: "script outer \<Rightarrow> cstring \<Rightarrow> nat \<Rightarrow> cstring option" where
  "script_getDevicePropertyData u k n = (map_option (take (n - 1)) (map_of (device_props (net u)) k))"

definition script_getIncludePropertyData :: "script outer \<Rightarrow> cstring \<Rightarrow> nat \<Rightarrow> cstring option" where
  "script_getIncludePropertyData u k n = (map_option (take (n - 1)) (map_of (device_props (net u)) k))"

definition script_GetEstbMac :: "script outer \<Rightarrow> nat \<Rightarrow> cstring" where
  "script_GetEstbMac u n = (''A8:4A:63:00:00:01'')"

definition script_v_secure_system :: "cstring \<Rightarrow> script outer \<Rightarrow> int \<times> script outer" where
  "script_v_secure_system c u = ((if codebig_access (net u) then 0 else 1, u))"

definition script_rbus_open :: "script outer \<Rightarrow> int \<times> script outer" where
  "script_rbus_open u = ((if bus (net u) then 0 else 1, u))"

definition script_rbus_get_string :: "script outer \<Rightarrow> cstring \<Rightarrow> cstring option" where
  "script_rbus_get_string u k = (map_of (device_props (net u)) k)"

definition script_rbus_get_bool :: "script outer \<Rightarrow> cstring \<Rightarrow> bool option" where
  "script_rbus_get_bool u k = (map_of (bools (net u)) k)"

definition script_IARM_Bus_IsConnected :: "script outer \<Rightarrow> int \<times> script outer" where
  "script_IARM_Bus_IsConnected u = ((if bus (net u) then 1 else 0, u))"

definition script_IARM_Bus_Init :: "script outer \<Rightarrow> IARM_Result \<times> script outer" where
  "script_IARM_Bus_Init u = ((IARM_RESULT_FAILURE, u))"

definition script_IARM_Bus_Connect :: "script outer \<Rightarrow> IARM_Result \<times> script outer" where
  "script_IARM_Bus_Connect u = ((IARM_RESULT_FAILURE, u))"

definition script_IARM_Bus_BroadcastEvent :: "event \<Rightarrow> script outer \<Rightarrow> IARM_Result \<times> script outer" where
  "script_IARM_Bus_BroadcastEvent e u = ((IARM_RESULT_SUCCESS, u))"

definition script_IARM_Bus_Disconnect_Term :: "script outer \<Rightarrow> unit \<times> script outer" where
  "script_IARM_Bus_Disconnect_Term u = (((), u))"

definition script_evp_md5 :: "cstring \<Rightarrow> u8 list option" where
  "script_evp_md5 d = (Some (replicate 16 (of_nat (length d))))"

definition script_uploadutil_set_ocsp :: "bool \<Rightarrow> script outer \<Rightarrow> unit \<times> script outer" where
  "script_uploadutil_set_ocsp b u = (((), u))"

definition script_uploadutil_get_status :: "script outer \<Rightarrow> int \<times> int" where
  "script_uploadutil_get_status u = (last_status (net u))"

definition script_performMetadataPostWithCertRotationEx :: "cstring \<Rightarrow> cstring \<Rightarrow> cstring \<Rightarrow> script outer \<Rightarrow> (int \<times> auth \<times> int) \<times> script outer" where
  "script_performMetadataPostWithCertRotationEx url outfile flds u = ((case pop (posts (net u)) of (r, rs) \<Rightarrow>
           ((snd r, ''cert'', fst r),
            script_write (u\<lparr>net := (net u)\<lparr>posts := rs, last_status := r\<rparr>\<rparr>) outfile ''https://s3.example/bucket/f?sig'')))"

definition script_extractS3PresignedUrl :: "script outer \<Rightarrow> cstring \<Rightarrow> nat \<Rightarrow> int \<times> cstring" where
  "script_extractS3PresignedUrl u file n = (case os_read (fs u) file of None \<Rightarrow> (-1, []) | Some d \<Rightarrow> (0, take (n - 1) d))"

definition script_performS3PutWithCert :: "cstring \<Rightarrow> cstring \<Rightarrow> auth \<Rightarrow> script outer \<Rightarrow> int \<times> script outer" where
  "script_performS3PutWithCert url file auth u = ((case pop (puts (net u)) of (r, rs) \<Rightarrow>
           (snd r, script_write (u\<lparr>net := (net u)\<lparr>puts := rs, last_status := r\<rparr>\<rparr>)
                     ''/tmp/logupload_curl_info'' (int_dec (fst r)))))"

definition script_performS3PutUploadEx :: "cstring \<Rightarrow> cstring \<Rightarrow> cstring option \<Rightarrow> bool \<Rightarrow> script outer \<Rightarrow> (int \<times> int \<times> int) \<times> script outer" where
  "script_performS3PutUploadEx url file md5 ocsp u = ((case pop (puts (net u)) of (r, rs) \<Rightarrow>
           ((snd r, snd r, fst r), u\<lparr>net := (net u)\<lparr>puts := rs, last_status := r\<rparr>\<rparr>)))"

definition script_performCodeBigMetadataPost :: "cstring \<Rightarrow> cstring option \<Rightarrow> script outer \<Rightarrow> (int \<times> int) \<times> script outer" where
  "script_performCodeBigMetadataPost file md5 u = ((case pop (cbposts (net u)) of (r, rs) \<Rightarrow>
           ((snd r, fst r), u\<lparr>net := (net u)\<lparr>cbposts := rs, last_status := r\<rparr>\<rparr>)))"

definition script_performCodeBigS3Put :: "cstring \<Rightarrow> cstring \<Rightarrow> script outer \<Rightarrow> int \<times> script outer" where
  "script_performCodeBigS3Put url file u = ((case pop (puts (net u)) of (r, rs) \<Rightarrow>
           (snd r, u\<lparr>net := (net u)\<lparr>puts := rs, last_status := r\<rparr>\<rparr>)))"

definition script_st_mode_of :: "script outer \<Rightarrow> cstring \<Rightarrow> nat" where
  "script_st_mode_of u p = 420"

definition script_gzip_bytes :: "cstring \<Rightarrow> cstring" where
  "script_gzip_bytes d = d"

definition script_gzwrite_ok :: "script outer \<Rightarrow> nat \<Rightarrow> bool" where
  "script_gzwrite_ok u n = True"

definition script_gzclose_ok :: "script outer \<Rightarrow> bool" where
  "script_gzclose_ok u = True"

definition script_alloc_ok :: "script outer \<Rightarrow> bool" where
  "script_alloc_ok u = True"

definition script_jsonrpc :: "cstring \<Rightarrow> script outer \<Rightarrow> (int \<times> cstring) \<times> script outer" where
  "script_jsonrpc d u = ((0, ''{}''), u)"

definition script_json_result_status :: "cstring \<Rightarrow> cstring option" where
  "script_json_result_status d = None"

definition script_inotify_init1 :: "script outer \<Rightarrow> int" where
  "script_inotify_init1 u = -1"

definition script_inotify_add_watch :: "script outer \<Rightarrow> cstring \<Rightarrow> int" where
  "script_inotify_add_watch u p = -1"

definition script_clock_monotonic :: "script outer \<Rightarrow> int option" where
  "script_clock_monotonic u = Some (clock u)"

definition script_inotify_select :: "script outer \<Rightarrow> select_result \<times> script outer" where
  "script_inotify_select u = (SelTimeout, u\<lparr>clock := clock u + 2\<rparr>)"

definition script_ctime_text :: "script outer \<Rightarrow> int \<Rightarrow> cstring option" where
  "script_ctime_text u t = None"

lemmas script_defs =
  script_filePresentCheck_def
  script_folderCheck_def
  script_createDir_def
  script_removeFile_def
  script_emptyFolder_def
  script_copyFiles_def
  script_getFileSize_def
  script_getDevicePropertyData_def
  script_getIncludePropertyData_def
  script_GetEstbMac_def
  script_v_secure_system_def
  script_rbus_open_def
  script_rbus_get_string_def
  script_rbus_get_bool_def
  script_IARM_Bus_IsConnected_def
  script_IARM_Bus_Init_def
  script_IARM_Bus_Connect_def
  script_IARM_Bus_BroadcastEvent_def
  script_IARM_Bus_Disconnect_Term_def
  script_evp_md5_def
  script_uploadutil_set_ocsp_def
  script_uploadutil_get_status_def
  script_performMetadataPostWithCertRotationEx_def
  script_extractS3PresignedUrl_def
  script_performS3PutWithCert_def
  script_performS3PutUploadEx_def
  script_performCodeBigMetadataPost_def
  script_performCodeBigS3Put_def
  script_st_mode_of_def
  script_gzip_bytes_def
  script_gzwrite_ok_def
  script_gzclose_ok_def
  script_alloc_ok_def
  script_jsonrpc_def
  script_json_result_status_def
  script_inotify_init1_def
  script_inotify_add_watch_def
  script_clock_monotonic_def
  script_inotify_select_def
  script_ctime_text_def

definition script_externals :: "script externals" where
  "script_externals = \<lparr>
     filePresentCheck = script_filePresentCheck,
     folderCheck = script_folderCheck,
     createDir = script_createDir,
     removeFile = script_removeFile,
     emptyFolder = script_emptyFolder,
     copyFiles = script_copyFiles,
     getFileSize = script_getFileSize,
     getDevicePropertyData = script_getDevicePropertyData,
     getIncludePropertyData = script_getIncludePropertyData,
     GetEstbMac = script_GetEstbMac,
     v_secure_system = script_v_secure_system,
     rbus_open = script_rbus_open,
     rbus_get_string = script_rbus_get_string,
     rbus_get_bool = script_rbus_get_bool,
     IARM_Bus_IsConnected = script_IARM_Bus_IsConnected,
     IARM_Bus_Init = script_IARM_Bus_Init,
     IARM_Bus_Connect = script_IARM_Bus_Connect,
     IARM_Bus_BroadcastEvent = script_IARM_Bus_BroadcastEvent,
     IARM_Bus_Disconnect_Term = script_IARM_Bus_Disconnect_Term,
     evp_md5 = script_evp_md5,
     uploadutil_set_ocsp = script_uploadutil_set_ocsp,
     uploadutil_get_status = script_uploadutil_get_status,
     performMetadataPostWithCertRotationEx = script_performMetadataPostWithCertRotationEx,
     extractS3PresignedUrl = script_extractS3PresignedUrl,
     performS3PutWithCert = script_performS3PutWithCert,
     performS3PutUploadEx = script_performS3PutUploadEx,
     performCodeBigMetadataPost = script_performCodeBigMetadataPost,
     performCodeBigS3Put = script_performCodeBigS3Put,
     st_mode_of = script_st_mode_of,
     gzip_bytes = script_gzip_bytes,
     gzwrite_ok = script_gzwrite_ok,
     gzclose_ok = script_gzclose_ok,
     alloc_ok = script_alloc_ok,
     jsonrpc = script_jsonrpc,
     json_result_status = script_json_result_status,
     inotify_init1 = script_inotify_init1,
     inotify_add_watch = script_inotify_add_watch,
     clock_monotonic = script_clock_monotonic,
     inotify_select = script_inotify_select,
     ctime_text = script_ctime_text\<rparr>"

lemma script_file_utilities: "file_utilities script_externals"
  by (simp add: file_utilities_def script_externals_def script_defs split: sum.splits)

lemma script_copy_utility: "copy_utility script_externals"
  by (simp add: copy_utility_def script_externals_def script_defs split: option.splits)

definition quiet_script :: script where
  "quiet_script = \<lparr>posts = [], puts = [], cbposts = [], last_status = (0, 0), bus = True, codebig_access = True,
     device_props = [(''ENABLE_MAINTENANCE'', ''true'')], bools = []\<rparr>"

definition sample_world :: "script \<Rightarrow> (path \<times> node) list \<Rightarrow> script world" where
  "sample_world s ns = \<lparr>fs = \<lparr>nodes = ns, denied = []\<rparr>, clock = 1700000000, flocks = [], next_fd = 3, net = s,
     trace = [], iarm_initialized = False, lock_fd = -1, g_timestamp_prefix = [],
     perm_log_path_storage = [], g_rbusInitialized = False\<rparr>"

end
