(* ===== verification/EventManager.thy ===== *)
theory EventManager
  imports UploadTypes
begin

text \<open>
  The event manager (\<^verbatim>\<open>uploadstblogs/src/event_manager.c\<close>): what the tool reports to the system
  manager and the maintenance manager over the IARM bus, and the telemetry counters of an
  upload.  The model is the build of \<^verbatim>\<open>Makefile.am\<close>: \<^verbatim>\<open>IARM_ENABLED\<close>, \<^verbatim>\<open>EN_MAINTENANCE_MANAGER\<close> and
  \<^verbatim>\<open>T2_EVENT_ENABLED\<close> are defined.  A broadcast is in the trace as soon as the bus call is made,
  whatever the bus answers.
\<close>

subsection \<open>Telemetry\<close>

definition t2_count_notify :: "cstring \<Rightarrow> 'n world \<Rightarrow> 'n world" where
  "t2_count_notify marker w = emit (T2Count marker) w"

definition t2_val_notify :: "cstring \<Rightarrow> cstring \<Rightarrow> 'n world \<Rightarrow> 'n world" where
  "t2_val_notify marker v w = emit (T2Val marker v) w"

subsection \<open>The bus connection\<close>

definition iarm_connected :: "IARM_Result \<Rightarrow> bool" where
  "iarm_connected r = (r = IARM_RESULT_SUCCESS \<or> r = IARM_RESULT_INVALID_STATE)"

definition init_iarm_connection :: "'n externals \<Rightarrow> 'n world \<Rightarrow> bool \<times> 'n world" where
  "init_iarm_connection E w =
     (if iarm_initialized w then (True, w)
      else case xcall (IARM_Bus_IsConnected E) w of (registered, w1) \<Rightarrow>
        if registered = 1 then (True, w1\<lparr>iarm_initialized := True\<rparr>)
        else case xcall (IARM_Bus_Init E) w1 of (res, w2) \<Rightarrow>
          if iarm_connected res then
            case xcall (IARM_Bus_Connect E) w2 of (res2, w3) \<Rightarrow>
              if iarm_connected res2 then
                case xcall (IARM_Bus_IsConnected E) w3 of (registered2, w4) \<Rightarrow>
                  if registered2 = 1 then (True, w4\<lparr>iarm_initialized := True\<rparr>) else (False, w4)
              else (False, w3)
          else (False, w2))"

definition LOG_UPLOAD_SUCCESS :: int where "LOG_UPLOAD_SUCCESS = 0"
definition LOG_UPLOAD_FAILED :: int where "LOG_UPLOAD_FAILED = 1"
definition LOG_UPLOAD_ABORTED :: int where "LOG_UPLOAD_ABORTED = 2"
definition MAINT_LOGUPLOAD_COMPLETE :: int where "MAINT_LOGUPLOAD_COMPLETE = 4"
definition MAINT_LOGUPLOAD_ERROR :: int where "MAINT_LOGUPLOAD_ERROR = 5"
definition MAINT_LOGUPLOAD_INPROGRESS :: int where "MAINT_LOGUPLOAD_INPROGRESS = 16"
definition SYSSTATE_LOG_UPLOAD :: int where "SYSSTATE_LOG_UPLOAD = 10"

lemmas event_codes = LOG_UPLOAD_SUCCESS_def LOG_UPLOAD_FAILED_def LOG_UPLOAD_ABORTED_def
  MAINT_LOGUPLOAD_COMPLETE_def MAINT_LOGUPLOAD_ERROR_def MAINT_LOGUPLOAD_INPROGRESS_def
  SYSSTATE_LOG_UPLOAD_def

definition broadcast :: "'n externals \<Rightarrow> event \<Rightarrow> 'n world \<Rightarrow> 'n world" where
  "broadcast E e w = snd (xcall (IARM_Bus_BroadcastEvent E e) (emit e w))"

text \<open>Only \<^verbatim>\<open>LogUploadEvent\<close> with one of the three upload codes is broadcast.\<close>

definition send_iarm_event :: "'n externals \<Rightarrow> cstring \<Rightarrow> int \<Rightarrow> 'n world \<Rightarrow> 'n world" where
  "send_iarm_event E event_name event_code w =
     (case init_iarm_connection E w of (ok, w1) \<Rightarrow>
        if \<not> ok then w1
        else if event_name = ''LogUploadEvent'' \<and>
                (event_code = LOG_UPLOAD_SUCCESS \<or> event_code = LOG_UPLOAD_FAILED \<or>
                 event_code = LOG_UPLOAD_ABORTED)
             then broadcast E (SysState SYSSTATE_LOG_UPLOAD event_code) w1
             else w1)"

definition send_iarm_event_maintenance :: "'n externals \<Rightarrow> int \<Rightarrow> 'n world \<Rightarrow> 'n world" where
  "send_iarm_event_maintenance E code w =
     (case init_iarm_connection E w of (ok, w1) \<Rightarrow>
        if \<not> ok then w1 else broadcast E (MaintStatus code) w1)"

definition cleanup_iarm_connection :: "'n externals \<Rightarrow> 'n world \<Rightarrow> 'n world" where
  "cleanup_iarm_connection E w =
     (if iarm_initialized w
      then (snd (xcall (IARM_Bus_Disconnect_Term E) w))\<lparr>iarm_initialized := False\<rparr> else w)"

subsection \<open>Reports\<close>

text \<open>\<^verbatim>\<open>UTILS_SUCCESS\<close> is \<open>Some\<close> of the value found, cut to the 31 characters of the buffer.\<close>

definition is_maintenance_enabled_em :: "'n externals \<Rightarrow> 'n world \<Rightarrow> bool" where
  "is_maintenance_enabled_em E w =
     (case getDevicePropertyData E (outer_of w) ''ENABLE_MAINTENANCE'' 32 of
        Some v \<Rightarrow> strcasecmp_eq v ''true'' | None \<Rightarrow> False)"

definition is_device_broadband :: "RuntimeContext \<Rightarrow> bool" where
  "is_device_broadband ctx = (device_type ctx = ''broadband'')"

definition emit_privacy_abort :: "'n externals \<Rightarrow> 'n world \<Rightarrow> 'n world" where
  "emit_privacy_abort E w = send_iarm_event_maintenance E MAINT_LOGUPLOAD_COMPLETE w"

definition emit_no_logs_reboot :: "'n externals \<Rightarrow> RuntimeContext \<Rightarrow> 'n world \<Rightarrow> 'n world" where
  "emit_no_logs_reboot E ctx w =
     (if \<not> is_device_broadband ctx \<and> is_maintenance_enabled_em E w \<and> rrd_flag ctx = 0
      then send_iarm_event_maintenance E MAINT_LOGUPLOAD_COMPLETE w else w)"

definition emit_no_logs_ondemand :: "'n externals \<Rightarrow> 'n world \<Rightarrow> 'n world" where
  "emit_no_logs_ondemand E w =
     (if is_maintenance_enabled_em E w then send_iarm_event_maintenance E MAINT_LOGUPLOAD_COMPLETE w else w)"

definition emit_upload_success :: "'n externals \<Rightarrow> RuntimeContext \<Rightarrow> 'n world \<Rightarrow> 'n world" where
  "emit_upload_success E ctx w =
     (let w1 = t2_count_notify ''SYST_INFO_lu_success'' w in
      if uploadlogsnow_mode ctx then w1
      else let w2 = send_iarm_event E ''LogUploadEvent'' LOG_UPLOAD_SUCCESS w1 in
           if \<not> is_device_broadband ctx \<and> is_maintenance_enabled_em E w2 \<and> rrd_flag ctx = 0
           then send_iarm_event_maintenance E MAINT_LOGUPLOAD_COMPLETE w2 else w2)"

definition emit_upload_failure :: "'n externals \<Rightarrow> RuntimeContext \<Rightarrow> 'n world \<Rightarrow> 'n world" where
  "emit_upload_failure E ctx w =
     (let w1 = t2_count_notify ''SYST_ERR_LogUpload_Failed'' w in
      if uploadlogsnow_mode ctx then w1
      else let w2 = send_iarm_event E ''LogUploadEvent'' LOG_UPLOAD_FAILED w1 in
           if \<not> is_device_broadband ctx \<and> is_maintenance_enabled_em E w2
           then send_iarm_event_maintenance E MAINT_LOGUPLOAD_ERROR w2 else w2)"

definition emit_upload_aborted :: "'n externals \<Rightarrow> 'n world \<Rightarrow> 'n world" where
  "emit_upload_aborted E w =
     send_iarm_event_maintenance E MAINT_LOGUPLOAD_ERROR
       (send_iarm_event E ''LogUploadEvent'' LOG_UPLOAD_FAILED w)"

definition emit_folder_missing_error :: "'n externals \<Rightarrow> 'n world \<Rightarrow> 'n world" where
  "emit_folder_missing_error E w = send_iarm_event_maintenance E MAINT_LOGUPLOAD_COMPLETE w"

text \<open>These two only write to the log.\<close>

definition emit_upload_start :: "'n world \<Rightarrow> 'n world" where
  "emit_upload_start w = w"

definition emit_fallback :: "UploadPath \<Rightarrow> UploadPath \<Rightarrow> 'n world \<Rightarrow> 'n world" where
  "emit_fallback a b w = w"

subsection \<open>What the reports change\<close>

lemma init_iarm_connection_trace:
  assumes "init_iarm_connection E w = (ok, w')"
  shows "trace w' = trace w \<and> same_statics w w' \<and> (ok \<longrightarrow> iarm_initialized w')"
  using assms
  by (auto simp: init_iarm_connection_def same_statics_def split: if_splits prod.splits
      dest!: xcall_statics)

lemma init_iarm_connection_again:
  "iarm_initialized w \<Longrightarrow> init_iarm_connection E w = (True, w)"
  by (simp add: init_iarm_connection_def)

lemma broadcast_trace [simp]: "trace (broadcast E e w) = trace w @ [e]"
  by (cases "xcall (IARM_Bus_BroadcastEvent E e) (emit e w)")
    (auto simp: broadcast_def dest: xcall_keeps)

lemma broadcast_iarm [simp]: "iarm_initialized (broadcast E e w) = iarm_initialized w"
  by (cases "xcall (IARM_Bus_BroadcastEvent E e) (emit e w)")
    (auto simp: broadcast_def dest: xcall_keeps)

lemma broadcast_statics [simp]: "same_statics v (broadcast E e w) = same_statics v w"
  by (cases "xcall (IARM_Bus_BroadcastEvent E e) (emit e w)")
    (auto simp: broadcast_def same_statics_def dest: xcall_keeps)

text \<open>The events a report may add, given whether the bus could be reached.\<close>

lemma send_iarm_event_trace:
  assumes "c \<in> {LOG_UPLOAD_SUCCESS, LOG_UPLOAD_FAILED, LOG_UPLOAD_ABORTED}"
  shows "trace (send_iarm_event E ''LogUploadEvent'' c w) =
           trace w @ (if fst (init_iarm_connection E w) then [SysState SYSSTATE_LOG_UPLOAD c] else [])"
    "same_statics w (send_iarm_event E ''LogUploadEvent'' c w)"
    "fst (init_iarm_connection E w) \<Longrightarrow> iarm_initialized (send_iarm_event E ''LogUploadEvent'' c w)"
  using assms
  by (cases "init_iarm_connection E w";
      auto simp: send_iarm_event_def dest!: init_iarm_connection_trace)+

lemma send_iarm_event_maintenance_trace:
  "trace (send_iarm_event_maintenance E c w) =
     trace w @ (if fst (init_iarm_connection E w) then [MaintStatus c] else [])"
  "same_statics w (send_iarm_event_maintenance E c w)"
  by (cases "init_iarm_connection E w";
      auto simp: send_iarm_event_maintenance_def dest!: init_iarm_connection_trace)+

end
