(* ===== verification/FileOps.thy ===== *)
theory FileOps
  imports CivilTime UploadTypes
begin

text \<open>
  The file operations of the upload tool (\<^verbatim>\<open>uploadstblogs/src/file_operations.c\<close>): presence
  checks, directories, copies, the time stamp prefixes put on log files before an upload and
  taken off again, and the clean-up of directories.

  The loops over \<^verbatim>\<open>readdir\<close> run over the names that are in the directory when it is opened.
  Counters that only feed log lines are left out.  The paths are never \<^verbatim>\<open>NULL\<close> in the model.
\<close>

definition MAX_PATH_LENGTH :: nat where "MAX_PATH_LENGTH = 512"

text \<open>Does \<^verbatim>\<open>snprintf(buf, 512, ...)\<close> of this string truncate?\<close>

definition too_long :: "cstring \<Rightarrow> bool" where
  "too_long s = (MAX_PATH_LENGTH \<le> length s)"

subsection \<open>Presence\<close>

definition file_exists :: "'n externals \<Rightarrow> 'n world \<Rightarrow> cstring \<Rightarrow> bool" where
  "file_exists E w p = (p \<noteq> [] \<and> filePresentCheck E (outer_of w) p = 0)"

definition dir_exists :: "'n externals \<Rightarrow> 'n world \<Rightarrow> cstring \<Rightarrow> bool" where
  "dir_exists E w p = (p \<noteq> [] \<and> folderCheck E (outer_of w) p = 1)"

definition get_file_size :: "'n externals \<Rightarrow> 'n world \<Rightarrow> cstring \<Rightarrow> int" where
  "get_file_size E w p =
     (if p = [] then -1 else let size = getFileSize E (outer_of w) p in if 0 \<le> size then size else -1)"

fun first_real_entry :: "string list \<Rightarrow> bool" where
  "first_real_entry [] = False"
| "first_real_entry (n # ns) = (if n = ''.'' \<or> n = ''..'' then first_real_entry ns else True)"

definition is_directory_empty :: "'n externals \<Rightarrow> 'n world \<Rightarrow> cstring \<Rightarrow> bool" where
  "is_directory_empty E w p =
     (if p = [] \<or> \<not> dir_exists E w p then False
      else case os_readdir (fs w) p of None \<Rightarrow> False | Some ns \<Rightarrow> \<not> first_real_entry ns)"

definition has_suffix :: "string \<Rightarrow> cstring \<Rightarrow> bool" where
  "has_suffix suf n = (length suf < length n \<and> drop (length n - length suf) n = suf)"

fun some_log_entry :: "string list \<Rightarrow> bool" where
  "some_log_entry [] = False"
| "some_log_entry (n # ns) =
     (if n = ''.'' \<or> n = ''..'' then some_log_entry ns
      else if has_suffix ''.txt'' n \<or> has_suffix ''.log'' n then True
      else some_log_entry ns)"

definition has_log_files :: "'n externals \<Rightarrow> 'n world \<Rightarrow> cstring \<Rightarrow> bool" where
  "has_log_files E w p =
     (if p = [] \<or> \<not> dir_exists E w p then False
      else case os_readdir (fs w) p of None \<Rightarrow> False | Some ns \<Rightarrow> some_log_entry ns)"

subsection \<open>Paths, files and directories\<close>

definition join_path :: "nat \<Rightarrow> cstring \<Rightarrow> cstring \<Rightarrow> cstring option" where
  "join_path buffer_size dir filename =
     (let has_trailing_slash = (dir \<noteq> [] \<and> last dir = CHR ''/'');
          sep = (if has_trailing_slash then '''' else ''/'');
          required = length dir + length sep + length filename + 1
      in if buffer_size < required then None else Some (dir @ sep @ filename))"

text \<open>The directories \<^verbatim>\<open>create_directory\<close> looks at: the path up to each slash after the first
  character, then the whole path.\<close>

fun strip_slashes :: "cstring \<Rightarrow> cstring" where
  "strip_slashes rev_path =
     (case rev_path of [] \<Rightarrow> [] | c # s \<Rightarrow> if c = CHR ''/'' \<and> s \<noteq> [] then strip_slashes s else rev_path)"

declare strip_slashes.simps [simp del]

fun parent_paths :: "cstring \<Rightarrow> cstring \<Rightarrow> cstring list" where
  "parent_paths done [] = []"
| "parent_paths done (c # s) =
     (if c = CHR ''/'' \<and> done \<noteq> [] then [done] else []) @ parent_paths (done @ [c]) s"

fun make_directories :: "'n externals \<Rightarrow> cstring list \<Rightarrow> 'n world \<Rightarrow> bool \<times> 'n world" where
  "make_directories E [] w = (True, w)"
| "make_directories E (d # ds) w =
     (if dir_exists E w d then make_directories E ds w
      else case xcall (createDir E d) w of (r, w1) \<Rightarrow>
        if r \<noteq> 0 then (False, w1) else make_directories E ds w1)"

definition create_directory :: "'n externals \<Rightarrow> cstring \<Rightarrow> 'n world \<Rightarrow> bool \<times> 'n world" where
  "create_directory E dirpath w =
     (if dirpath = [] then (False, w)
      else if dir_exists E w dirpath then (True, w)
      else let path_copy = rev (strip_slashes (rev (take (MAX_PATH_LENGTH - 1) dirpath)))
           in make_directories E (parent_paths [] path_copy @ [path_copy]) w)"

definition remove_file :: "'n externals \<Rightarrow> cstring \<Rightarrow> 'n world \<Rightarrow> bool \<times> 'n world" where
  "remove_file E p w =
     (if p = [] then (False, w)
      else if \<not> file_exists E w p then (True, w)
      else case xcall (removeFile E p) w of (r, w1) \<Rightarrow> (r = 0, w1))"

text \<open>A system call of the file system on the world.\<close>

definition on_fs :: "(fsys \<Rightarrow> errno + fsys) \<Rightarrow> 'n world \<Rightarrow> bool \<times> 'n world" where
  "on_fs f w = (case f (fs w) of Inl e \<Rightarrow> (False, w) | Inr g \<Rightarrow> (True, w\<lparr>fs := g\<rparr>))"

definition remove_directory :: "'n externals \<Rightarrow> cstring \<Rightarrow> 'n world \<Rightarrow> bool \<times> 'n world" where
  "remove_directory E p w =
     (if p = [] then (False, w)
      else if \<not> dir_exists E w p then (True, w)
      else case xcall (emptyFolder E p) w of (r, w1) \<Rightarrow>
        if r \<noteq> 0 then (False, w1) else on_fs (\<lambda>f. os_rmdir f p) w1)"

definition copy_file :: "'n externals \<Rightarrow> cstring \<Rightarrow> cstring \<Rightarrow> 'n world \<Rightarrow> bool \<times> 'n world" where
  "copy_file E src dest w =
     (if src = [] \<or> dest = [] then (False, w)
      else case xcall (copyFiles E src dest) w of (r, w1) \<Rightarrow> (r = 0, w1))"

definition write_file :: "cstring \<Rightarrow> cstring \<Rightarrow> 'n world \<Rightarrow> bool \<times> 'n world" where
  "write_file p content w =
     (if p = [] then (False, w)
      else case os_write (fs w) p content (clock w) of None \<Rightarrow> (False, w) | Some g \<Rightarrow> (True, w\<lparr>fs := g\<rparr>))"

text \<open>The number of bytes read and the string left in the buffer, \<^const>\<open>None\<close> when the buffer is
  left as it was.\<close>

definition read_file :: "cstring \<Rightarrow> nat \<Rightarrow> 'n world \<Rightarrow> int \<times> cstring option" where
  "read_file p buffer_size w =
     (if p = [] \<or> buffer_size = 0 then (-1, None)
      else case os_read (fs w) p of None \<Rightarrow> (-1, None)
           | Some d \<Rightarrow> let r = take (buffer_size - 1) d in
                       (int (length r), if r = [] then None else Some r))"

subsection \<open>Time stamps\<close>

definition dec2 :: "int \<Rightarrow> cstring" where
  "dec2 n = [char_of (48 + n div 10), char_of (48 + n mod 10)]"

text \<open>\<^verbatim>\<open>strftime(..., "%m-%d-%y-%I-%M%p", tm)\<close>.\<close>

definition stamp :: "tm \<Rightarrow> cstring" where
  "stamp t =
     dec2 (tm_mon t + 1) @ ''-'' @ dec2 (tm_mday t) @ ''-'' @ dec2 (tm_year t mod 100) @ ''-'' @
     dec2 (if tm_hour t mod 12 = 0 then 12 else tm_hour t mod 12) @ ''-'' @ dec2 (tm_min t) @
     (if tm_hour t < 12 then ''AM'' else ''PM'')"

definition rename_entry :: "cstring \<Rightarrow> cstring \<Rightarrow> cstring \<Rightarrow> 'n world \<Rightarrow> bool \<times> 'n world" where
  "rename_entry dir a b w = on_fs (\<lambda>f. os_rename f (slashed dir a) (slashed dir b)) w"

definition skip_timestamp :: "cstring \<Rightarrow> string \<Rightarrow> bool" where
  "skip_timestamp ts n =
     ((n \<noteq> [] \<and> hd n = CHR ''.'') \<or> n = ''..'' \<or> is_prefix ts n \<or>
      is_prefix ''bak1_'' n \<or> is_prefix ''bak2_'' n \<or> is_prefix ''bak3_'' n)"

text \<open>Renaming every name \<open>n\<close> of a list to \<open>new n\<close> when there is one; the number of errors is
  counted.\<close>

fun rename_loop :: "cstring \<Rightarrow> (string \<Rightarrow> string option) \<Rightarrow> string list \<Rightarrow> int \<Rightarrow> 'n world \<Rightarrow> int \<times> 'n world" where
  "rename_loop dir new [] errs w = (errs, w)"
| "rename_loop dir new (n # ns) errs w =
     (case new n of
        None \<Rightarrow> rename_loop dir new ns errs w
      | Some m \<Rightarrow>
          if too_long (slashed dir n) \<or> too_long (slashed dir m) then rename_loop dir new ns errs w
          else case rename_entry dir n m w of (ok, w1) \<Rightarrow>
                 rename_loop dir new ns (if ok then errs else errs + 1) w1)"

definition add_prefix :: "cstring \<Rightarrow> string \<Rightarrow> string option" where
  "add_prefix ts n = (if skip_timestamp ts n then None else Some (ts @ n))"

definition add_timestamp_to_files :: "'n externals \<Rightarrow> cstring \<Rightarrow> 'n world \<Rightarrow> int \<times> 'n world" where
  "add_timestamp_to_files E dir w =
     (if \<not> dir_exists E w dir then (-1, w)
      else case gmtime_r (clock w) of None \<Rightarrow> (-1, w)
      | Some t \<Rightarrow>
          let ts = stamp t @ ''-''; w1 = w\<lparr>g_timestamp_prefix := ts\<rparr> in
          case os_readdir (fs w1) dir of None \<Rightarrow> (-1, w1)
          | Some ns \<Rightarrow>
              case rename_loop dir (add_prefix ts) ns 0 w1 of (errs, w2) \<Rightarrow>
                (if 0 < errs then -1 else 0, w2))"

text \<open>Where \<^verbatim>\<open>remove_timestamp_from_files\<close> cuts a name, if it does.\<close>

definition timestamp_cut :: "cstring \<Rightarrow> string \<Rightarrow> nat option" where
  "timestamp_cut prefix n =
     (if 0 < length prefix \<and> length prefix < length n
      then (if is_prefix prefix n then Some (length prefix) else None)
      else if 19 < length n
      then (if n ! 2 = CHR ''-'' \<and> n ! 5 = CHR ''-'' \<and> n ! 8 = CHR ''-'' \<and> n ! 11 = CHR ''-''
            then (case strstr n ''AM-'' of Some i \<Rightarrow> Some (i + 3)
                  | None \<Rightarrow> (case strstr n ''PM-'' of Some i \<Rightarrow> Some (i + 3) | None \<Rightarrow> None))
            else None)
      else None)"

definition remove_prefix :: "cstring \<Rightarrow> string \<Rightarrow> string option" where
  "remove_prefix prefix n =
     (if (n \<noteq> [] \<and> hd n = CHR ''.'') \<or> n = ''..'' then None
      else case timestamp_cut prefix n of None \<Rightarrow> None
           | Some k \<Rightarrow> if 0 < k \<and> k < length n then Some (drop k n) else None)"

definition remove_timestamp_from_files :: "'n externals \<Rightarrow> cstring \<Rightarrow> 'n world \<Rightarrow> int \<times> 'n world" where
  "remove_timestamp_from_files E dir w =
     (if \<not> dir_exists E w dir then (-1, w)
      else case os_readdir (fs w) dir of None \<Rightarrow> (-1, w)
      | Some ns \<Rightarrow>
          case rename_loop dir (remove_prefix (g_timestamp_prefix w)) ns 0 w of (errs, w2) \<Rightarrow>
            (if 0 < errs then -1 else 0, w2))"

text \<open>The variant of the immediate upload leaves more files alone: those that carry a stamp of
  any time, the reboot log and the ABL reason.\<close>

fun has_stamp :: "string \<Rightarrow> bool" where
  "has_stamp (a # b # c # d # e # f # g # s) =
     ((a = CHR ''-'' \<and> isdigit b \<and> isdigit c \<and> (d = CHR ''A'' \<or> d = CHR ''P'') \<and> e = CHR ''M'' \<and>
       f = CHR ''-'') \<or> has_stamp (b # c # d # e # f # g # s))"
| "has_stamp _ = False"

definition add_prefix_now :: "cstring \<Rightarrow> string \<Rightarrow> string option" where
  "add_prefix_now ts n =
     (if (n \<noteq> [] \<and> hd n = CHR ''.'') \<or> n = ''..'' \<or> is_prefix ts n then None
      else if has_stamp n \<or> n = ''reboot.log'' \<or> n = ''ABLReason.txt'' then None
      else Some (ts @ n))"

definition add_timestamp_to_files_uploadlogsnow :: "'n externals \<Rightarrow> cstring \<Rightarrow> 'n world \<Rightarrow> int \<times> 'n world" where
  "add_timestamp_to_files_uploadlogsnow E dir w =
     (if \<not> dir_exists E w dir then (-1, w)
      else case gmtime_r (clock w) of None \<Rightarrow> (-1, w)
      | Some t \<Rightarrow>
          let ts = stamp t @ ''-''; w1 = w\<lparr>g_timestamp_prefix := ts\<rparr> in
          case os_readdir (fs w1) dir of None \<Rightarrow> (-1, w1)
          | Some ns \<Rightarrow>
              case rename_loop dir (add_prefix_now ts) ns 0 w1 of (errs, w2) \<Rightarrow>
                (if 0 < errs then -1 else 0, w2))"

subsection \<open>Whole directories\<close>

fun move_loop :: "cstring \<Rightarrow> cstring \<Rightarrow> string list \<Rightarrow> int \<Rightarrow> 'n world \<Rightarrow> int \<times> 'n world" where
  "move_loop src dest [] errs w = (errs, w)"
| "move_loop src dest (n # ns) errs w =
     (if n = ''.'' \<or> n = ''..'' then move_loop src dest ns errs w
      else if too_long (slashed src n) \<or> too_long (slashed dest n) then move_loop src dest ns errs w
      else case on_fs (\<lambda>f. os_rename f (slashed src n) (slashed dest n)) w of (ok, w1) \<Rightarrow>
             move_loop src dest ns (if ok then errs else errs + 1) w1)"

definition move_directory_contents :: "'n externals \<Rightarrow> cstring \<Rightarrow> cstring \<Rightarrow> 'n world \<Rightarrow> int \<times> 'n world" where
  "move_directory_contents E src dest w =
     (if \<not> dir_exists E w src then (-1, w)
      else case (if dir_exists E w dest then (True, w) else create_directory E dest w) of (ok, w1) \<Rightarrow>
        if \<not> ok then (-1, w1)
        else case os_readdir (fs w1) src of None \<Rightarrow> (-1, w1)
        | Some ns \<Rightarrow> case move_loop src dest ns 0 w1 of (errs, w2) \<Rightarrow> (if 0 < errs then -1 else 0, w2))"

definition clean_directory :: "'n externals \<Rightarrow> cstring \<Rightarrow> 'n world \<Rightarrow> int \<times> 'n world" where
  "clean_directory E dir w =
     (if \<not> dir_exists E w dir then (-1, w)
      else case xcall (emptyFolder E dir) w of (r, w1) \<Rightarrow> (if r \<noteq> 0 then -1 else 0, w1))"

fun clear_pcap_loop :: "'n externals \<Rightarrow> cstring \<Rightarrow> string list \<Rightarrow> 'n world \<Rightarrow> 'n world" where
  "clear_pcap_loop E dir [] w = w"
| "clear_pcap_loop E dir (n # ns) w =
     (if has_suffix ''.pcap'' n \<and> \<not> too_long (slashed dir n)
      then clear_pcap_loop E dir ns (snd (remove_file E (slashed dir n) w))
      else clear_pcap_loop E dir ns w)"

definition clear_old_packet_captures :: "'n externals \<Rightarrow> cstring \<Rightarrow> 'n world \<Rightarrow> int \<times> 'n world" where
  "clear_old_packet_captures E dir w =
     (if \<not> dir_exists E w dir then (-1, w)
      else case os_readdir (fs w) dir of None \<Rightarrow> (-1, w)
      | Some ns \<Rightarrow> (0, clear_pcap_loop E dir ns w))"

fun remove_old_loop :: "'n externals \<Rightarrow> cstring \<Rightarrow> cstring \<Rightarrow> int \<Rightarrow> string list \<Rightarrow> 'n world \<Rightarrow> 'n world" where
  "remove_old_loop E base pattern cutoff [] w = w"
| "remove_old_loop E base pattern cutoff (n # ns) w =
     (if n = ''.'' \<or> n = ''..'' \<or> strstr n pattern = None \<or> too_long (slashed base n)
      then remove_old_loop E base pattern cutoff ns w
      else case os_stat (fs w) (slashed base n) of
             Some (Dir m) \<Rightarrow>
               if m < cutoff
               then remove_old_loop E base pattern cutoff ns (snd (remove_directory E (slashed base n) w))
               else remove_old_loop E base pattern cutoff ns w
           | Some (Reg d m) \<Rightarrow> remove_old_loop E base pattern cutoff ns w
           | Some (Lnk t m) \<Rightarrow> remove_old_loop E base pattern cutoff ns w
           | None \<Rightarrow> remove_old_loop E base pattern cutoff ns w)"

text \<open>The product \<^verbatim>\<open>days_old * 24 * 60 * 60\<close> is computed in \<^verbatim>\<open>int\<close>.\<close>

definition remove_old_directories :: "'n externals \<Rightarrow> cstring \<Rightarrow> cstring \<Rightarrow> int \<Rightarrow> 'n world \<Rightarrow> int \<times> 'n world" where
  "remove_old_directories E base pattern days_old w =
     (if days_old < 0 then (-1, w)
      else if \<not> dir_exists E w base then (0, w)
      else case os_readdir (fs w) base of None \<Rightarrow> (-1, w)
      | Some ns \<Rightarrow> (0, remove_old_loop E base pattern (clock w - int32 (days_old * 86400)) ns w))"

end
