(* ===== verification/PathHandler.thy ===== *)
theory PathHandler
  imports Environment EventManager FileOps
begin

text \<open>
  One upload attempt on one path: the check of the answer (\<^verbatim>\<open>uploadstblogs/src/verification.c\<close>),
  the base 64 digest of the archive (\<^verbatim>\<open>md5_utils.c\<close>), and the direct path, the CodeBig path and the
  proxy fallback (\<^verbatim>\<open>path_handler.c\<close>).

  The SHA256 of the archive only goes into a log line and is left out.  A result \<^const>\<open>None\<close> is
  undefined behaviour: the proxy fallback copies the path of the presigned URL into a buffer of
  512 bytes whatever its length.
\<close>

subsection \<open>Verification\<close>

definition is_http_success :: "int \<Rightarrow> bool" where
  "is_http_success c = (c = 200)"

definition is_terminal_failure :: "int \<Rightarrow> bool" where
  "is_terminal_failure c = (c = 404)"

definition is_curl_success :: "int \<Rightarrow> bool" where
  "is_curl_success c = (c = 0)"

definition verify_upload :: "SessionState \<Rightarrow> UploadResult" where
  "verify_upload s =
     (if \<not> is_curl_success (curl_code s) then UPLOADSTB_FAILED
      else if http_code s = 200 then UPLOADSTB_SUCCESS else UPLOADSTB_FAILED)"

lemma verify_upload_success:
  "verify_upload s = UPLOADSTB_SUCCESS \<longleftrightarrow> curl_code s = 0 \<and> http_code s = 200"
  "verify_upload s \<noteq> UPLOADSTB_SUCCESS \<longleftrightarrow> verify_upload s = UPLOADSTB_FAILED"
  by (auto simp: verify_upload_def is_curl_success_def)

subsection \<open>Digest\<close>

definition base64_chars :: string where
  "base64_chars = ''ABCDEFGHIJKLMNOPQRSTUVWXYZabcdefghijklmnopqrstuvwxyz0123456789+/''"

definition base64_char :: "32 word \<Rightarrow> char" where
  "base64_char x = base64_chars ! unat (x AND 0x3F)"

definition base64_triple :: "u8 \<Rightarrow> u8 \<Rightarrow> u8 \<Rightarrow> 32 word" where
  "base64_triple a b c = push_bit 16 (ucast a) OR push_bit 8 (ucast b) OR ucast c"

text \<open>The loop, three bytes at a time.\<close>

fun base64_loop :: "u8 list \<Rightarrow> string" where
  "base64_loop [] = []"
| "base64_loop [a] =
     (let t = base64_triple a 0 0 in
      [base64_char (drop_bit 18 t), base64_char (drop_bit 12 t), CHR ''='', CHR ''=''])"
| "base64_loop [a, b] =
     (let t = base64_triple a b 0 in
      [base64_char (drop_bit 18 t), base64_char (drop_bit 12 t), base64_char (drop_bit 6 t), CHR ''=''])"
| "base64_loop (a # b # c # rest) =
     (let t = base64_triple a b c in
      base64_char (drop_bit 18 t) # base64_char (drop_bit 12 t) # base64_char (drop_bit 6 t) #
      base64_char t # base64_loop rest)"

definition base64_encode :: "u8 list \<Rightarrow> nat \<Rightarrow> string option" where
  "base64_encode input output_size =
     (let output_length = ((length input + 2) div 3) * 4 in
      if output_size \<le> output_length then None else Some (base64_loop input))"

text \<open>\<open>evp_md5\<close> is the digest of OpenSSL, or \<^const>\<open>None\<close> when one of its calls fails.\<close>

definition calculate_file_md5 :: "'n externals \<Rightarrow> cstring \<Rightarrow> nat \<Rightarrow> 'n world \<Rightarrow> cstring option" where
  "calculate_file_md5 E filepath output_size w =
     (if output_size < 25 then None
      else case os_read (fs w) filepath of None \<Rightarrow> None
      | Some d \<Rightarrow> (case evp_md5 E d of None \<Rightarrow> None | Some b \<Rightarrow> base64_encode b output_size))"

definition md5_of_archive :: "'n externals \<Rightarrow> RuntimeContext \<Rightarrow> cstring \<Rightarrow> 'n world \<Rightarrow> cstring option" where
  "md5_of_archive E ctx f w = (if encryption_enable ctx then calculate_file_md5 E f 64 w else None)"

subsection \<open>Reports of curl errors\<close>

definition report_curl_error :: "int \<Rightarrow> 'n world \<Rightarrow> 'n world" where
  "report_curl_error c w =
     (if c = 0 then w
      else let w1 = t2_val_notify ''LUCurlErr_split'' (int_dec c) w in
           if c = 28 then t2_count_notify ''SYST_ERR_Curl28'' w1 else w1)"

definition cert_error :: "int \<Rightarrow> bool" where
  "cert_error c = List.member [35, 51, 53, 54, 58, 59, 60, 64, 66, 77, 80, 82, 83, 90, 91] c"

text \<open>The host part of a URL, at most 127 characters.\<close>

definition fqdn_of :: "cstring \<Rightarrow> cstring" where
  "fqdn_of url =
     (case strstr url ''://'' of None \<Rightarrow> []
      | Some i \<Rightarrow> take 127 (takeWhile (\<lambda>c. c \<noteq> CHR ''/'') (drop (i + 3) url)))"

definition report_cert_error :: "int \<Rightarrow> cstring \<Rightarrow> 'n world \<Rightarrow> 'n world" where
  "report_cert_error c url w =
     (if \<not> cert_error c then w
      else if fqdn_of url \<noteq> []
           then t2_val_notify ''certerr_split'' (''STBLogUL, '' @ int_dec c @ '', '' @ take 120 (fqdn_of url)) w
           else t2_val_notify ''certerr_split'' (''STBLogUL, '' @ int_dec c) w)"

definition http_results_file :: "Strategy \<Rightarrow> cstring" where
  "http_results_file s = (if s = STRAT_RRD then ''/tmp/rrd_httpresults.txt'' else ''/tmp/httpresults.txt'')"

subsection \<open>Proxy fallback\<close>

text \<open>The first line of a file as \<^verbatim>\<open>fgets(buf, n, f)\<close> delivers it, without its newline.\<close>

definition first_line :: "nat \<Rightarrow> cstring \<Rightarrow> cstring" where
  "first_line n d = takeWhile (\<lambda>c. c \<noteq> CHR 0x0A) (take (n - 1) d)"

definition index_of :: "char \<Rightarrow> cstring \<Rightarrow> nat option" where
  "index_of c s = (if c \<in> set s then Some (length (takeWhile (\<lambda>x. x \<noteq> c) s)) else None)"

datatype proxy_path = NoProxy | ProxyPath cstring | ProxyUB

text \<open>What is left of the presigned URL for the proxy: the path without the query.  The path in
  front of a query goes through \<^verbatim>\<open>static char clean_path[512]\<close>.\<close>

definition proxy_path_of :: "cstring \<Rightarrow> proxy_path" where
  "proxy_path_of s3_url =
     (case strstr s3_url ''https://'' of None \<Rightarrow> NoProxy
      | Some i \<Rightarrow>
          let b = drop (i + 8) s3_url in
          (case index_of (CHR ''/'') b of
             None \<Rightarrow> (case index_of (CHR ''?'') b of None \<Rightarrow> NoProxy | Some q \<Rightarrow> ProxyPath [])
           | Some p \<Rightarrow>
               (case index_of (CHR ''?'') b of
                  None \<Rightarrow> ProxyPath (drop p b)
                | Some q \<Rightarrow>
                    if q < p then ProxyPath []
                    else if q - p < 512 then ProxyPath (take (q - p) (drop p b)) else ProxyUB)))"

text \<open>\<^verbatim>\<open>snprintf(proxy_url, 1024, "https://%.*s%.*s", ...)\<close>: the precisions never cut, because the
  sum of the lengths was checked.\<close>

definition proxy_url_of :: "cstring \<Rightarrow> cstring \<Rightarrow> cstring option" where
  "proxy_url_of bucket path_part =
     (if 1024 \<le> 8 + length bucket + length path_part + 1 then None
      else Some (''https://'' @ take (1024 - 9 - length path_part - 1) bucket @
                 take (1024 - 9 - length bucket - 1) path_part))"

definition attempt_proxy_fallback ::
  "'n externals \<Rightarrow> RuntimeContext \<Rightarrow> SessionState \<Rightarrow> cstring \<Rightarrow> cstring option \<Rightarrow> 'n world \<Rightarrow>
     (UploadResult \<times> SessionState \<times> 'n world) option" where
  "attempt_proxy_fallback E ctx s archive md5 w =
     (if device_type ctx = [] \<or> device_type ctx \<noteq> ''mediaclient'' \<or> proxy_bucket ctx = []
      then Some (UPLOADSTB_FAILED, s, w)
      else case os_read (fs w) (http_results_file (strategy s)) of
        None \<Rightarrow> Some (UPLOADSTB_FAILED, s, w)
      | Some d \<Rightarrow>
          if d = [] then Some (UPLOADSTB_FAILED, s, w)
          else case proxy_path_of (first_line 1024 d) of
            NoProxy \<Rightarrow> Some (UPLOADSTB_FAILED, s, w)
          | ProxyUB \<Rightarrow> None
          | ProxyPath path_part \<Rightarrow>
              (case proxy_url_of (proxy_bucket ctx) path_part of
                 None \<Rightarrow> Some (UPLOADSTB_FAILED, s, w)
               | Some url \<Rightarrow>
                   (case xcall (performS3PutUploadEx E url archive md5 (ocsp_enabled ctx))
                           (emit (ProxyPut url archive) w) of
                      ((result, curl, http), w1) \<Rightarrow>
                        let s1 = s\<lparr>curl_code := curl, http_code := http\<rparr>;
                            w2 = report_curl_error curl w1
                        in if verify_upload s1 = UPLOADSTB_SUCCESS
                           then Some (UPLOADSTB_SUCCESS, s1\<lparr>success := True\<rparr>, w2)
                           else Some (UPLOADSTB_FAILED, s1, w2))))"

subsection \<open>Direct path\<close>

definition post_fields :: "cstring \<Rightarrow> cstring option \<Rightarrow> cstring" where
  "post_fields archive md5 =
     take 511 (case md5 of
       None \<Rightarrow> ''filename='' @ archive
     | Some m \<Rightarrow> if m = [] then ''filename='' @ archive else ''filename='' @ archive @ ''&md5='' @ m)"

text \<open>The HTTP code is a \<^verbatim>\<open>long\<close> that is stored in an \<^verbatim>\<open>int\<close>.\<close>

definition perform_metadata_post ::
  "'n externals \<Rightarrow> RuntimeContext \<Rightarrow> SessionState \<Rightarrow> cstring \<Rightarrow> cstring \<Rightarrow> cstring option \<Rightarrow> 'n world \<Rightarrow>
     UploadResult \<times> auth \<times> SessionState \<times> 'n world" where
  "perform_metadata_post E ctx s url archive md5 w =
     (case xcall (uploadutil_set_ocsp E (ocsp_enabled ctx)) w of (u, w1) \<Rightarrow>
        let outfile = http_results_file (strategy s); flds = post_fields archive md5 in
        (case xcall (performMetadataPostWithCertRotationEx E url outfile flds)
                (emit (MetadataPost url outfile flds) w1) of
           ((result, auth, http), w2) \<Rightarrow>
             let curl = snd (uploadutil_get_status E (outer_of w2));
                 s1 = s\<lparr>http_code := int32 http, curl_code := curl\<rparr>
             in (verify_upload s1, auth, s1, report_cert_error curl url (report_curl_error curl w2))))"

text \<open>\<^verbatim>\<open>fscanf(f, "%ld", ...)\<close> on the contents of the curl info file.\<close>

definition scan_long :: "cstring \<Rightarrow> int option" where
  "scan_long d = (if snd (snd (strtol10 d)) = d then None else Some (fst (strtol10 d)))"

definition read_curl_info :: "SessionState \<Rightarrow> 'n world \<Rightarrow> SessionState" where
  "read_curl_info s w =
     (case os_read (fs w) ''/tmp/logupload_curl_info'' of None \<Rightarrow> s
      | Some d \<Rightarrow> (case scan_long d of None \<Rightarrow> s\<lparr>http_code := -1\<rparr> | Some v \<Rightarrow> s\<lparr>http_code := int32 v\<rparr>))"

definition perform_s3_put_with_fallback ::
  "'n externals \<Rightarrow> RuntimeContext \<Rightarrow> SessionState \<Rightarrow> cstring \<Rightarrow> cstring option \<Rightarrow> auth \<Rightarrow> 'n world \<Rightarrow>
     (UploadResult \<times> SessionState \<times> 'n world) option" where
  "perform_s3_put_with_fallback E ctx s archive md5 auth w =
     (case extractS3PresignedUrl E (outer_of w) (http_results_file (strategy s)) 1024 of
        (rc, s3_url) \<Rightarrow>
          if rc \<noteq> 0 then Some (UPLOADSTB_FAILED, s, w)
          else case xcall (performS3PutWithCert E s3_url archive auth) (emit (S3Put s3_url archive) w) of
            (s3_result, w1) \<Rightarrow>
              let s1 = (read_curl_info s w1)\<lparr>curl_code := s3_result\<rparr>;
                  w2 = report_curl_error s3_result w1;
                  s3_verified = verify_upload s1
              in if s3_verified = UPLOADSTB_SUCCESS
                 then Some (UPLOADSTB_SUCCESS, s1\<lparr>success := True\<rparr>, t2_count_notify ''TEST_lu_success'' w2)
                 else case attempt_proxy_fallback E ctx s1 archive md5 w2 of
                   None \<Rightarrow> None
                 | Some (proxy_result, s2, w3) \<Rightarrow>
                     if proxy_result = UPLOADSTB_SUCCESS
                     then Some (UPLOADSTB_SUCCESS, s2\<lparr>success := True\<rparr>, w3)
                     else Some (s3_verified, s2\<lparr>success := False\<rparr>,
                                t2_count_notify ''SYST_ERR_LogUpload_Failed'' w3))"

definition execute_direct_path ::
  "'n externals \<Rightarrow> RuntimeContext \<Rightarrow> SessionState \<Rightarrow> 'n world \<Rightarrow>
     (UploadResult \<times> SessionState \<times> 'n world) option" where
  "execute_direct_path E ctx s w =
     (let archive = archive_file s;
          url = (if endpoint_url ctx \<noteq> [] then endpoint_url ctx else upload_http_link ctx)
      in if url = [] then Some (UPLOADSTB_FAILED, s, w)
         else let md5 = md5_of_archive E ctx archive w;
                  w1 = t2_count_notify ''SYST_INFO_mtls_xpki'' w
              in case perform_metadata_post E ctx s url archive md5 w1 of
                   (post_result, auth, s1, w2) \<Rightarrow>
                     if post_result \<noteq> UPLOADSTB_SUCCESS then Some (post_result, s1, w2)
                     else perform_s3_put_with_fallback E ctx s1 archive md5 auth w2)"

subsection \<open>CodeBig path\<close>

definition execute_codebig_path ::
  "'n externals \<Rightarrow> RuntimeContext \<Rightarrow> SessionState \<Rightarrow> 'n world \<Rightarrow>
     (UploadResult \<times> SessionState \<times> 'n world) option" where
  "execute_codebig_path E ctx s w =
     (let archive = archive_file s; md5 = md5_of_archive E ctx archive w in
      case xcall (performCodeBigMetadataPost E archive md5) (emit (CodeBigPost archive) w) of
        ((metadata_result, http), w1) \<Rightarrow>
          if metadata_result \<noteq> 0
          then Some (UPLOADSTB_FAILED, s\<lparr>curl_code := metadata_result, http_code := int32 http\<rparr>, w1)
          else case extractS3PresignedUrl E (outer_of w1) (http_results_file (strategy s)) 1024 of
            (rc, s3_url) \<Rightarrow>
              if rc \<noteq> 0 then Some (UPLOADSTB_FAILED, s, w1)
              else case xcall (performCodeBigS3Put E s3_url archive) (emit (CodeBigPut s3_url archive) w1) of
                (s3_result, w2) \<Rightarrow>
                  let s1 = s\<lparr>curl_code := s3_result, http_code := if s3_result = 0 then 200 else 0\<rparr>
                  in if s3_result \<noteq> 0 then Some (UPLOADSTB_FAILED, s1, report_curl_error s3_result w2)
                     else Some (UPLOADSTB_SUCCESS, s1, w2))"

end
