(* ===== verification/Validation.thy ===== *)
theory Validation
  imports Environment EventManager FileOps
begin

text \<open>
  The checks made before an upload (\<^verbatim>\<open>uploadstblogs/src/validation.c\<close>) and the choice of the
  upload strategy and of the upload paths (\<^verbatim>\<open>uploadstblogs/src/strategy_selector.c\<close>).
\<close>

subsection \<open>Validation\<close>

text \<open>The checks of \<^verbatim>\<open>LOG_PATH\<close>, of the telemetry path and of the DRI path only write to the log.\<close>

definition validate_directories :: "'n externals \<Rightarrow> RuntimeContext \<Rightarrow> 'n world \<Rightarrow> bool \<times> 'n world" where
  "validate_directories E ctx w =
     (let prev_missing = (rrd_flag ctx = 0 \<and> prev_log_path ctx \<noteq> [] \<and> \<not> dir_exists E w (prev_log_path ctx));
          w1 = (if prev_missing then emit_folder_missing_error E w else w);
          temp_bad = (temp_dir ctx \<noteq> [] \<and>
                      (\<not> dir_exists E w1 (temp_dir ctx) \<or> \<not> os_access_w (fs w1) (temp_dir ctx)))
      in (\<not> prev_missing \<and> \<not> temp_bad, w1))"

definition validate_configuration :: "'n externals \<Rightarrow> 'n world \<Rightarrow> bool" where
  "validate_configuration E w =
     (file_exists E w ''/etc/include.properties'' \<and> file_exists E w ''/etc/device.properties'')"

definition validate_codebig_access :: "'n externals \<Rightarrow> 'n world \<Rightarrow> bool \<times> 'n world" where
  "validate_codebig_access E w =
     (case xcall (v_secure_system E ''GetServiceUrl 2 temp'') (emit (Shell ''GetServiceUrl 2 temp'') w) of
        (r, w1) \<Rightarrow> (r = 0, w1))"

definition validate_system :: "'n externals \<Rightarrow> RuntimeContext \<Rightarrow> 'n world \<Rightarrow> bool \<times> 'n world" where
  "validate_system E ctx w =
     (case validate_directories E ctx w of (ok, w1) \<Rightarrow>
        if \<not> ok then (False, w1)
        else if \<not> validate_configuration E w1 then (False, w1)
        else (True, snd (validate_codebig_access E w1)))"

subsection \<open>Strategy\<close>

definition is_privacy_mode :: "RuntimeContext \<Rightarrow> bool" where
  "is_privacy_mode ctx =
     (if device_type ctx = [] \<or> \<not> strcasecmp_eq (device_type ctx) ''mediaclient'' then False
      else privacy_do_not_share ctx)"

definition early_checks :: "RuntimeContext \<Rightarrow> Strategy" where
  "early_checks ctx =
     (if rrd_flag ctx = 1 then STRAT_RRD
      else if is_privacy_mode ctx then STRAT_PRIVACY_ABORT
      else if dcm_flag ctx = 0 then STRAT_NON_DCM
      else if dcm_flag ctx = 1 \<and> flag ctx = 1
           then if trigger_type ctx = trigger_code TRIGGER_ONDEMAND then STRAT_ONDEMAND else STRAT_REBOOT
      else STRAT_DCM)"

definition has_no_logs :: "'n externals \<Rightarrow> RuntimeContext \<Rightarrow> 'n world \<Rightarrow> bool" where
  "has_no_logs E ctx w =
     (if prev_log_path ctx = [] then True
      else if \<not> dir_exists E w (prev_log_path ctx) then True
      else is_directory_empty E w (prev_log_path ctx))"

definition decide_paths :: "'n externals \<Rightarrow> RuntimeContext \<Rightarrow> SessionState \<Rightarrow> 'n world \<Rightarrow> SessionState \<times> 'n world" where
  "decide_paths E ctx session w =
     (let direct = direct_blocked ctx in
      case (if \<not> codebig_blocked ctx
            then (case validate_codebig_access E w of (ok, w1) \<Rightarrow> (\<not> ok, w1)) else (True, w)) of
        (codebig, w1) \<Rightarrow>
          (if \<not> direct \<and> \<not> codebig then session\<lparr>primary := PATH_DIRECT, fallback := PATH_CODEBIG\<rparr>
           else if direct \<and> \<not> codebig then session\<lparr>primary := PATH_CODEBIG, fallback := PATH_NONE\<rparr>
           else if \<not> direct \<and> codebig then session\<lparr>primary := PATH_DIRECT, fallback := PATH_NONE\<rparr>
           else session\<lparr>primary := PATH_NONE, fallback := PATH_NONE\<rparr>, w1))"

subsection \<open>What the choices guarantee\<close>

lemma validate_codebig_access_trace:
  "validate_codebig_access E w = (ok, w') \<Longrightarrow> trace w' = trace w @ [Shell ''GetServiceUrl 2 temp''] \<and>
     same_statics w w' \<and> iarm_initialized w' = iarm_initialized w"
  by (auto simp: validate_codebig_access_def split: prod.splits dest!: xcall_statics)

text \<open>The decision table of the shell script that the function replaces, as its comments quote
  it: upload on reboot (with its argument), on demand, or the batch upload.\<close>

datatype script_call = uploadLogOnReboot bool | uploadLogOnDemand bool | uploadDCMLogs

definition script_choice :: "int \<Rightarrow> int \<Rightarrow> int \<Rightarrow> int \<Rightarrow> script_call" where
  "script_choice dcm fl on_reboot trig =
     (if dcm = 0 then uploadLogOnReboot True
      else if fl = 1
           then if on_reboot = 1
                then if trig = 5 then uploadLogOnDemand True else uploadLogOnReboot True
                else if trig = 5 then uploadLogOnDemand False else uploadLogOnReboot False
      else uploadDCMLogs)"

text \<open>The strategy that stands for a call of the script: the argument of the calls is kept in
  \<^verbatim>\<open>upload_on_reboot\<close> and read by the strategy itself.\<close>

fun script_strategy :: "int \<Rightarrow> script_call \<Rightarrow> Strategy" where
  "script_strategy dcm (uploadLogOnReboot b) = (if dcm = 0 then STRAT_NON_DCM else STRAT_REBOOT)"
| "script_strategy dcm (uploadLogOnDemand b) = STRAT_ONDEMAND"
| "script_strategy dcm uploadDCMLogs = STRAT_DCM"

definition script_answer :: "RuntimeContext \<Rightarrow> Strategy" where
  "script_answer ctx = script_strategy (dcm_flag ctx)
     (script_choice (dcm_flag ctx) (flag ctx) (upload_on_reboot ctx) (trigger_type ctx))"



text \<open>
  Claim C21. \<^verbatim>\<open>decide_paths\<close> never names a blocked path, names CodeBig only after the access check has
  succeeded, never falls back to the primary path, and gives up only when neither path is usable.
\<close>

theorem decide_paths_respects_blocks:
  assumes "decide_paths E ctx s w = (s', w')"
  shows "(primary s' = PATH_DIRECT \<longleftrightarrow> \<not> direct_blocked ctx) \<and>
    (fallback s' \<noteq> PATH_DIRECT) \<and>
    (primary s' = PATH_CODEBIG \<or> fallback s' = PATH_CODEBIG \<longleftrightarrow>
       \<not> codebig_blocked ctx \<and> fst (validate_codebig_access E w)) \<and>
    (primary s' = PATH_NONE \<longrightarrow> fallback s' = PATH_NONE) \<and>
    (fallback s' \<noteq> PATH_NONE \<longrightarrow> fallback s' \<noteq> primary s') \<and>
    s'\<lparr>primary := primary s, fallback := fallback s\<rparr> = s"
  using assms
  by (cases "validate_codebig_access E w") (auto simp: decide_paths_def Let_def split: if_splits)

theorem decide_paths_respects_blocks_witness:
  "primary (fst (decide_paths script_externals (zero_context\<lparr>direct_blocked := True\<rparr>) zero_session
     (sample_world quiet_script []))) = PATH_CODEBIG"
proof -
  let ?d = "decide_paths script_externals (zero_context\<lparr>direct_blocked := True\<rparr>) zero_session
     (sample_world quiet_script [])"
  have b: "direct_blocked (zero_context\<lparr>direct_blocked := True\<rparr>)"
    "\<not> codebig_blocked (zero_context\<lparr>direct_blocked := True\<rparr>)" by (simp_all add: zero_context_def)
  have c: "fst (validate_codebig_access script_externals (sample_world quiet_script []))"
    by code_simp
  have "primary (fst ?d) \<noteq> PATH_DIRECT \<and> (primary (fst ?d) = PATH_CODEBIG \<or> fallback (fst ?d) = PATH_CODEBIG) \<and>
      (primary (fst ?d) = PATH_NONE \<longrightarrow> fallback (fst ?d) = PATH_NONE)"
    using decide_paths_respects_blocks [of script_externals "zero_context\<lparr>direct_blocked := True\<rparr>" zero_session
        "sample_world quiet_script []" "fst ?d" "snd ?d"] b c by simp
  then show ?thesis by (cases "primary (fst ?d)") auto
qed

end
