(* ===== verification/UploadEngine.thy ===== *)
theory UploadEngine
  imports PathHandler Validation
begin

text \<open>
  The retry loop (\<^verbatim>\<open>uploadstblogs/src/retry_logic.c\<close>) and the upload cycle with its fallback
  (\<^verbatim>\<open>uploadstblogs/src/upload_engine.c\<close>).

  The loop calls a function it gets as an argument and ends when that function or the counters
  say so, so it is a partial function: \<^const>\<open>None\<close> is the undefined behaviour of an attempt or a
  loop that never ends.
\<close>

subsection \<open>Retry logic\<close>

type_synonym 'n attempt =
  "RuntimeContext \<Rightarrow> SessionState \<Rightarrow> UploadPath \<Rightarrow> 'n world \<Rightarrow> (UploadResult \<times> SessionState \<times> 'n world) option"

definition should_retry :: "RuntimeContext \<Rightarrow> SessionState \<Rightarrow> UploadPath \<Rightarrow> UploadResult \<Rightarrow> bool" where
  "should_retry ctx s path result =
     (if result = UPLOADSTB_SUCCESS \<or> result = UPLOADSTB_ABORTED then False
      else if http_code s = 0 then False
      else if is_terminal_failure (http_code s) then False
      else case path of
        PATH_DIRECT \<Rightarrow> if direct_attempts s \<ge> direct_max_attempts ctx then False
                       else result = UPLOADSTB_FAILED \<or> result = UPLOADSTB_RETRY
      | PATH_CODEBIG \<Rightarrow> if codebig_attempts s \<ge> codebig_max_attempts ctx then False
                       else result = UPLOADSTB_FAILED \<or> result = UPLOADSTB_RETRY
      | PATH_NONE \<Rightarrow> False)"

definition increment_attempts :: "SessionState \<Rightarrow> UploadPath \<Rightarrow> SessionState" where
  "increment_attempts s path =
     (case path of PATH_DIRECT \<Rightarrow> s\<lparr>direct_attempts := direct_attempts s + 1\<rparr>
      | PATH_CODEBIG \<Rightarrow> s\<lparr>codebig_attempts := codebig_attempts s + 1\<rparr>
      | PATH_NONE \<Rightarrow> s)"

definition retry_delay :: "UploadPath \<Rightarrow> int" where
  "retry_delay path = (if path = PATH_DIRECT then 60 else 10)"

partial_function (option) retry_upload ::
  "'n attempt \<Rightarrow> RuntimeContext \<Rightarrow> SessionState \<Rightarrow> UploadPath \<Rightarrow> 'n world \<Rightarrow>
     (UploadResult \<times> SessionState \<times> 'n world) option" where
  "retry_upload attempt ctx s path w =
     (case attempt ctx (increment_attempts s path) path (t2_count_notify ''SYST_INFO_LUattempt'' w) of
        None \<Rightarrow> None
      | Some (result, s2, w2) \<Rightarrow>
          if result = UPLOADSTB_SUCCESS then Some (result, s2, w2)
          else if should_retry ctx s2 path result
          then (if should_retry ctx s2 path result
                then retry_upload attempt ctx s2 path (sleep (retry_delay path) w2)
                else Some (result, s2, sleep (retry_delay path) w2))
          else Some (result, s2, w2))"

declare retry_upload.simps [code]

subsection \<open>Upload engine\<close>

definition single_attempt_upload :: "'n externals \<Rightarrow> 'n attempt" where
  "single_attempt_upload E ctx s path w =
     (case path of PATH_DIRECT \<Rightarrow> execute_direct_path E ctx s w
      | PATH_CODEBIG \<Rightarrow> execute_codebig_path E ctx s w
      | PATH_NONE \<Rightarrow> Some (UPLOADSTB_FAILED, s, w))"

definition attempt_upload :: "'n externals \<Rightarrow> 'n attempt" where
  "attempt_upload E ctx s path w = retry_upload (single_attempt_upload E) ctx s path w"

definition should_fallback :: "SessionState \<Rightarrow> UploadResult \<Rightarrow> bool" where
  "should_fallback s result =
     (if result = UPLOADSTB_SUCCESS \<or> result = UPLOADSTB_ABORTED then False
      else if fallback s = PATH_NONE then False
      else if used_fallback s then False
      else result = UPLOADSTB_FAILED \<or> result = UPLOADSTB_RETRY)"

definition switch_to_fallback :: "SessionState \<Rightarrow> SessionState" where
  "switch_to_fallback s = s\<lparr>primary := fallback s, fallback := primary s, used_fallback := True\<rparr>"

definition fail_cycle :: "'n externals \<Rightarrow> RuntimeContext \<Rightarrow> SessionState \<Rightarrow> 'n world \<Rightarrow> bool \<times> SessionState \<times> 'n world" where
  "fail_cycle E ctx s w = (False, s\<lparr>success := False\<rparr>, emit_upload_failure E ctx w)"

definition execute_upload_cycle ::
  "'n externals \<Rightarrow> RuntimeContext \<Rightarrow> SessionState \<Rightarrow> 'n world \<Rightarrow> (bool \<times> SessionState \<times> 'n world) option" where
  "execute_upload_cycle E ctx s w =
     (case attempt_upload E ctx s (primary s) w of None \<Rightarrow> None
      | Some (primary_result, s1, w1) \<Rightarrow>
          if primary_result = UPLOADSTB_SUCCESS
          then Some (True, s1\<lparr>success := True\<rparr>, emit_upload_success E ctx w1)
          else if should_fallback s1 primary_result \<and> fallback s1 \<noteq> PATH_NONE
          then (let s2 = switch_to_fallback s1 in
                case attempt_upload E ctx s2 (fallback s2) w1 of None \<Rightarrow> None
                | Some (fallback_result, s3, w2) \<Rightarrow>
                    if fallback_result = UPLOADSTB_SUCCESS
                    then Some (True, s3\<lparr>used_fallback := True, success := True\<rparr>, emit_upload_success E ctx w2)
                    else Some (fail_cycle E ctx s3 w2))
          else Some (fail_cycle E ctx s1 w1))"

definition upload_archive ::
  "'n externals \<Rightarrow> RuntimeContext \<Rightarrow> SessionState \<Rightarrow> cstring \<Rightarrow> 'n world \<Rightarrow> (int \<times> SessionState \<times> 'n world) option" where
  "upload_archive E ctx s apath w =
     (if \<not> file_exists E w apath then Some (-1, s, w)
      else if get_file_size E w apath \<le> 0 then Some (-1, s, w)
      else case execute_upload_cycle E ctx (s\<lparr>archive_file := take 255 apath\<rparr>) w of
        None \<Rightarrow> None
      | Some (ok, s1, w1) \<Rightarrow> Some (if ok then 0 else -1, s1, w1))"

subsection \<open>The contract of an upload attempt\<close>

text \<open>What the counters and limits of a path are.\<close>

fun attempts_of :: "UploadPath \<Rightarrow> SessionState \<Rightarrow> int" where
  "attempts_of PATH_DIRECT s = direct_attempts s"
| "attempts_of PATH_CODEBIG s = codebig_attempts s"
| "attempts_of PATH_NONE s = 0"

fun max_attempts_of :: "UploadPath \<Rightarrow> RuntimeContext \<Rightarrow> int" where
  "max_attempts_of PATH_DIRECT ctx = direct_max_attempts ctx"
| "max_attempts_of PATH_CODEBIG ctx = codebig_max_attempts ctx"
| "max_attempts_of PATH_NONE ctx = 0"

text \<open>An attempt leaves everything of the session alone but the status codes and the success flag.\<close>

definition same_session :: "SessionState \<Rightarrow> SessionState \<Rightarrow> bool" where
  "same_session s s' =
     (strategy s' = strategy s \<and> primary s' = primary s \<and> fallback s' = fallback s \<and>
      direct_attempts s' = direct_attempts s \<and> codebig_attempts s' = codebig_attempts s \<and>
      used_fallback s' = used_fallback s \<and> archive_file s' = archive_file s)"

text \<open>An attempt does not pause, and does not send what the retry loop and the engine send.\<close>

fun attempt_event :: "event \<Rightarrow> bool" where
  "attempt_event (T2Count m) = (m \<noteq> ''SYST_INFO_LUattempt'' \<and> m \<noteq> ''SYST_INFO_lu_success'')"
| "attempt_event (T2Val m v) = True"
| "attempt_event (SysState a b) = False"
| "attempt_event (MaintStatus c) = False"
| "attempt_event (MetadataPost a b c) = True"
| "attempt_event (S3Put a b) = True"
| "attempt_event (ProxyPut a b) = True"
| "attempt_event (CodeBigPost a) = True"
| "attempt_event (CodeBigPut a b) = True"
| "attempt_event (Shell c) = False"
| "attempt_event (Slept n) = False"

text \<open>The direct path and its proxy never use the CodeBig library.\<close>

fun direct_event :: "event \<Rightarrow> bool" where
  "direct_event (T2Count m) = (m \<noteq> ''SYST_INFO_LUattempt'' \<and> m \<noteq> ''SYST_INFO_lu_success'')"
| "direct_event (T2Val m v) = True"
| "direct_event (SysState a b) = False"
| "direct_event (MaintStatus c) = False"
| "direct_event (MetadataPost a b c) = True"
| "direct_event (S3Put a b) = True"
| "direct_event (ProxyPut a b) = True"
| "direct_event (CodeBigPost a) = False"
| "direct_event (CodeBigPut a b) = False"
| "direct_event (Shell c) = False"
| "direct_event (Slept n) = False"

lemma direct_event_attempt: "direct_event e \<Longrightarrow> attempt_event e"
  by (cases e) auto

text \<open>What holds between the start and the end of a retry loop on one path: \<open>k\<close> attempts.\<close>

definition retried :: "UploadPath \<Rightarrow> nat \<Rightarrow> SessionState \<Rightarrow> 'n world \<Rightarrow> SessionState \<Rightarrow> 'n world \<Rightarrow> bool" where
  "retried p k s w s' w' =
     (attempts_of p s' = attempts_of p s + (if p = PATH_NONE then 0 else int k) \<and>
      (\<forall>q. q \<noteq> p \<longrightarrow> attempts_of q s' = attempts_of q s) \<and>
      strategy s' = strategy s \<and> primary s' = primary s \<and> fallback s' = fallback s \<and>
      used_fallback s' = used_fallback s \<and> archive_file s' = archive_file s \<and>
      count_ev (T2Count ''SYST_INFO_LUattempt'') (trace w') =
        count_ev (T2Count ''SYST_INFO_LUattempt'') (trace w) + k \<and>
      count_ev (T2Count ''SYST_INFO_lu_success'') (trace w') =
        count_ev (T2Count ''SYST_INFO_lu_success'') (trace w) \<and>
      pause (trace w') = pause (trace w) + retry_delay p * (int k - 1) \<and>
      same_statics w w')"

locale upload_attempt =
  fixes attempt :: "'n attempt"
  assumes attempt_session: "attempt ctx s p w = Some (r, s', w') \<Longrightarrow> same_session s s'"
    and attempt_events: "attempt ctx s p w = Some (r, s', w') \<Longrightarrow> extends attempt_event w w'"
    and attempt_success:
      "attempt ctx s p w = Some (UPLOADSTB_SUCCESS, s', w') \<Longrightarrow> http_code s' = 200 \<and> curl_code s' = 0"
begin

lemma retried_once:
  assumes "attempt ctx (increment_attempts s p) p (t2_count_notify ''SYST_INFO_LUattempt'' w) = Some (r, s', w')"
  shows "retried p 1 s w s' w'"
proof -
  have 1: "same_session (increment_attempts s p) s'" by (rule attempt_session [OF assms])
  have 2: "extends attempt_event (t2_count_notify ''SYST_INFO_LUattempt'' w) w'"
    by (rule attempt_events [OF assms])
  have 3: "count_ev (T2Count ''SYST_INFO_LUattempt'') (trace w') =
      Suc (count_ev (T2Count ''SYST_INFO_LUattempt'') (trace w))"
    using extends_count [OF 2, of "T2Count ''SYST_INFO_LUattempt''"] by (simp add: t2_count_notify_def)
  have 9: "count_ev (T2Count ''SYST_INFO_lu_success'') (trace w') =
      count_ev (T2Count ''SYST_INFO_lu_success'') (trace w)"
    using extends_count [OF 2, of "T2Count ''SYST_INFO_lu_success''"] by (simp add: t2_count_notify_def)
  have 4: "pause (trace w') = pause (trace w)"
    using extends_pause [OF 2] by (simp add: t2_count_notify_def)
  have 5: "same_statics w w'" using 2 by (simp add: extends_def t2_count_notify_def)
  have 6: "attempts_of q s' = attempts_of q (increment_attempts s p)" for q
    using 1 by (cases q) (simp_all add: same_session_def)
  have 7: "attempts_of q (increment_attempts s p) =
      attempts_of q s + (if q = p \<and> p \<noteq> PATH_NONE then 1 else 0)" for q
    by (cases q; cases p) (simp_all add: increment_attempts_def)
  have 8: "attempts_of q s' = attempts_of q s + (if q = p \<and> p \<noteq> PATH_NONE then 1 else 0)" for q
    by (simp only: 6 7)
  from 1 3 4 5 9 show ?thesis
    by (cases p) (simp_all add: retried_def 8 same_session_def increment_attempts_def)
qed

lemma retried_again:
  assumes "retried p 1 s w s1 w1" "retried p k s1 (sleep (retry_delay p) w1) s' w'" "1 \<le> k"
  shows "retried p (Suc k) s w s' w'"
  using assms by (auto simp: retried_def algebra_simps intro: same_statics_trans)

lemma retry_step:
  assumes "attempt ctx (increment_attempts s p) p (t2_count_notify ''SYST_INFO_LUattempt'' w) = Some (r, s1, w1)"
  shows "retry_upload attempt ctx s p w =
    (if r \<noteq> UPLOADSTB_SUCCESS \<and> should_retry ctx s1 p r
     then retry_upload attempt ctx s1 p (sleep (retry_delay p) w1) else Some (r, s1, w1))"
  using assms by (auto simp: retry_upload.simps [of attempt ctx s p w] should_retry_def)

lemma should_retry_below: "should_retry ctx s p r \<Longrightarrow> attempts_of p s < max_attempts_of p ctx"
  by (cases p) (auto simp: should_retry_def split: if_splits)

lemma retry_spec:
  assumes "\<And>s w. attempt ctx s p w \<noteq> None"
  shows "\<exists>r s' w' k. retry_upload attempt ctx s p w = Some (r, s', w') \<and> retried p k s w s' w' \<and>
    1 \<le> k \<and> int k \<le> max 1 (max_attempts_of p ctx - attempts_of p s) \<and>
    (if r = UPLOADSTB_SUCCESS then http_code s' = 200 \<and> curl_code s' = 0 else \<not> should_retry ctx s' p r)"
proof (induction "nat (max_attempts_of p ctx - attempts_of p s)" arbitrary: s w rule: less_induct)
  case less
  obtain r s1 w1 where a:
    "attempt ctx (increment_attempts s p) p (t2_count_notify ''SYST_INFO_LUattempt'' w) = Some (r, s1, w1)"
    using assms by (metis not_None_eq prod_cases3)
  note once = retried_once [OF a] and eq = retry_step [OF a]
  show ?case
  proof (cases "r \<noteq> UPLOADSTB_SUCCESS \<and> should_retry ctx s1 p r")
    case False
    then have "retry_upload attempt ctx s p w = Some (r, s1, w1)" by (simp only: eq if_False)
    moreover have "if r = UPLOADSTB_SUCCESS then http_code s1 = 200 \<and> curl_code s1 = 0 else \<not> should_retry ctx s1 p r"
      using False attempt_success a by auto
    ultimately show ?thesis using once
      by (intro exI [of _ r] exI [of _ s1] exI [of _ w1] exI [of _ 1]) simp
  next
    case True
    then have below: "attempts_of p s1 < max_attempts_of p ctx" and pn: "p \<noteq> PATH_NONE"
      using should_retry_below by (blast, auto simp: should_retry_def split: if_splits)
    moreover have s1: "attempts_of p s1 = attempts_of p s + 1" using once pn by (simp add: retried_def)
    ultimately have "nat (max_attempts_of p ctx - attempts_of p s1) < nat (max_attempts_of p ctx - attempts_of p s)"
      by simp
    from less [OF this, of "sleep (retry_delay p) w1"] obtain r' s' w' k where
      ih: "retry_upload attempt ctx s1 p (sleep (retry_delay p) w1) = Some (r', s', w')"
        "retried p k s1 (sleep (retry_delay p) w1) s' w'" "1 \<le> k"
        "int k \<le> max 1 (max_attempts_of p ctx - attempts_of p s1)"
        "if r' = UPLOADSTB_SUCCESS then http_code s' = 200 \<and> curl_code s' = 0 else \<not> should_retry ctx s' p r'"
      by blast
    have "int (Suc k) \<le> max 1 (max_attempts_of p ctx - attempts_of p s)"
      using ih(4) below s1 by simp
    with True eq ih retried_again [OF once ih(2,3)] show ?thesis
      by (intro exI [of _ r'] exI [of _ s'] exI [of _ w'] exI [of _ "Suc k"]) simp
  qed
qed

text \<open>What every attempt on a path keeps, the loop keeps.\<close>

lemma retry_extends:
  assumes keep: "\<And>s w r s' w'. attempt ctx s p w = Some (r, s', w') \<Longrightarrow> extends Q w w'"
    and Q: "Q (T2Count ''SYST_INFO_LUattempt'')" "Q (Slept (retry_delay p))"
  shows "retry_upload attempt ctx s p w = Some (r, s', w') \<Longrightarrow> extends Q w w'"
proof (induction "nat (max_attempts_of p ctx - attempts_of p s)" arbitrary: s w rule: less_induct)
  case less
  from less.prems obtain r1 s1 w1 where a:
    "attempt ctx (increment_attempts s p) p (t2_count_notify ''SYST_INFO_LUattempt'' w) = Some (r1, s1, w1)"
    by (cases "attempt ctx (increment_attempts s p) p (t2_count_notify ''SYST_INFO_LUattempt'' w)")
      (auto simp: retry_upload.simps [of attempt ctx s p w])
  note once = retried_once [OF a] and eq = retry_step [OF a]
  have w1: "extends Q w w1"
    using extends_trans [OF extends_emit [of Q w w, OF _ Q(1)] keep [OF a, unfolded t2_count_notify_def]]
    by simp
  show ?case
  proof (cases "r1 \<noteq> UPLOADSTB_SUCCESS \<and> should_retry ctx s1 p r1")
    case False
    then have "retry_upload attempt ctx s p w = Some (r1, s1, w1)" by (simp only: eq if_False)
    with less.prems w1 show ?thesis by simp
  next
    case True
    then have "attempts_of p s1 < max_attempts_of p ctx" "p \<noteq> PATH_NONE"
      using should_retry_below by (blast, auto simp: should_retry_def split: if_splits)
    then have "nat (max_attempts_of p ctx - attempts_of p s1) < nat (max_attempts_of p ctx - attempts_of p s)"
      using once by (simp add: retried_def)
    from less.hyps [OF this, of "sleep (retry_delay p) w1"] less.prems eq True
    have "extends Q (sleep (retry_delay p) w1) w'" by simp
    with extends_sleep [OF w1 Q(2)] show ?thesis by (rule extends_trans)
  qed
qed

text \<open>Without the promise that attempts return, the loop is still bounded when it returns.\<close>

lemma retry_bounded:
  "retry_upload attempt ctx s p w = Some (r, s', w') \<Longrightarrow>
   \<exists>k. retried p k s w s' w' \<and> 1 \<le> k \<and> int k \<le> max 1 (max_attempts_of p ctx - attempts_of p s) \<and>
     (if r = UPLOADSTB_SUCCESS then http_code s' = 200 \<and> curl_code s' = 0 else \<not> should_retry ctx s' p r)"
proof (induction "nat (max_attempts_of p ctx - attempts_of p s)" arbitrary: s w rule: less_induct)
  case less
  from less.prems obtain r1 s1 w1 where a:
    "attempt ctx (increment_attempts s p) p (t2_count_notify ''SYST_INFO_LUattempt'' w) = Some (r1, s1, w1)"
    by (cases "attempt ctx (increment_attempts s p) p (t2_count_notify ''SYST_INFO_LUattempt'' w)")
      (auto simp: retry_upload.simps [of attempt ctx s p w])
  note once = retried_once [OF a] and eq = retry_step [OF a]
  show ?case
  proof (cases "r1 \<noteq> UPLOADSTB_SUCCESS \<and> should_retry ctx s1 p r1")
    case False
    then have "retry_upload attempt ctx s p w = Some (r1, s1, w1)" by (simp only: eq if_False)
    then have "(r, s', w') = (r1, s1, w1)" using less.prems by simp
    moreover have "if r1 = UPLOADSTB_SUCCESS then http_code s1 = 200 \<and> curl_code s1 = 0 else \<not> should_retry ctx s1 p r1"
      using False attempt_success a by auto
    ultimately show ?thesis using once by (intro exI [of _ 1]) simp
  next
    case True
    then have below: "attempts_of p s1 < max_attempts_of p ctx" and pn: "p \<noteq> PATH_NONE"
      using should_retry_below by (blast, auto simp: should_retry_def split: if_splits)
    moreover have s1: "attempts_of p s1 = attempts_of p s + 1" using once pn by (simp add: retried_def)
    ultimately have "nat (max_attempts_of p ctx - attempts_of p s1) < nat (max_attempts_of p ctx - attempts_of p s)"
      by simp
    from less.hyps [OF this, of "sleep (retry_delay p) w1"] less.prems eq True obtain k where
      ih: "retried p k s1 (sleep (retry_delay p) w1) s' w'" "1 \<le> k"
        "int k \<le> max 1 (max_attempts_of p ctx - attempts_of p s1)"
        "if r = UPLOADSTB_SUCCESS then http_code s' = 200 \<and> curl_code s' = 0 else \<not> should_retry ctx s' p r"
      by auto
    have "int (Suc k) \<le> max 1 (max_attempts_of p ctx - attempts_of p s)"
      using ih(3) below s1 by simp
    with ih retried_again [OF once ih(1,2)] show ?thesis
      by (intro exI [of _ "Suc k"]) simp
  qed
qed

end

subsection \<open>The path handlers keep the contract\<close>

lemma same_session_refl [simp]: "same_session s s"
  by (simp add: same_session_def)

lemma same_session_codes [simp]:
  "same_session s (s'\<lparr>curl_code := c\<rparr>) = same_session s s'"
  "same_session s (s'\<lparr>http_code := c\<rparr>) = same_session s s'"
  "same_session s (s'\<lparr>success := b\<rparr>) = same_session s s'"
  by (simp_all add: same_session_def)

lemma same_session_trans: "same_session a b \<Longrightarrow> same_session b c \<Longrightarrow> same_session a c"
  by (simp add: same_session_def)

lemma same_session_curl_info [simp]: "same_session s (read_curl_info s' w) = same_session s s'"
  by (simp add: read_curl_info_def split: option.splits)

lemma report_curl_error_extends:
  "extends direct_event v w \<Longrightarrow> extends direct_event v (report_curl_error c w)"
  "extends attempt_event v w \<Longrightarrow> extends attempt_event v (report_curl_error c w)"
  by (auto simp: report_curl_error_def t2_val_notify_def t2_count_notify_def Let_def intro!: extends_emit)

lemma report_cert_error_extends:
  "extends direct_event v w \<Longrightarrow> extends direct_event v (report_cert_error c url w)"
  by (auto simp: report_cert_error_def t2_val_notify_def intro!: extends_emit)

lemma extends_call:
  "xcall f (emit e v) = (r, v') \<Longrightarrow> extends P w v \<Longrightarrow> P e \<Longrightarrow> extends P w v'"
  by (blast intro: extends_xcall extends_emit)

lemma proxy_contract:
  assumes "attempt_proxy_fallback E ctx s archive md5 w = Some (r, s', w')"
  shows "same_session s s'" "extends direct_event w w'"
    "r = UPLOADSTB_SUCCESS \<Longrightarrow> http_code s' = 200 \<and> curl_code s' = 0"
    "r = UPLOADSTB_SUCCESS \<or> r = UPLOADSTB_FAILED"
  using assms
  by (auto simp: attempt_proxy_fallback_def Let_def verify_upload_success
      intro!: report_curl_error_extends elim!: extends_call
      split: if_splits option.splits proxy_path.splits prod.splits)

lemma metadata_contract:
  assumes "perform_metadata_post E ctx s url archive md5 w = (r, auth, s', w')"
  shows "same_session s s'" "extends direct_event w w'"
    "r = UPLOADSTB_SUCCESS \<longleftrightarrow> http_code s' = 200 \<and> curl_code s' = 0"
    "r = UPLOADSTB_SUCCESS \<or> r = UPLOADSTB_FAILED"
proof -
  obtain u w1 where x1: "xcall (uploadutil_set_ocsp E (ocsp_enabled ctx)) w = (u, w1)"
    by (cases "xcall (uploadutil_set_ocsp E (ocsp_enabled ctx)) w")
  obtain res auth' http w2 where x2:
    "xcall (performMetadataPostWithCertRotationEx E url (http_results_file (strategy s)) (post_fields archive md5))
       (emit (MetadataPost url (http_results_file (strategy s)) (post_fields archive md5)) w1) = ((res, auth', http), w2)"
    by (metis prod_cases3 prod.exhaust)
  from assms x1 x2 have r: "r = verify_upload s'" and s': "same_session s s'"
    and w': "w' = report_cert_error (snd (uploadutil_get_status E (outer_of w2))) url
               (report_curl_error (snd (uploadutil_get_status E (outer_of w2))) w2)"
    by (auto simp: perform_metadata_post_def Let_def)
  have "extends direct_event w w2"
    by (rule extends_call [OF x2 extends_xcall [OF extends_refl x1]]) simp
  then show "extends direct_event w w'"
    unfolding w' by (intro report_cert_error_extends report_curl_error_extends)
  show "same_session s s'" by (rule s')
  show "r = UPLOADSTB_SUCCESS \<longleftrightarrow> http_code s' = 200 \<and> curl_code s' = 0"
    "r = UPLOADSTB_SUCCESS \<or> r = UPLOADSTB_FAILED"
    using verify_upload_success [of s'] by (auto simp: r)
qed

lemma s3_contract:
  assumes "perform_s3_put_with_fallback E ctx s archive md5 auth w = Some (r, s', w')"
  shows "same_session s s' \<and> extends direct_event w w' \<and>
    (r = UPLOADSTB_SUCCESS \<longrightarrow> http_code s' = 200 \<and> curl_code s' = 0) \<and>
    (r = UPLOADSTB_SUCCESS \<or> r = UPLOADSTB_FAILED)"
proof -
  obtain rc url where e: "extractS3PresignedUrl E (outer_of w) (http_results_file (strategy s)) 1024 = (rc, url)"
    by (cases "extractS3PresignedUrl E (outer_of w) (http_results_file (strategy s)) 1024")
  show ?thesis
  proof (cases "rc = 0")
    case False
    with assms e show ?thesis by (auto simp: perform_s3_put_with_fallback_def)
  next
    case True
    obtain c w1 where x: "xcall (performS3PutWithCert E url archive auth) (emit (S3Put url archive) w) = (c, w1)"
      by (cases "xcall (performS3PutWithCert E url archive auth) (emit (S3Put url archive) w)")
    define s1 where "s1 = (read_curl_info s w1)\<lparr>curl_code := c\<rparr>"
    define w2 where "w2 = report_curl_error c w1"
    have s1: "same_session s s1" by (simp add: s1_def)
    have "extends direct_event w w1" by (rule extends_xcall [OF extends_emit [OF extends_refl] x]) simp
    then have w2: "extends direct_event w w2" unfolding w2_def by (rule report_curl_error_extends)
    show ?thesis
    proof (cases "verify_upload s1 = UPLOADSTB_SUCCESS")
      case ok: True
      with assms e True x have "r = UPLOADSTB_SUCCESS" "s' = s1\<lparr>success := True\<rparr>"
        "w' = t2_count_notify ''TEST_lu_success'' w2"
        by (simp_all add: perform_s3_put_with_fallback_def Let_def flip: s1_def w2_def)
      with s1 w2 ok show ?thesis
        by (auto simp: verify_upload_success t2_count_notify_def intro: extends_emit)
    next
      case bad: False
      with assms e True x obtain pr s2 w3 where p: "attempt_proxy_fallback E ctx s1 archive md5 w2 = Some (pr, s2, w3)"
        and res: "(if pr = UPLOADSTB_SUCCESS then (UPLOADSTB_SUCCESS, s2\<lparr>success := True\<rparr>, w3)
              else (verify_upload s1, s2\<lparr>success := False\<rparr>, t2_count_notify ''SYST_ERR_LogUpload_Failed'' w3)) = (r, s', w')"
        by (auto simp: perform_s3_put_with_fallback_def Let_def split: option.splits if_splits simp flip: s1_def w2_def)
      have "same_session s s2" "extends direct_event w w3"
        using proxy_contract(1,2) [OF p] s1 w2 by (auto intro: same_session_trans extends_trans)
      moreover have "verify_upload s1 = UPLOADSTB_FAILED" using bad verify_upload_success(2) by blast
      ultimately show ?thesis using res proxy_contract(3,4) [OF p]
        by (auto simp: t2_count_notify_def intro: extends_emit split: if_splits)
    qed
  qed
qed

lemma direct_contract:
  assumes "execute_direct_path E ctx s w = Some (r, s', w')"
  shows "same_session s s' \<and> extends direct_event w w' \<and>
    (r = UPLOADSTB_SUCCESS \<longrightarrow> http_code s' = 200 \<and> curl_code s' = 0) \<and>
    (r = UPLOADSTB_SUCCESS \<or> r = UPLOADSTB_FAILED)"
proof -
  define url where "url = (if endpoint_url ctx \<noteq> [] then endpoint_url ctx else upload_http_link ctx)"
  define md5 where "md5 = md5_of_archive E ctx (archive_file s) w"
  define w1 where "w1 = t2_count_notify ''SYST_INFO_mtls_xpki'' w"
  have e1: "extends direct_event w w1" by (auto simp: w1_def t2_count_notify_def intro: extends_emit)
  obtain pr auth s1 w2 where p: "perform_metadata_post E ctx s url (archive_file s) md5 w1 = (pr, auth, s1, w2)"
    by (cases "perform_metadata_post E ctx s url (archive_file s) md5 w1")
  have e2: "extends direct_event w w2" using e1 metadata_contract(2) [OF p] by (rule extends_trans)
  consider "url = []" | "url \<noteq> []" "pr \<noteq> UPLOADSTB_SUCCESS" | "url \<noteq> []" "pr = UPLOADSTB_SUCCESS" by blast
  then show ?thesis
  proof cases
    case 1
    with assms show ?thesis by (auto simp: execute_direct_path_def Let_def url_def split: if_splits)
  next
    case 2
    with assms p have "Some (pr, s1, w2) = Some (r, s', w')"
      by (simp add: execute_direct_path_def Let_def flip: url_def md5_def w1_def)
    with 2 e2 metadata_contract [OF p] show ?thesis by auto
  next
    case 3
    with assms p have "perform_s3_put_with_fallback E ctx s1 (archive_file s) md5 auth w2 = Some (r, s', w')"
      by (simp add: execute_direct_path_def Let_def flip: url_def md5_def w1_def)
    from s3_contract [OF this] e2 metadata_contract(1) [OF p] show ?thesis
      by (auto intro: same_session_trans extends_trans)
  qed
qed

lemma codebig_contract:
  assumes "execute_codebig_path E ctx s w = Some (r, s', w')"
  shows "same_session s s' \<and> extends attempt_event w w' \<and>
    (r = UPLOADSTB_SUCCESS \<longrightarrow> http_code s' = 200 \<and> curl_code s' = 0) \<and>
    (r = UPLOADSTB_SUCCESS \<or> r = UPLOADSTB_FAILED)"
  using assms
  by (auto simp: execute_codebig_path_def Let_def
      intro!: report_curl_error_extends elim!: extends_call
      split: if_splits prod.splits)

lemma single_attempt_contract:
  assumes "single_attempt_upload E ctx s p w = Some (r, s', w')"
  shows "same_session s s' \<and> extends attempt_event w w' \<and>
    (r = UPLOADSTB_SUCCESS \<longrightarrow> http_code s' = 200 \<and> curl_code s' = 0) \<and>
    (r = UPLOADSTB_SUCCESS \<or> r = UPLOADSTB_FAILED)"
  using assms direct_contract [of E ctx s w r s' w']
    extends_mono [OF _ direct_event_attempt] codebig_contract [of E ctx s w r s' w']
  by (cases p) (auto simp: single_attempt_upload_def)

interpretation path: upload_attempt "single_attempt_upload E" for E :: "'n externals"
  using single_attempt_contract by unfold_locales blast+

end
