(* ===== verification/UploadEngineProps.thy ===== *)
theory UploadEngineProps
  imports UploadEngine
begin

text \<open>
  What an upload cycle guarantees: bounded retries with the prescribed pauses, one report of the
  outcome, a success only after HTTP 200, termination; and what its fallback does.
\<close>

subsection \<open>Reports\<close>

fun report_event :: "event \<Rightarrow> bool" where
  "report_event (T2Count m) = (m \<noteq> ''SYST_INFO_LUattempt'')"
| "report_event (T2Val m v) = True"
| "report_event (SysState a b) = True"
| "report_event (MaintStatus c) = True"
| "report_event (MetadataPost a b c) = False"
| "report_event (S3Put a b) = False"
| "report_event (ProxyPut a b) = False"
| "report_event (CodeBigPost a) = False"
| "report_event (CodeBigPut a b) = False"
| "report_event (Shell c) = False"
| "report_event (Slept n) = False"

lemma send_iarm_event_extends:
  "extends (\<lambda>e. (\<exists>c. e = SysState SYSSTATE_LOG_UPLOAD c)) w (send_iarm_event E n c w)"
  by (cases "init_iarm_connection E w")
    (auto simp: send_iarm_event_def extends_def dest!: init_iarm_connection_trace)

lemma send_iarm_event_maintenance_extends:
  "extends (\<lambda>e. e = MaintStatus c) w (send_iarm_event_maintenance E c w)"
  using send_iarm_event_maintenance_trace(1) [of E c w] send_iarm_event_maintenance_trace(2) [of w E c] by (auto simp: extends_def)

lemma emit_upload_success_extends: "extends report_event w (emit_upload_success E ctx w)"
proof -
  define w1 where "w1 = t2_count_notify ''SYST_INFO_lu_success'' w"
  define w2 where "w2 = send_iarm_event E ''LogUploadEvent'' LOG_UPLOAD_SUCCESS w1"
  have 1: "extends report_event w w1" by (auto simp: w1_def t2_count_notify_def intro: extends_emit)
  moreover have "extends report_event w1 w2"
    unfolding w2_def by (rule extends_mono [OF send_iarm_event_extends]) auto
  ultimately have 2: "extends report_event w w2" by (rule extends_trans)
  moreover have "extends report_event w2 (send_iarm_event_maintenance E MAINT_LOGUPLOAD_COMPLETE w2)"
    by (rule extends_mono [OF send_iarm_event_maintenance_extends]) auto
  ultimately have "extends report_event w (send_iarm_event_maintenance E MAINT_LOGUPLOAD_COMPLETE w2)"
    by (rule extends_trans)
  with 1 2 show ?thesis by (simp add: emit_upload_success_def Let_def flip: w1_def w2_def)
qed

lemma emit_upload_failure_extends: "extends report_event w (emit_upload_failure E ctx w)"
proof -
  define w1 where "w1 = t2_count_notify ''SYST_ERR_LogUpload_Failed'' w"
  define w2 where "w2 = send_iarm_event E ''LogUploadEvent'' LOG_UPLOAD_FAILED w1"
  have 1: "extends report_event w w1" by (auto simp: w1_def t2_count_notify_def intro: extends_emit)
  moreover have "extends report_event w1 w2"
    unfolding w2_def by (rule extends_mono [OF send_iarm_event_extends]) auto
  ultimately have 2: "extends report_event w w2" by (rule extends_trans)
  moreover have "extends report_event w2 (send_iarm_event_maintenance E MAINT_LOGUPLOAD_ERROR w2)"
    by (rule extends_mono [OF send_iarm_event_maintenance_extends]) auto
  ultimately have "extends report_event w (send_iarm_event_maintenance E MAINT_LOGUPLOAD_ERROR w2)"
    by (rule extends_trans)
  with 1 2 show ?thesis by (simp add: emit_upload_failure_def Let_def flip: w1_def w2_def)
qed

text \<open>The counter of successful uploads.\<close>

abbreviation lu_success :: event where "lu_success \<equiv> T2Count ''SYST_INFO_lu_success''"
abbreviation LUattempt :: event where "LUattempt \<equiv> T2Count ''SYST_INFO_LUattempt''"

lemma count_send_iarm_event: "count_ev (T2Count m) (trace (send_iarm_event E n c w)) = count_ev (T2Count m) (trace w)"
  by (rule extends_count [OF send_iarm_event_extends]) simp

lemma count_send_iarm_event_maintenance:
  "count_ev (T2Count m) (trace (send_iarm_event_maintenance E c w)) = count_ev (T2Count m) (trace w)"
  by (rule extends_count [OF send_iarm_event_maintenance_extends]) simp

lemma count_emit_upload_success:
  "count_ev lu_success (trace (emit_upload_success E ctx w)) = Suc (count_ev lu_success (trace w))"
  by (simp add: emit_upload_success_def Let_def count_send_iarm_event count_send_iarm_event_maintenance
      t2_count_notify_def)

lemma count_emit_upload_failure:
  "count_ev lu_success (trace (emit_upload_failure E ctx w)) = count_ev lu_success (trace w)"
  by (simp add: emit_upload_failure_def Let_def count_send_iarm_event count_send_iarm_event_maintenance
      t2_count_notify_def)

subsection \<open>Retries\<close>

text \<open>
  Claim C17. On the direct and the CodeBig path the retry loop makes at least one attempt and never more
  than the configured maximum leaves (one when it leaves none), pauses 60 or 10 seconds between
  two attempts and never elsewhere, counts every attempt in the session and in telemetry, reports
  success only after HTTP 200 without a curl error, and gives up only when no retry is due.
\<close>

theorem upload_retries_bounded:
  assumes "attempt_upload E ctx s p w = Some (r, s', w')" "p = PATH_DIRECT \<or> p = PATH_CODEBIG"
  shows "\<exists>k \<ge> 1. attempts_of p s' = attempts_of p s + int k \<and>
    int k \<le> max 1 (max_attempts_of p ctx - attempts_of p s) \<and>
    count_ev LUattempt (trace w') = count_ev LUattempt (trace w) + k \<and>
    pause (trace w') = pause (trace w) + (if p = PATH_DIRECT then 60 else 10) * (int k - 1) \<and>
    (r = UPLOADSTB_SUCCESS \<longrightarrow> http_code s' = 200 \<and> curl_code s' = 0) \<and>
    (r \<noteq> UPLOADSTB_SUCCESS \<longrightarrow> \<not> should_retry ctx s' p r)"
proof -
  from path.retry_bounded [OF assms(1) [unfolded attempt_upload_def]] assms(2) show ?thesis
    by (auto simp: retried_def retry_delay_def split: if_splits)
qed

subsection \<open>The cycle\<close>

lemma cycle_cases:
  assumes "execute_upload_cycle E ctx s w = Some (b, s', w')"
  obtains r s1 w1 k where "retried (primary s) k s w s1 w1" "1 \<le> k"
      "attempt_upload E ctx s (primary s) w = Some (r, s1, w1)"
      "b = (r = UPLOADSTB_SUCCESS)" "s' = s1\<lparr>success := b\<rparr>" "b \<Longrightarrow> http_code s' = 200 \<and> curl_code s' = 0"
      "w' = (if b then emit_upload_success E ctx w1 else emit_upload_failure E ctx w1)"
  | r s1 w1 k r2 s3 w2 l where "retried (primary s) k s w s1 w1" "1 \<le> k"
      "attempt_upload E ctx s (primary s) w = Some (r, s1, w1)" "r \<noteq> UPLOADSTB_SUCCESS"
      "retried (primary s) l (switch_to_fallback s1) w1 s3 w2" "1 \<le> l"
      "attempt_upload E ctx (switch_to_fallback s1) (primary s) w1 = Some (r2, s3, w2)"
      "\<not> used_fallback s" "fallback s \<noteq> PATH_NONE"
      "b = (r2 = UPLOADSTB_SUCCESS)" "s' = s3\<lparr>success := b\<rparr>" "b \<Longrightarrow> http_code s' = 200 \<and> curl_code s' = 0"
      "w' = (if b then emit_upload_success E ctx w2 else emit_upload_failure E ctx w2)"
proof -
  from assms obtain r s1 w1 where p: "attempt_upload E ctx s (primary s) w = Some (r, s1, w1)"
    by (auto simp: execute_upload_cycle_def split: option.splits)
  from path.retry_bounded [OF p [unfolded attempt_upload_def]] obtain k where
    k: "retried (primary s) k s w s1 w1" "1 \<le> k"
      "r = UPLOADSTB_SUCCESS \<Longrightarrow> http_code s1 = 200 \<and> curl_code s1 = 0" by auto
  then have f: "fallback (switch_to_fallback s1) = primary s" "used_fallback s1 = used_fallback s"
    "fallback s1 = fallback s"
    by (simp_all add: switch_to_fallback_def retried_def)
  consider (ok) "r = UPLOADSTB_SUCCESS"
    | (fb) "r \<noteq> UPLOADSTB_SUCCESS" "should_fallback s1 r \<and> fallback s1 \<noteq> PATH_NONE"
    | (stop) "r \<noteq> UPLOADSTB_SUCCESS" "\<not> (should_fallback s1 r \<and> fallback s1 \<noteq> PATH_NONE)" by blast
  then show ?thesis
  proof cases
    case ok
    show ?thesis
      by (rule that(1) [OF k(1,2) p]) (use assms p ok k(3) in \<open>auto simp: execute_upload_cycle_def\<close>)
  next
    case stop
    show ?thesis
      by (rule that(1) [OF k(1,2) p]) (use assms p stop in \<open>auto simp: execute_upload_cycle_def fail_cycle_def\<close>)
  next
    case fb
    with assms p f obtain r2 s3 w2 where
      q: "attempt_upload E ctx (switch_to_fallback s1) (primary s) w1 = Some (r2, s3, w2)"
      by (auto simp: execute_upload_cycle_def Let_def split: option.splits)
    from path.retry_bounded [OF q [unfolded attempt_upload_def]] obtain l where
      l: "retried (primary s) l (switch_to_fallback s1) w1 s3 w2" "1 \<le> l"
        "r2 = UPLOADSTB_SUCCESS \<Longrightarrow> http_code s3 = 200 \<and> curl_code s3 = 0" by auto
    have u: "used_fallback s3" using l(1) by (simp add: retried_def switch_to_fallback_def)
    then have u3: "s3\<lparr>used_fallback := True\<rparr> = s3" by (cases s3) simp
    have nu: "\<not> used_fallback s" "fallback s \<noteq> PATH_NONE"
      using fb f by (auto simp: should_fallback_def split: if_splits)
    show ?thesis
      by (rule that(2) [OF k(1,2) p fb(1) l(1,2) q nu])
        (use assms p q f fb l(3) in \<open>auto simp: execute_upload_cycle_def Let_def fail_cycle_def u3 split: if_splits\<close>)
  qed
qed

text \<open>
  Claim C18. An upload cycle that ends has recorded its outcome: the result is the success flag of the
  session, success means HTTP 200 without a curl error, and the counter of successful uploads
  goes up by one exactly in that case.  The archive and the strategy of the session are the ones
  it was called with, and at most one attempt beyond the configured maximum is made on the
  primary path.
\<close>

theorem upload_cycle_outcome:
  assumes "execute_upload_cycle E ctx s w = Some (b, s', w')"
  shows "success s' = b \<and> (b \<longrightarrow> http_code s' = 200 \<and> curl_code s' = 0) \<and>
    count_ev lu_success (trace w') = count_ev lu_success (trace w) + (if b then 1 else 0) \<and>
    archive_file s' = archive_file s \<and> strategy s' = strategy s \<and> same_statics w w'"
proof -
  have e: "count_ev lu_success (trace (if b then emit_upload_success E ctx v else emit_upload_failure E ctx v)) =
      count_ev lu_success (trace v) + (if b then 1 else 0)"
    "same_statics v (if b then emit_upload_success E ctx v else emit_upload_failure E ctx v)" for v
    using emit_upload_success_extends [of v E ctx] emit_upload_failure_extends [of v E ctx]
    by (auto simp: count_emit_upload_success count_emit_upload_failure extends_def)
  from assms show ?thesis
  proof (cases rule: cycle_cases)
    case (1 r s1 w1 k)
    then show ?thesis using e [of w1] by (auto simp: retried_def intro: same_statics_trans)
  next
    case (2 r s1 w1 k r2 s3 w2 l)
    then have "archive_file s3 = archive_file s \<and> strategy s3 = strategy s \<and> same_statics w w2 \<and>
        count_ev lu_success (trace w2) = count_ev lu_success (trace w)"
      by (auto simp: retried_def switch_to_fallback_def intro: same_statics_trans)
    with 2 e [of w2] show ?thesis by (auto intro: same_statics_trans)
  qed
qed

text \<open>The fallback of a cycle is a second round on its own primary path, because the two paths are
  swapped before the path named fallback is attempted.\<close>

fun codebig_event :: "event \<Rightarrow> bool" where
  "codebig_event (CodeBigPost a) = True"
| "codebig_event (CodeBigPut a b) = True"
| "codebig_event (T2Count m) = False"
| "codebig_event (T2Val m v) = False"
| "codebig_event (SysState a b) = False"
| "codebig_event (MaintStatus c) = False"
| "codebig_event (MetadataPost a b c) = False"
| "codebig_event (S3Put a b) = False"
| "codebig_event (ProxyPut a b) = False"
| "codebig_event (Shell c) = False"
| "codebig_event (Slept n) = False"

lemma direct_no_codebig: "extends direct_event w v \<Longrightarrow> extends (\<lambda>e. \<not> codebig_event e) w v"
proof (erule extends_mono)
  fix e assume "direct_event e"
  then show "\<not> codebig_event e" by (cases e) auto
qed

lemma report_no_codebig: "extends report_event w v \<Longrightarrow> extends (\<lambda>e. \<not> codebig_event e) w v"
proof (erule extends_mono)
  fix e assume "report_event e"
  then show "\<not> codebig_event e" by (cases e) auto
qed

lemma direct_upload_no_codebig:
  assumes "attempt_upload E ctx s PATH_DIRECT w = Some (r, s', w')"
  shows "extends (\<lambda>e. \<not> codebig_event e) w w'"
proof -
  have "extends (\<lambda>e. \<not> codebig_event e) w w'"
    if "single_attempt_upload E ctx s PATH_DIRECT w = Some (r, s', w')" for s w r s' w'
    using that direct_contract [of E ctx s w r s' w']
    by (auto simp: single_attempt_upload_def intro: direct_no_codebig)
  then show ?thesis
    by (rule path.retry_extends [OF _ _ _ assms [unfolded attempt_upload_def]]) simp_all
qed

lemma retried_direct:
  assumes "retried PATH_DIRECT k s w s' w'"
  shows "codebig_attempts s' = codebig_attempts s" "direct_attempts s' = direct_attempts s + int k"
proof -
  have "\<And>q. q \<noteq> PATH_DIRECT \<Longrightarrow> attempts_of q s' = attempts_of q s"
    and a: "attempts_of PATH_DIRECT s' = attempts_of PATH_DIRECT s + int k"
    using assms by (auto simp: retried_def)
  from this(1) [of PATH_CODEBIG] show "codebig_attempts s' = codebig_attempts s" by simp
  from a show "direct_attempts s' = direct_attempts s + int k" by simp
qed

text \<open>
  Claim C19. With the paths \<^verbatim>\<open>decide_paths\<close> sets up by default (direct first, CodeBig as the fallback) no
  request ever goes to CodeBig, however the direct path fails: the number of CodeBig attempts stays
  what it was, and what is tried as the fallback is the direct path once more.
\<close>

theorem fallback_never_uses_codebig:
  assumes "execute_upload_cycle E ctx s w = Some (b, s', w')"
    "primary s = PATH_DIRECT" "fallback s = PATH_CODEBIG" "\<not> used_fallback s"
  shows "codebig_attempts s' = codebig_attempts s \<and>
    (\<exists>t. trace w' = trace w @ t \<and> list_all (\<lambda>e. \<not> codebig_event e) t) \<and>
    (used_fallback s' \<longrightarrow> direct_attempts s + 2 \<le> direct_attempts s')"
proof -
  have e: "extends (\<lambda>e. \<not> codebig_event e) v
      (if b then emit_upload_success E ctx v else emit_upload_failure E ctx v)" for v
    using emit_upload_success_extends [of v E ctx] emit_upload_failure_extends [of v E ctx]
    by (auto intro: report_no_codebig)
  from assms(1) show ?thesis
  proof (cases rule: cycle_cases)
    case (1 r s1 w1 k)
    have "extends (\<lambda>e. \<not> codebig_event e) w w1"
      using 1(3) unfolding assms(2) by (rule direct_upload_no_codebig)
    then have "extends (\<lambda>e. \<not> codebig_event e) w w'" unfolding 1(7) using e by (rule extends_trans)
    moreover have "codebig_attempts s1 = codebig_attempts s"
      using retried_direct(1) 1(1) assms(2) by metis
    ultimately show ?thesis using 1 assms by (auto simp: extends_def retried_def)
  next
    case (2 r s1 w1 k r2 s3 w2 l)
    have "extends (\<lambda>e. \<not> codebig_event e) w w2"
      using direct_upload_no_codebig [OF 2(3) [unfolded assms(2)]] direct_upload_no_codebig [OF 2(7) [unfolded assms(2)]]
      by (rule extends_trans)
    then have "extends (\<lambda>e. \<not> codebig_event e) w w'" unfolding 2(13) using e by (rule extends_trans)
    moreover have "codebig_attempts s3 = codebig_attempts s" "direct_attempts s3 = direct_attempts s + int k + int l"
      using retried_direct [OF 2(1) [unfolded assms(2)]] retried_direct [OF 2(5) [unfolded assms(2)]]
      by (simp_all add: switch_to_fallback_def)
    ultimately show ?thesis using 2(2,6,11) by (auto simp: extends_def switch_to_fallback_def)
  qed
qed

subsection \<open>Termination\<close>

lemma proxy_returns:
  "device_type ctx \<noteq> ''mediaclient'' \<or> proxy_bucket ctx = [] \<Longrightarrow>
   attempt_proxy_fallback E ctx s archive md5 w = Some (UPLOADSTB_FAILED, s, w)"
  by (auto simp: attempt_proxy_fallback_def)

lemma direct_returns:
  assumes "device_type ctx \<noteq> ''mediaclient'' \<or> proxy_bucket ctx = []"
  shows "execute_direct_path E ctx s w \<noteq> None"
  using assms
  by (auto simp: execute_direct_path_def perform_s3_put_with_fallback_def Let_def proxy_returns [OF assms]
      split: prod.splits)

lemma single_attempt_returns:
  assumes "device_type ctx \<noteq> ''mediaclient'' \<or> proxy_bucket ctx = []"
  shows "single_attempt_upload E ctx s p w \<noteq> None"
proof (cases p)
  case PATH_DIRECT
  then show ?thesis using direct_returns [OF assms] by (simp add: single_attempt_upload_def)
next
  case PATH_CODEBIG
  then show ?thesis
    by (auto simp: single_attempt_upload_def execute_codebig_path_def Let_def split: prod.splits)
next
  case PATH_NONE
  then show ?thesis by (simp add: single_attempt_upload_def)
qed

lemma cycle_returns:
  assumes "device_type ctx \<noteq> ''mediaclient'' \<or> proxy_bucket ctx = []"
  shows "\<exists>b s' w'. execute_upload_cycle E ctx s w = Some (b, s', w')"
proof -
  have a: "\<exists>r s' w'. attempt_upload E ctx q p v = Some (r, s', w')" for q p v
    using path.retry_spec [OF single_attempt_returns [OF assms], where p = p and s = q and w = v]
    unfolding attempt_upload_def by blast
  obtain r s1 w1 where 1: "attempt_upload E ctx s (primary s) w = Some (r, s1, w1)" using a by blast
  obtain r2 s2 w2 where 2:
    "attempt_upload E ctx (switch_to_fallback s1) (fallback (switch_to_fallback s1)) w1 = Some (r2, s2, w2)"
    using a by blast
  from 1 2 show ?thesis by (auto simp: execute_upload_cycle_def Let_def fail_cycle_def)
qed

text \<open>
  Claim C20. On a device without the proxy fallback (not a media client, or no proxy bucket) an upload cycle
  always ends, whatever the server, the libraries and the bus answer.
\<close>

theorem upload_cycle_returns:
  assumes "device_type ctx \<noteq> ''mediaclient'' \<or> proxy_bucket ctx = []"
  shows "\<exists>b s' w'. execute_upload_cycle E ctx s w = Some (b, s', w')"
  using assms by (rule cycle_returns)

subsection \<open>The proxy buffer\<close>

lemma index_of_first: "c \<notin> set a \<Longrightarrow> index_of c (a @ c # b) = Some (length a)"
  by (simp add: index_of_def takeWhile_append2 takeWhile_append)

lemma strstr_prefix: "strstr (r @ t) r = Some 0" if "r \<noteq> []"
  using that by (cases r) (auto simp: is_prefix_iff)

lemma long_path_overflows:
  assumes "CHR ''/'' \<notin> set host" "CHR ''?'' \<notin> set host" "CHR ''?'' \<notin> set p" "511 \<le> length p"
  shows "proxy_path_of (''https://'' @ host @ ''/'' @ p @ ''?'' @ q) = ProxyUB"
proof -
  have d: "drop (0 + 8) (''https://'' @ t) = t" for t by simp
  have 1: "index_of (CHR ''/'') (host @ ''/'' @ p @ ''?'' @ q) = Some (length host)"
    using index_of_first [OF assms(1)] by simp
  have 2: "index_of (CHR ''?'') ((host @ ''/'' @ p) @ CHR ''?'' # q) = Some (length (host @ ''/'' @ p))"
    by (rule index_of_first) (use assms(2,3) in simp)
  show ?thesis
    unfolding proxy_path_of_def
    using strstr_prefix [of "''https://''" "host @ ''/'' @ p @ ''?'' @ q"] 1 2 assms(4) by (simp add: Let_def)
qed

text \<open>
  Claim C23. On a media client with a proxy bucket, a failed upload whose presigned URL has an object path of
  511 characters or more in front of its query runs over the 512 bytes of \<^verbatim>\<open>clean_path\<close> in the proxy
  fallback (the URL itself may have up to 1023 characters).
\<close>

theorem proxy_fallback_overflows:
  assumes "device_type ctx = ''mediaclient''" "proxy_bucket ctx \<noteq> []"
    and "os_read (fs w) (http_results_file (strategy s)) = Some (''https://'' @ host @ ''/'' @ p @ ''?'' @ q)"
    and "CHR ''/'' \<notin> set host" "CHR ''?'' \<notin> set host" "CHR ''?'' \<notin> set p" "511 \<le> length p"
    and "CHR 0x0A \<notin> set (host @ p @ q)" "length host + length p + length q \<le> 1013"
  shows "attempt_proxy_fallback E ctx s archive md5 w = None"
proof -
  let ?u = "''https://'' @ host @ ''/'' @ p @ ''?'' @ q"
  have "take 1023 ?u = ?u" using assms(9) by simp
  moreover have "takeWhile (\<lambda>c. c \<noteq> CHR 0x0A) ?u = ?u"
    using assms(8) by (subst takeWhile_eq_all_conv) auto
  ultimately have "first_line 1024 ?u = ?u" by (simp add: first_line_def)
  with long_path_overflows [OF assms(4-7)] assms(1-3) show ?thesis
    by (simp add: attempt_proxy_fallback_def)
qed

subsection \<open>A server that is down\<close>

text \<open>The direct path gets an error page (HTTP 404); CodeBig would accept the upload.\<close>

definition demo_context :: RuntimeContext where
  "demo_context = zero_context\<lparr>endpoint_url := ''https://up'', direct_max_attempts := 3, codebig_max_attempts := 1\<rparr>"

definition demo_session :: SessionState where
  "demo_session = zero_session\<lparr>fallback := PATH_CODEBIG, archive_file := ''/tmp/a.tgz''\<rparr>"

definition down_world :: "script world" where
  "down_world = sample_world (quiet_script\<lparr>posts := [(404, 0), (404, 0)], cbposts := [(200, 0)], puts := [(200, 0)]\<rparr>)
     [([''tmp''], Dir 0), ([''tmp'', ''rrd_httpresults.txt''], Reg ''https://s3/a?b'' 0)]"

definition demo_failed :: "(bool \<times> SessionState \<times> script world) option \<Rightarrow> bool" where
  "demo_failed r = (case r of None \<Rightarrow> False
     | Some v \<Rightarrow> \<not> fst v \<and> direct_attempts (fst (snd v)) = 2 \<and> used_fallback (fst (snd v)) \<and>
                 cbposts (net (snd (snd v))) = [(200, 0)])"

lemma demo_run: "demo_failed (execute_upload_cycle script_externals demo_context demo_session down_world)"
  by code_simp

lemma demo_no_proxy: "device_type demo_context \<noteq> ''mediaclient'' \<or> proxy_bucket demo_context = []"
  by (simp add: demo_context_def zero_context_def)

theorem upload_retries_bounded_witness:
  "\<exists>r s' w' k. attempt_upload script_externals demo_context demo_session PATH_DIRECT down_world = Some (r, s', w') \<and>
     1 \<le> k \<and> direct_attempts s' = int k \<and> k \<le> 3 \<and> pause (trace w') = 60 * (int k - 1)"
proof -
  obtain r s' w' where a: "attempt_upload script_externals demo_context demo_session PATH_DIRECT down_world = Some (r, s', w')"
    using path.retry_spec [OF single_attempt_returns [OF demo_no_proxy], where p = PATH_DIRECT and s = demo_session
        and w = down_world and E = script_externals]
    unfolding attempt_upload_def by blast
  have "direct_attempts demo_session = 0" "direct_max_attempts demo_context = 3" "trace down_world = []"
    by (simp_all add: demo_session_def zero_session_def demo_context_def zero_context_def down_world_def sample_world_def)
  with upload_retries_bounded [OF a] a show ?thesis by fastforce
qed

theorem upload_cycle_outcome_witness:
  "\<exists>s' w'. execute_upload_cycle script_externals demo_context demo_session down_world = Some (False, s', w') \<and>
     \<not> success s' \<and> archive_file s' = ''/tmp/a.tgz'' \<and> count_ev lu_success (trace w') = 0"
proof -
  obtain b s' w' where r: "execute_upload_cycle script_externals demo_context demo_session down_world = Some (b, s', w')"
    and "\<not> b"
    using demo_run by (auto simp: demo_failed_def split: option.splits)
  with upload_cycle_outcome [OF r] show ?thesis
    by (simp add: demo_session_def zero_session_def down_world_def sample_world_def)
qed

theorem fallback_never_uses_codebig_witness:
  "\<exists>s' w'. execute_upload_cycle script_externals demo_context demo_session down_world = Some (False, s', w') \<and>
     codebig_attempts s' = 0 \<and> used_fallback s' \<and> 2 \<le> direct_attempts s' \<and> cbposts (net w') = [(200, 0)]"
proof -
  obtain b s' w' where r: "execute_upload_cycle script_externals demo_context demo_session down_world = Some (b, s', w')"
    and "\<not> b" "used_fallback s'" "cbposts (net w') = [(200, 0)]"
    using demo_run by (auto simp: demo_failed_def split: option.splits)
  with fallback_never_uses_codebig [OF r] show ?thesis
    by (simp add: demo_session_def zero_session_def)
qed

theorem upload_cycle_returns_witness:
  "\<exists>b s' w'. execute_upload_cycle script_externals demo_context demo_session down_world = Some (b, s', w')"
  by (rule upload_cycle_returns [OF demo_no_proxy])

theorem proxy_fallback_overflows_witness:
  "attempt_proxy_fallback script_externals
     (zero_context\<lparr>device_type := ''mediaclient'', proxy_bucket := ''proxy''\<rparr>)
     zero_session ''/tmp/a.tgz'' None
     (sample_world quiet_script
        [([''tmp'', ''rrd_httpresults.txt''],
          Reg (''https://'' @ ''s3'' @ ''/'' @ replicate 511 (CHR ''x'') @ ''?'' @ ''sig'') 0)]) = None"
proof (rule proxy_fallback_overflows)
  let ?u = "''https://'' @ ''s3'' @ ''/'' @ replicate 511 (CHR ''x'') @ ''?'' @ ''sig''"
  let ?f = "\<lparr>nodes = [([''tmp'', ''rrd_httpresults.txt''], Reg ?u 0)], denied = []\<rparr>"
  have c: "comps (http_results_file STRAT_RRD) = [''tmp'', ''rrd_httpresults.txt'']" by code_simp
  have l: "lookup ?f [''tmp'', ''rrd_httpresults.txt''] = Some (Reg ?u 0)" by (simp add: lookup_def)
  have "resolve ?f (http_results_file STRAT_RRD) = Some [''tmp'', ''rrd_httpresults.txt'']"
    using resolve_plain [of ?f "http_results_file STRAT_RRD"] c l by simp
  then show "os_read (fs (sample_world quiet_script [([''tmp'', ''rrd_httpresults.txt''], Reg ?u 0)]))
      (http_results_file (strategy zero_session)) = Some ?u"
    using l by (simp add: os_read_def sample_world_def zero_session_def)
qed (simp_all add: zero_context_def)

end
