(* ===== verification/ContextManager.thy ===== *)
theory ContextManager
  imports Environment FileOps
begin

text \<open>
  The runtime context of the upload tool (\<^verbatim>\<open>uploadstblogs/src/context_manager.c\<close>) and the bus
  parameters it reads (\<^verbatim>\<open>rbus_interface.c\<close>).

  A property or a parameter is read by a library call; its value arrives cut to the buffer of
  the call.  \<open>rbus_get_string E u n\<close> is the string of a successful \<^verbatim>\<open>rbus_get\<close>.
\<close>

subsection \<open>Block markers\<close>

definition direct_block_file :: cstring where "direct_block_file = ''/tmp/.lastdirectfail_upl''"
definition codebig_block_file :: cstring where "codebig_block_file = ''/tmp/.lastcodebigfail_upl''"

text \<open>The two functions differ in the file and in what they log.\<close>

definition is_blocked :: "cstring \<Rightarrow> int \<Rightarrow> 'n world \<Rightarrow> bool \<times> 'n world" where
  "is_blocked block_file block_time w =
     (case os_open_nofollow (fs w) block_file of None \<Rightarrow> (False, w)
      | Some n \<Rightarrow>
          if clock w - node_mtime n \<le> block_time then (True, w)
          else (case os_unlink (fs w) block_file of Inl e \<Rightarrow> (False, w) | Inr g \<Rightarrow> (False, w\<lparr>fs := g\<rparr>)))"

definition is_direct_blocked :: "int \<Rightarrow> 'n world \<Rightarrow> bool \<times> 'n world" where
  "is_direct_blocked block_time w = is_blocked direct_block_file block_time w"

definition is_codebig_blocked :: "int \<Rightarrow> 'n world \<Rightarrow> bool \<times> 'n world" where
  "is_codebig_blocked block_time w = is_blocked codebig_block_file block_time w"

subsection \<open>Environment properties\<close>

definition or_default :: "cstring option \<Rightarrow> cstring \<Rightarrow> cstring" where
  "or_default v d = (case v of None \<Rightarrow> d | Some x \<Rightarrow> x)"

text \<open>A path below \<^verbatim>\<open>LOG_PATH\<close> when it fits the array of 512 bytes, and a fixed path otherwise; \<open>n\<close>
  is the length of the suffix with its NUL.\<close>

definition below_log_path :: "cstring \<Rightarrow> nat \<Rightarrow> cstring \<Rightarrow> cstring \<Rightarrow> cstring" where
  "below_log_path lp n suffix fallback_path = (if length lp + n \<le> MAX_PATH_LENGTH then lp @ suffix else fallback_path)"

definition block_time :: "cstring option \<Rightarrow> int \<Rightarrow> int" where
  "block_time v d = (case v of None \<Rightarrow> d | Some s \<Rightarrow> atoi s)"

definition load_environment :: "'n externals \<Rightarrow> RuntimeContext \<Rightarrow> 'n world \<Rightarrow> bool \<times> RuntimeContext \<times> 'n world" where
  "load_environment E ctx w =
     (let inc = (\<lambda>k. getIncludePropertyData E (outer_of w) k 32);
          dev = (\<lambda>k. getDevicePropertyData E (outer_of w) k 32);
          lp = or_default (inc ''LOG_PATH'') ''/opt/logs'';
          dtype = or_default (dev ''DEVICE_TYPE'') (device_type ctx);
          dcm_path = or_default (dev ''DCM_LOG_PATH'') ''/tmp/DCM/'';
          w1 = (if \<not> dir_exists E w dcm_path then snd (create_directory E dcm_path w) else w);
          os_release = (os_stat (fs w1) ''/etc/os-release'' \<noteq> None);
          maint = (case getDevicePropertyData E (outer_of w1) ''ENABLE_MAINTENANCE'' 32 of
                     None \<Rightarrow> maintenance_enabled ctx
                   | Some v \<Rightarrow> if strcasecmp_eq v ''true'' then True else maintenance_enabled ctx);
          ocsp = (if os_stat (fs w1) ''/tmp/.EnableOCSPStapling'' \<noteq> None \<or>
                     os_stat (fs w1) ''/tmp/.EnableOCSPCA'' \<noteq> None then True else ocsp_enabled ctx);
          dbt = block_time (inc ''DIRECT_BLOCK_TIME'') 86400;
          cbt = block_time (inc ''CB_BLOCK_TIME'') 1800
      in case is_direct_blocked dbt w1 of (db, w2) \<Rightarrow>
         case is_codebig_blocked cbt w2 of (cb, w3) \<Rightarrow>
           (True, ctx\<lparr>log_path := lp,
              prev_log_path := below_log_path lp 14 ''/PreviousLogs'' ''/opt/logs/PreviousLogs'',
              dri_log_path := ''/opt/logs/drilogs'',
              rrd_file := below_log_path lp 21 ''/remote-debugger.log'' ''/opt/logs/remote-debugger.log'',
              direct_retry_delay := dbt, codebig_retry_delay := cbt,
              proxy_bucket := or_default (dev ''PROXY_BUCKET'') [],
              direct_max_attempts := 3, codebig_max_attempts := 1, curl_timeout := 10, curl_tls_timeout := 30,
              device_type := dtype,
              build_type := or_default (dev ''BUILD_TYPE'') (build_type ctx),
              telemetry_path := ''/opt/.telemetry'',
              dcm_log_file := below_log_path lp 16 ''/dcmscript.log'' ''/opt/logs/dcmscript.log'',
              dcm_log_path := dcm_path,
              tls_enabled := os_release,
              iarm_event_binary := if os_release then ''/usr/bin'' else ''/usr/local/bin'',
              maintenance_enabled := maint,
              include_pcap := if strcasecmp_eq dtype ''mediaclient'' then True else include_pcap ctx,
              include_dri := True,
              ocsp_enabled := ocsp,
              direct_blocked := db, codebig_blocked := cb,
              temp_dir := ''/tmp'', archive_path := ''/tmp''\<rparr>, w3))"

subsection \<open>Bus parameters\<close>

definition rbus_init :: "'n externals \<Rightarrow> 'n world \<Rightarrow> bool \<times> 'n world" where
  "rbus_init E w =
     (if g_rbusInitialized w then (True, w)
      else case xcall (rbus_open E) w of (rc, w1) \<Rightarrow>
        if rc \<noteq> 0 then (False, w1) else (True, w1\<lparr>g_rbusInitialized := True\<rparr>))"

definition rbus_get_string_param :: "'n externals \<Rightarrow> cstring \<Rightarrow> nat \<Rightarrow> 'n world \<Rightarrow> cstring option" where
  "rbus_get_string_param E param buf_size w =
     (if buf_size = 0 \<or> \<not> g_rbusInitialized w then None
      else case rbus_get_string E (outer_of w) param of None \<Rightarrow> None
           | Some v \<Rightarrow> if v = [] then None else Some (take (buf_size - 1) v))"

definition rbus_get_bool_param :: "'n externals \<Rightarrow> cstring \<Rightarrow> 'n world \<Rightarrow> bool option" where
  "rbus_get_bool_param E param w =
     (if \<not> g_rbusInitialized w then None else rbus_get_bool E (outer_of w) param)"

definition load_tr181_params :: "'n externals \<Rightarrow> RuntimeContext \<Rightarrow> 'n world \<Rightarrow> bool \<times> RuntimeContext \<times> 'n world" where
  "load_tr181_params E ctx w =
     (case rbus_init E w of (ok, w1) \<Rightarrow>
        if \<not> ok then (False, ctx, w1)
        else (True,
          ctx\<lparr>endpoint_url := or_default
                (rbus_get_string_param E ''Device.DeviceInfo.X_RDKCENTRAL-COM_RFC.Feature.LogUploadEndpoint.URL'' 1024 w1)
                (endpoint_url ctx),
              encryption_enable :=
                (case rbus_get_bool_param E ''Device.DeviceInfo.X_RDKCENTRAL-COM_RFC.Feature.EncryptCloudUpload.Enable'' w1 of
                   None \<Rightarrow> False | Some b \<Rightarrow> b),
              privacy_do_not_share :=
                (case rbus_get_string_param E ''Device.X_RDKCENTRAL-COM_Privacy.PrivacyMode'' 32 w1 of
                   None \<Rightarrow> False | Some v \<Rightarrow> strcasecmp_eq v ''DO_NOT_SHARE'')\<rparr>, w1))"

definition get_mac_address :: "'n externals \<Rightarrow> nat \<Rightarrow> 'n world \<Rightarrow> cstring option" where
  "get_mac_address E buf_size w =
     (if buf_size = 0 then None
      else let m = GetEstbMac E (outer_of w) buf_size in if m = [] then None else Some m)"

definition init_context :: "'n externals \<Rightarrow> 'n world \<Rightarrow> bool \<times> RuntimeContext \<times> 'n world" where
  "init_context E w =
     (case load_environment E zero_context w of (ok, ctx1, w1) \<Rightarrow>
        if \<not> ok then (False, ctx1, w1)
        else case load_tr181_params E ctx1 w1 of (ok2, ctx2, w2) \<Rightarrow>
          if \<not> ok2 then (False, ctx2, w2)
          else case get_mac_address E 32 w2 of None \<Rightarrow> (False, ctx2, w2)
               | Some m \<Rightarrow> (True, ctx2\<lparr>mac_address := m\<rparr>, w2))"

end
