(* ===== verification/CleanupHandler.thy ===== *)
theory CleanupHandler
  imports ContextManager
begin

text \<open>
  Clean-up after an upload (\<^verbatim>\<open>uploadstblogs/src/cleanup_handler.c\<close>): removal of old backups and
  archives, the block markers, privacy enforcement and the finalisation of a session.

  The recursive functions go down one directory per call, on paths cut to the 511 characters of
  their buffers.  A path below that length grows by at least two characters per level, so a
  recursion deeper than 256 levels repeats a cut path and does not end; the fuel \<^term>\<open>300::nat\<close> is
  therefore enough, and \<^const>\<open>None\<close> means that the function does not return.  The theory \<open>CleanupProps\<close> proves
  that it is enough for \<^verbatim>\<open>cleanup_old_archives\<close> when no path is cut.
\<close>

subsection \<open>Recursive removal\<close>

text \<open>\<^verbatim>\<open>remove(path)\<close>: \<^verbatim>\<open>unlink\<close> for files, \<^verbatim>\<open>rmdir\<close> for directories.\<close>

definition os_remove :: "fsys \<Rightarrow> cstring \<Rightarrow> errno + fsys" where
  "os_remove f p =
     (case os_lstat f p of Some (Dir m) \<Rightarrow> os_rmdir f p | Some (Reg d m) \<Rightarrow> os_unlink f p
      | Some (Lnk t m) \<Rightarrow> os_unlink f p | None \<Rightarrow> os_unlink f p)"

fun rmdir_entries :: "(cstring \<Rightarrow> 'n world \<Rightarrow> (int \<times> 'n world) option) \<Rightarrow> cstring \<Rightarrow> string list \<Rightarrow> 'n world \<Rightarrow> 'n world option" where
  "rmdir_entries sub p [] w = Some w"
| "rmdir_entries sub p (n # ns) w =
     (if n = ''.'' \<or> n = ''..'' then rmdir_entries sub p ns w
      else let filepath = take 511 (slashed p n) in
           case sub filepath w of None \<Rightarrow> None
           | Some (result, w1) \<Rightarrow>
               rmdir_entries sub p ns (if result \<noteq> 0 then snd (on_fs (\<lambda>f. os_unlink f filepath) w1) else w1))"

fun rmdir_recursive :: "nat \<Rightarrow> cstring \<Rightarrow> 'n world \<Rightarrow> (int \<times> 'n world) option" where
  "rmdir_recursive 0 p w = None"
| "rmdir_recursive (Suc k) p w =
     (case os_readdir (fs w) p of
        None \<Rightarrow> (case on_fs (\<lambda>f. os_remove f p) w of (ok, w1) \<Rightarrow> Some (if ok then 0 else -1, w1))
      | Some ns \<Rightarrow>
          (case rmdir_entries (rmdir_recursive k) p ns w of None \<Rightarrow> None
           | Some w1 \<Rightarrow> (case on_fs (\<lambda>f. os_rmdir f p) w1 of (ok, w2) \<Rightarrow> Some (if ok then 0 else -1, w2))))"

definition remove_directory_recursive :: "cstring \<Rightarrow> 'n world \<Rightarrow> (int \<times> 'n world) option" where
  "remove_directory_recursive p w = rmdir_recursive 300 p w"

subsection \<open>Old backups\<close>

text \<open>The regular expression \<^verbatim>\<open>[0-9]+-[0-9]+-[0-9]+-[0-9]+-[0-9]+[AP]M(-logbackup)?$\<close>, which may start
  anywhere in the name: \<open>match_digits\<close> is one or more digits, \<open>k\<close> groups with dashes remain.\<close>

fun match_groups :: "nat \<Rightarrow> cstring \<Rightarrow> cstring option" where
  "match_groups k s =
     (let ds = takeWhile isdigit s; r = dropWhile isdigit s in
      if ds = [] then None
      else case k of 0 \<Rightarrow> Some r
           | Suc j \<Rightarrow> (case r of [] \<Rightarrow> None | c # r' \<Rightarrow> if c = CHR ''-'' then match_groups j r' else None))"

definition match_tail :: "cstring \<Rightarrow> bool" where
  "match_tail s = (s = ''AM'' \<or> s = ''PM'' \<or> s = ''AM-logbackup'' \<or> s = ''PM-logbackup'')"

definition match_here :: "cstring \<Rightarrow> bool" where
  "match_here s = (case match_groups 4 s of None \<Rightarrow> False | Some r \<Rightarrow> match_tail r)"

fun match_anywhere :: "cstring \<Rightarrow> bool" where
  "match_anywhere [] = match_here []"
| "match_anywhere (c # s) = (match_here (c # s) \<or> match_anywhere s)"

definition is_timestamped_backup :: "cstring \<Rightarrow> bool" where
  "is_timestamped_backup filename = match_anywhere filename"

fun old_backups_loop :: "cstring \<Rightarrow> int \<Rightarrow> string list \<Rightarrow> int \<Rightarrow> 'n world \<Rightarrow> (int \<times> 'n world) option" where
  "old_backups_loop log cutoff [] removed w = Some (removed, w)"
| "old_backups_loop log cutoff (n # ns) removed w =
     (if n = ''.'' \<or> n = ''..'' \<or> \<not> is_timestamped_backup n then old_backups_loop log cutoff ns removed w
      else let fullpath = take 511 (slashed log n) in
        case os_open_nofollow (fs w) fullpath of
          None \<Rightarrow> old_backups_loop log cutoff ns removed w
        | Some st \<Rightarrow>
            if node_mtime st < cutoff
            then (if is_dir st
                  then (case remove_directory_recursive fullpath w of None \<Rightarrow> None
                        | Some (r, w1) \<Rightarrow> old_backups_loop log cutoff ns (if r = 0 then removed + 1 else removed) w1)
                  else (case on_fs (\<lambda>f. os_unlink f fullpath) w of (ok, w1) \<Rightarrow>
                          old_backups_loop log cutoff ns (if ok then removed + 1 else removed) w1))
            else old_backups_loop log cutoff ns removed w)"

definition cleanup_old_log_backups :: "cstring \<Rightarrow> int \<Rightarrow> 'n world \<Rightarrow> (int \<times> 'n world) option" where
  "cleanup_old_log_backups log max_age_days w =
     (case os_readdir (fs w) log of None \<Rightarrow> Some (-1, w)
      | Some ns \<Rightarrow> old_backups_loop log (clock w - int32 (max_age_days * 86400)) ns 0 w)"

subsection \<open>Old archives\<close>

fun old_archives_loop ::
  "(cstring \<Rightarrow> 'n world \<Rightarrow> (int \<times> 'n world) option) \<Rightarrow> cstring \<Rightarrow> string list \<Rightarrow> int \<Rightarrow> 'n world \<Rightarrow> (int \<times> 'n world) option" where
  "old_archives_loop sub log [] removed w = Some (removed, w)"
| "old_archives_loop sub log (n # ns) removed w =
     (if n = ''.'' \<or> n = ''..'' then old_archives_loop sub log ns removed w
      else case os_lstat (fs w) (slashed log n) of
        None \<Rightarrow> old_archives_loop sub log ns removed w
      | Some (Dir m) \<Rightarrow>
          (case sub (take 511 (slashed log n)) w of None \<Rightarrow> None
           | Some (c, w1) \<Rightarrow> old_archives_loop sub log ns (if 0 < c then removed + c else removed) w1)
      | Some (Reg d m) \<Rightarrow>
          if \<not> has_suffix ''.tgz'' n \<or> too_long (slashed log n) then old_archives_loop sub log ns removed w
          else (case on_fs (\<lambda>f. os_unlink f (slashed log n)) w of (ok, w1) \<Rightarrow>
                  old_archives_loop sub log ns (if ok then removed + 1 else removed) w1)
      | Some (Lnk t m) \<Rightarrow> old_archives_loop sub log ns removed w)"

fun old_archives :: "nat \<Rightarrow> cstring \<Rightarrow> 'n world \<Rightarrow> (int \<times> 'n world) option" where
  "old_archives 0 log w = None"
| "old_archives (Suc k) log w =
     (case os_readdir (fs w) log of None \<Rightarrow> Some (-1, w)
      | Some ns \<Rightarrow> old_archives_loop (old_archives k) log ns 0 w)"

definition cleanup_old_archives :: "cstring \<Rightarrow> 'n world \<Rightarrow> (int \<times> 'n world) option" where
  "cleanup_old_archives log w = old_archives 300 log w"

subsection \<open>Privacy\<close>

fun privacy_loop :: "cstring \<Rightarrow> string list \<Rightarrow> 'n world \<Rightarrow> 'n world" where
  "privacy_loop log [] w = w"
| "privacy_loop log (n # ns) w =
     (if (n \<noteq> [] \<and> hd n = CHR ''.'') \<or> n = ''..'' then privacy_loop log ns w
      else case os_truncate_nofollow (fs w) (take 511 (slashed log n)) (clock w) of
             None \<Rightarrow> privacy_loop log ns w
           | Some g \<Rightarrow> privacy_loop log ns (w\<lparr>fs := g\<rparr>))"

definition enforce_privacy :: "'n externals \<Rightarrow> cstring \<Rightarrow> 'n world \<Rightarrow> 'n world" where
  "enforce_privacy E log w =
     (if \<not> dir_exists E w log then w
      else case os_readdir (fs w) log of None \<Rightarrow> w | Some ns \<Rightarrow> privacy_loop log ns w)"

subsection \<open>Block markers\<close>

definition create_block_marker :: "UploadPath \<Rightarrow> int \<Rightarrow> 'n world \<Rightarrow> bool \<times> 'n world" where
  "create_block_marker path duration w =
     (let txt = ''Block created at '' @ int_dec (clock w) @ '' for '' @ int_dec duration @ '' seconds'' @ [CHR 0x0A];
          mark = (\<lambda>file. case os_write (fs w) file txt (clock w) of None \<Rightarrow> (False, w) | Some g \<Rightarrow> (True, w\<lparr>fs := g\<rparr>))
      in case path of PATH_DIRECT \<Rightarrow> mark ''/tmp/.lastdirectfail_upl''
         | PATH_CODEBIG \<Rightarrow> mark ''/tmp/.lastcodebigfail_upl''
         | PATH_NONE \<Rightarrow> (False, w))"

definition update_block_markers :: "SessionState \<Rightarrow> 'n world \<Rightarrow> 'n world" where
  "update_block_markers s w =
     (if success s
      then if used_fallback s \<or> codebig_attempts s > 0
           then snd (create_block_marker PATH_DIRECT (24 * 3600) w) else w
      else if codebig_attempts s > 0
           then snd (create_block_marker PATH_CODEBIG (30 * 60) w) else w)"

subsection \<open>Finalisation\<close>

definition remove_archive :: "cstring \<Rightarrow> 'n world \<Rightarrow> bool \<times> 'n world" where
  "remove_archive p w =
     (if p = [] then (False, w)
      else case os_unlink (fs w) p of Inr g \<Rightarrow> (True, w\<lparr>fs := g\<rparr>) | Inl e \<Rightarrow> (e = ENOENT, w))"

definition unlink_if_present :: "cstring \<Rightarrow> 'n world \<Rightarrow> bool \<times> 'n world" where
  "unlink_if_present p w =
     (case os_unlink (fs w) p of Inr g \<Rightarrow> (True, w\<lparr>fs := g\<rparr>) | Inl e \<Rightarrow> (e = ENOENT, w))"

definition cleanup_temp_dirs :: "'n world \<Rightarrow> bool \<times> 'n world" where
  "cleanup_temp_dirs w =
     (case unlink_if_present ''/tmp/httpresults.txt'' w of (a, w1) \<Rightarrow>
      case unlink_if_present ''/tmp/rrd_httpresults.txt'' w1 of (b, w2) \<Rightarrow> (a \<and> b, w2))"

definition finalize_session :: "RuntimeContext \<Rightarrow> SessionState \<Rightarrow> 'n world \<Rightarrow> 'n world" where
  "finalize_session ctx s w =
     (let w1 = update_block_markers s w;
          w2 = (if trigger_type ctx \<noteq> trigger_code TRIGGER_MEMCAPTURE \<and> success s \<and> archive_file s \<noteq> []
                then snd (remove_archive (archive_file s) w1) else w1)
      in snd (cleanup_temp_dirs w2))"

end
