(* ===== verification/DcmUtils.thy ===== *)
theory DcmUtils
  imports CleanupHandler
begin

text \<open>
  The helper functions of the daemon (\<^verbatim>\<open>dcm_utils.c\<close>) and the code outside the repository that only
  the daemon calls: the shell behind \<^verbatim>\<open>popen\<close>, the process number, the JSON library cJSON and
  the event functions of the bus library.

  A parsed JSON text is the tree of nodes that cJSON documents: a node has a type, for numbers and
  strings a value, and for arrays and objects its children in order; the children of an object have
  names, those of an array have none.  How a text is parsed and how a member is looked up is the
  library's, hence a parameter.
\<close>

subsection \<open>Code outside the repository\<close>

datatype cjson = JNull | JBool bool | JNumber int | JString cstring
  | JArray "cjson list" | JObject "(cstring \<times> cjson) list"

record 'n dcm_externals =
  popen :: "cstring \<Rightarrow> 'n outer \<Rightarrow> cstring option \<times> 'n outer"
  getpid :: "'n outer \<Rightarrow> int"
  cJSON_Parse :: "cstring \<Rightarrow> cjson option"
  cJSON_GetObjectItem :: "cjson \<Rightarrow> cstring \<Rightarrow> cjson option"
  rbus_checkStatus :: "'n outer \<Rightarrow> int"
  rbus_open_receiver :: "'n outer \<Rightarrow> int \<times> 'n outer"
  rbus_close :: "'n outer \<Rightarrow> int \<times> 'n outer"
  rbus_get_t2_version :: "'n outer \<Rightarrow> int \<times> cstring option"
  rbusEvent_SubscribeAsync :: "cstring \<Rightarrow> 'n outer \<Rightarrow> int \<times> 'n outer"
  rbusEvent_Unsubscribe :: "cstring \<Rightarrow> 'n outer \<Rightarrow> int \<times> 'n outer"
  rbus_regDataElements :: "cstring \<Rightarrow> 'n outer \<Rightarrow> int \<times> 'n outer"
  rbus_unregDataElements :: "cstring \<Rightarrow> 'n outer \<Rightarrow> int \<times> 'n outer"
  rbusEvent_Publish :: "cstring \<Rightarrow> cstring \<Rightarrow> 'n outer \<Rightarrow> int \<times> 'n outer"

subsection \<open>Files and commands\<close>

definition DCM_PID_FILE :: cstring where "DCM_PID_FILE = ''/tmp/.dcm-daemon.pid''"
definition EXECMD_BUFF_SIZE :: nat where "EXECMD_BUFF_SIZE = 1024"

definition dcmUtilsFilePresentCheck :: "cstring option \<Rightarrow> 'n world \<Rightarrow> int" where
  "dcmUtilsFilePresentCheck file_name w =
     (case file_name of None \<Rightarrow> DCM_FAILURE
      | Some p \<Rightarrow> if os_stat (fs w) p = None then DCM_FAILURE else DCM_SUCCESS)"

text \<open>The first line of the output, without its newline; \<open>None\<close> for a null buffer, which stays so.\<close>

definition dcmUtilsCopyCommandOutput ::
  "'n dcm_externals \<Rightarrow> cstring \<Rightarrow> nat option \<Rightarrow> 'n world \<Rightarrow> cstring option \<times> 'n world" where
  "dcmUtilsCopyCommandOutput D cmd out_len w =
     (case xcall (popen D cmd) (emit (Shell cmd) w) of (r, w1) \<Rightarrow>
        (case out_len of None \<Rightarrow> None
         | Some len \<Rightarrow>
             (case r of None \<Rightarrow> Some []
              | Some output \<Rightarrow> (case fgets_all len output of [] \<Rightarrow> Some [] | l # ls \<Rightarrow> Some (chomp l))), w1))"

definition dcmUtilsSysCmdExec :: "'n dcm_externals \<Rightarrow> cstring option \<Rightarrow> 'n world \<Rightarrow> int \<times> 'n world" where
  "dcmUtilsSysCmdExec D cmd w =
     (case cmd of None \<Rightarrow> (DCM_FAILURE, w)
      | Some c \<Rightarrow> (DCM_SUCCESS, snd (dcmUtilsCopyCommandOutput D c None w)))"

text \<open>An empty PID file leaves the local array \<^verbatim>\<open>PID\<close> uninitialised before it is printed: \<^const>\<open>None\<close>.\<close>

definition write_pid_file :: "'n dcm_externals \<Rightarrow> 'n world \<Rightarrow> int \<times> 'n world" where
  "write_pid_file D w =
     (case os_write (fs w) DCM_PID_FILE (int_dec (getpid D (outer_of w))) (clock w) of
        None \<Rightarrow> (DCM_FAILURE, w) | Some g \<Rightarrow> (DCM_SUCCESS, w\<lparr>fs := g\<rparr>))"

definition dcmUtilsCheckDaemonStatus :: "'n dcm_externals \<Rightarrow> 'n world \<Rightarrow> (int \<times> 'n world) option" where
  "dcmUtilsCheckDaemonStatus D w =
     (case os_read (fs w) DCM_PID_FILE of None \<Rightarrow> Some (write_pid_file D w)
      | Some d \<Rightarrow>
          (case fgets_all 32 d of [] \<Rightarrow> None
           | PID # ls \<Rightarrow>
               if dcmUtilsFilePresentCheck (Some (take 63 (''/proc/'' @ PID))) w = 0
               then Some (DCM_FAILURE, w) else Some (write_pid_file D w)))"

definition dcmUtilsRemovePIDfile :: "'n world \<Rightarrow> 'n world" where
  "dcmUtilsRemovePIDfile w =
     (if os_read (fs w) DCM_PID_FILE = None then w
      else snd (on_fs (\<lambda>f. os_remove f DCM_PID_FILE) w))"

text \<open>The event to the maintenance manager is not sent by this version of the daemon.\<close>

definition DCM_IARM_ERROR :: int where "DCM_IARM_ERROR = 1"

definition dcmIARMEvntSend :: "int \<Rightarrow> int" where
  "dcmIARMEvntSend status = DCM_SUCCESS"

text \<open>A line matches when it begins with the entry and an equals sign; the entries the daemon asks
  for are shorter than the line buffer of 512 bytes.\<close>

fun entry_loop :: "cstring \<Rightarrow> cstring list \<Rightarrow> cstring option" where
  "entry_loop entry [] = None"
| "entry_loop entry (l # ls) =
     (if is_prefix (entry @ ''='') l
      then Some (takeWhile (\<lambda>c. c \<noteq> CHR 0x0D \<and> c \<noteq> CHR 0x0A) (drop (Suc (length entry)) l))
      else entry_loop entry ls)"

definition dcmUtilsGetFileEntry :: "cstring option \<Rightarrow> cstring option \<Rightarrow> 'n world \<Rightarrow> cstring option" where
  "dcmUtilsGetFileEntry fileName searchEntry w =
     (case fileName of None \<Rightarrow> None
      | Some f \<Rightarrow>
          (case searchEntry of None \<Rightarrow> None
           | Some entry \<Rightarrow>
               (case os_read (fs w) f of None \<Rightarrow> None | Some d \<Rightarrow> entry_loop entry (fgets_all 512 d))))"

text \<open>A file written as \<open>key=value\<close> lines gives its values back.\<close>

lemma is_prefix_append [simp]: "is_prefix a (a @ b)"
  by (induction a) auto

end
