(* ===== verification/ArchiveManager.thy ===== *)
theory ArchiveManager
  imports Environment FileOps
begin

text \<open>
  Log collection and archives (\<^verbatim>\<open>uploadstblogs/src/archive_manager.c\<close>).

  The bytes of a tar archive are characters.  The gzip library is a parameter: the file that
  \<^verbatim>\<open>gzclose\<close> leaves holds \<open>gzip_bytes\<close> of what was written, and a write or the close may fail.
  The position in the stream, the number of bytes written so far, is all a failing write can
  depend on besides the outer state.  \<open>entry->d_type\<close> is the type of the node itself.
\<close>

subsection \<open>Collection\<close>

definition should_collect_file :: "string \<Rightarrow> bool" where
  "should_collect_file n =
     (if n = [] \<or> n = ''.'' \<or> n = ''..'' then False
      else strstr n ''.log'' \<noteq> None \<or> strstr n ''.txt'' \<noteq> None)"

text \<open>The part of a path after its last slash.\<close>

definition base_name :: "cstring \<Rightarrow> cstring" where
  "base_name p = rev (takeWhile (\<lambda>c. c \<noteq> CHR ''/'') (rev p))"

definition copy_log_file :: "'n externals \<Rightarrow> cstring \<Rightarrow> cstring \<Rightarrow> 'n world \<Rightarrow> bool \<times> 'n world" where
  "copy_log_file E src dest_dir w =
     (let dest_path = slashed dest_dir (base_name src) in
      if 2048 \<le> length dest_path then (False, w) else copy_file E src dest_path w)"

definition is_dt_dir :: "'n world \<Rightarrow> cstring \<Rightarrow> string \<Rightarrow> bool" where
  "is_dt_dir w d n =
     (n = ''.'' \<or> n = ''..'' \<or>
      (case os_lstat (fs w) (slashed d n) of None \<Rightarrow> False | Some x \<Rightarrow> is_dir x))"

fun collect_loop ::
  "'n externals \<Rightarrow> cstring \<Rightarrow> cstring \<Rightarrow> (string \<Rightarrow> bool) option \<Rightarrow> string list \<Rightarrow> int \<Rightarrow> 'n world \<Rightarrow> int \<times> 'n world" where
  "collect_loop E src dest flt [] count w = (count, w)"
| "collect_loop E src dest flt (n # ns) count w =
     (if is_dt_dir w src n \<or> (case flt of None \<Rightarrow> False | Some f \<Rightarrow> \<not> f n) \<or> 2048 \<le> length (slashed src n)
      then collect_loop E src dest flt ns count w
      else case copy_log_file E (slashed src n) dest w of (ok, w1) \<Rightarrow>
             collect_loop E src dest flt ns (if ok then count + 1 else count) w1)"

definition collect_files_from_dir ::
  "'n externals \<Rightarrow> cstring \<Rightarrow> cstring \<Rightarrow> (string \<Rightarrow> bool) option \<Rightarrow> 'n world \<Rightarrow> int \<times> 'n world" where
  "collect_files_from_dir E src dest flt w =
     (if \<not> dir_exists E w src then (0, w)
      else case os_readdir (fs w) src of None \<Rightarrow> (-1, w)
           | Some ns \<Rightarrow> collect_loop E src dest flt ns 0 w)"

definition collect_logs :: "'n externals \<Rightarrow> RuntimeContext \<Rightarrow> cstring \<Rightarrow> 'n world \<Rightarrow> int \<times> 'n world" where
  "collect_logs E ctx dest w =
     (if log_path ctx = [] then (-1, w)
      else collect_files_from_dir E (log_path ctx) dest (Some should_collect_file) w)"

definition collect_previous_logs :: "'n externals \<Rightarrow> cstring \<Rightarrow> cstring \<Rightarrow> 'n world \<Rightarrow> int \<times> 'n world" where
  "collect_previous_logs E src dest w =
     (if \<not> dir_exists E w src then (0, w)
      else collect_files_from_dir E src dest (Some should_collect_file) w)"

text \<open>The most recent capture: the first regular file with the largest modification time above zero.\<close>

fun newest_pcap_loop :: "'n world \<Rightarrow> cstring \<Rightarrow> string list \<Rightarrow> int \<times> cstring \<Rightarrow> int \<times> cstring" where
  "newest_pcap_loop w d [] best = best"
| "newest_pcap_loop w d (n # ns) best =
     (if is_dt_dir w d n \<or> strstr n ''.pcap'' = None \<or> 2048 \<le> length (slashed d n)
      then newest_pcap_loop w d ns best
      else case os_stat (fs w) (slashed d n) of
             Some (Reg b m) \<Rightarrow>
               newest_pcap_loop w d ns (if fst best < m then (m, take 1023 (slashed d n)) else best)
           | Some (Dir m) \<Rightarrow> newest_pcap_loop w d ns best
           | Some (Lnk t m) \<Rightarrow> newest_pcap_loop w d ns best
           | None \<Rightarrow> newest_pcap_loop w d ns best)"

definition collect_pcap_logs :: "'n externals \<Rightarrow> RuntimeContext \<Rightarrow> cstring \<Rightarrow> 'n world \<Rightarrow> int \<times> 'n world" where
  "collect_pcap_logs E ctx dest w =
     (if \<not> include_pcap ctx then (0, w)
      else case os_readdir (fs w) (log_path ctx) of None \<Rightarrow> (0, w)
      | Some ns \<Rightarrow>
          (case newest_pcap_loop w (log_path ctx) ns (0, []) of (t, pcap) \<Rightarrow>
             if 0 < t \<and> pcap \<noteq> []
             then (case copy_log_file E pcap dest w of (ok, w1) \<Rightarrow> (if ok then 1 else 0, w1))
             else (0, w)))"

definition collect_dri_logs :: "'n externals \<Rightarrow> RuntimeContext \<Rightarrow> cstring \<Rightarrow> 'n world \<Rightarrow> int \<times> 'n world" where
  "collect_dri_logs E ctx dest w =
     (if \<not> include_dri ctx \<or> dri_log_path ctx = [] \<or> \<not> dir_exists E w (dri_log_path ctx) then (0, w)
      else collect_files_from_dir E (dri_log_path ctx) dest None w)"

subsection \<open>Archive names\<close>

text \<open>The copy of the MAC address stops at the first 31 characters that are not colons.\<close>

definition mac_clean :: "cstring \<Rightarrow> cstring" where
  "mac_clean mac = take 31 (filter (\<lambda>c. c \<noteq> CHR '':'') mac)"

definition generate_archive_name_at :: "nat \<Rightarrow> cstring \<Rightarrow> cstring \<Rightarrow> int \<Rightarrow> cstring option" where
  "generate_archive_name_at buffer_size mac prefix ref_time =
     (case gmtime_r ref_time of None \<Rightarrow> None
      | Some t \<Rightarrow> Some (take (buffer_size - 1) (mac_clean mac @ ''_'' @ prefix @ ''_'' @ stamp t @ ''.tgz'')))"

definition generate_archive_name :: "nat \<Rightarrow> cstring \<Rightarrow> cstring \<Rightarrow> 'n world \<Rightarrow> cstring option" where
  "generate_archive_name buffer_size mac prefix w =
     (if buffer_size < 64 \<or> mac = [] then None
      else generate_archive_name_at buffer_size mac prefix (clock w))"

subsection \<open>Tar\<close>

definition NUL :: char where "NUL = char_of (0 :: nat)"

definition TAR_BLOCK_SIZE :: nat where "TAR_BLOCK_SIZE = 512"

fun octal :: "nat \<Rightarrow> cstring" where
  "octal n = (if n < 8 then [char_of (n + 48)] else octal (n div 8) @ [char_of (n mod 8 + 48)])"

declare octal.simps [simp del]

text \<open>\<^verbatim>\<open>snprintf(field, size, "%0<w>lo", n)\<close> into a zeroed field of \<open>size\<close> bytes.\<close>

definition zero_fill :: "nat \<Rightarrow> cstring \<Rightarrow> cstring" where
  "zero_fill w s = replicate (w - length s) (CHR ''0'') @ s"

definition pad_field :: "nat \<Rightarrow> cstring \<Rightarrow> cstring" where
  "pad_field n s = take (n - 1) s @ replicate (n - length (take (n - 1) s)) NUL"

definition octal_field :: "nat \<Rightarrow> nat \<Rightarrow> nat \<Rightarrow> cstring" where
  "octal_field len w n = pad_field len (zero_fill w (octal n))"

record tar_header =
  h_name :: cstring
  h_mode :: cstring
  h_uid :: cstring
  h_gid :: cstring
  h_size :: cstring
  h_mtime :: cstring
  h_checksum :: cstring
  h_typeflag :: char
  h_linkname :: cstring
  h_magic :: cstring
  h_version :: cstring
  h_rest :: cstring

definition header_bytes :: "tar_header \<Rightarrow> cstring" where
  "header_bytes h = h_name h @ h_mode h @ h_uid h @ h_gid h @ h_size h @ h_mtime h @ h_checksum h @
     [h_typeflag h] @ h_linkname h @ h_magic h @ h_version h @ h_rest h"

definition byte_sum :: "cstring \<Rightarrow> nat" where
  "byte_sum s = foldr (\<lambda>c n. of_char c + n) s 0"

definition calculate_tar_checksum :: "tar_header \<Rightarrow> nat" where
  "calculate_tar_checksum h = byte_sum (header_bytes (h\<lparr>h_checksum := replicate 8 (CHR '' '')\<rparr>))"

text \<open>The field still holds spaces when the digits and the NUL are written over it.\<close>

definition checksum_field :: "nat \<Rightarrow> cstring" where
  "checksum_field n = (let s = take 7 (zero_fill 6 (octal n)) @ [NUL] in
     s @ replicate (8 - length s) (CHR '' ''))"

definition tar_header_of :: "cstring \<Rightarrow> nat \<Rightarrow> node \<Rightarrow> cstring option \<Rightarrow> tar_header" where
  "tar_header_of filename mode st link =
     (let h = \<lparr>h_name = pad_field 100 filename,
               h_mode = octal_field 8 7 (mode AND 511),
               h_uid = octal_field 8 7 0, h_gid = octal_field 8 7 0,
               h_size = (case st of Reg d m \<Rightarrow> octal_field 12 11 (length d)
                                  | Dir m \<Rightarrow> octal_field 12 11 0 | Lnk t m \<Rightarrow> octal_field 12 11 0),
               h_mtime = octal_field 12 11 (nat (node_mtime st mod 18446744073709551616)),
               h_checksum = replicate 8 NUL,
               h_typeflag = (case st of Reg d m \<Rightarrow> CHR ''0'' | Dir m \<Rightarrow> CHR ''0'' | Lnk t m \<Rightarrow> CHR ''2''),
               h_linkname = (case st of Reg d m \<Rightarrow> replicate 100 NUL | Dir m \<Rightarrow> replicate 100 NUL
                  | Lnk t m \<Rightarrow> (case link of None \<Rightarrow> replicate 100 NUL | Some l \<Rightarrow> pad_field 100 l)),
               h_magic = ''ustar'' @ [NUL], h_version = ''00'',
               h_rest = replicate 247 NUL\<rparr>
      in h\<lparr>h_checksum := checksum_field (calculate_tar_checksum h)\<rparr>)"

text \<open>A gzip stream is the bytes written to it so far.\<close>

definition gzwrite :: "'n externals \<Rightarrow> 'n world \<Rightarrow> cstring \<Rightarrow> cstring \<Rightarrow> cstring option" where
  "gzwrite E w gz bytes = (if gzwrite_ok E (outer_of w) (length gz + length bytes) then Some (gz @ bytes) else None)"

definition write_tar_header ::
  "'n externals \<Rightarrow> 'n world \<Rightarrow> cstring \<Rightarrow> cstring \<Rightarrow> nat \<Rightarrow> node \<Rightarrow> cstring option \<Rightarrow> bool \<times> cstring" where
  "write_tar_header E w gz filename mode st link =
     (case gzwrite E w gz (header_bytes (tar_header_of filename mode st link)) of
        None \<Rightarrow> (False, gz) | Some g \<Rightarrow> (True, g))"

text \<open>The contents in pieces of 8192 bytes; on a failing write the pieces before it stay.\<close>

function gzwrite_chunks :: "'n externals \<Rightarrow> 'n world \<Rightarrow> cstring \<Rightarrow> cstring \<Rightarrow> bool \<times> cstring" where
  "gzwrite_chunks E w gz d =
     (if d = [] then (True, gz)
      else case gzwrite E w gz (take 8192 d) of None \<Rightarrow> (False, gz)
           | Some g \<Rightarrow> gzwrite_chunks E w g (drop 8192 d))"
  by pat_completeness auto
termination by (relation "measure (\<lambda>(E, w, gz, d). length d)") auto

declare gzwrite_chunks.simps [simp del]

definition tar_padding :: "nat \<Rightarrow> nat" where
  "tar_padding n = (TAR_BLOCK_SIZE - n mod TAR_BLOCK_SIZE) mod TAR_BLOCK_SIZE"

definition add_file_to_tar ::
  "'n externals \<Rightarrow> 'n world \<Rightarrow> cstring \<Rightarrow> cstring \<Rightarrow> cstring \<Rightarrow> int \<times> cstring" where
  "add_file_to_tar E w gz filepath arcname =
     (case os_open_nofollow (fs w) filepath of None \<Rightarrow> (-1, gz)
      | Some st \<Rightarrow>
          if \<not> is_reg st then (0, gz)
          else case write_tar_header E w gz arcname (st_mode_of E (outer_of w) filepath) st None of (ok, g1) \<Rightarrow>
            if \<not> ok then (-1, g1)
            else case gzwrite_chunks E w g1 (node_data st) of (ok2, g2) \<Rightarrow>
              if \<not> ok2 then (-1, g2)
              else let padding = tar_padding (length (node_data st)) in
                if 0 < padding
                then (case gzwrite E w g2 (replicate padding NUL) of None \<Rightarrow> (-1, g2) | Some g3 \<Rightarrow> (0, g3))
                else (0, g2))"

definition arc_name :: "cstring \<Rightarrow> cstring \<Rightarrow> cstring" where
  "arc_name base_path fullpath =
     (let a = drop (length base_path) fullpath in if a \<noteq> [] \<and> hd a = CHR ''/'' then tl a else a)"

text \<open>Sub-directories are entered on the path cut to 511 characters; \<open>k\<close> bounds the depth as for
  the clean-up functions.\<close>

fun add_entries ::
  "(cstring \<Rightarrow> cstring \<Rightarrow> (int \<times> cstring) option) \<Rightarrow> 'n externals \<Rightarrow> 'n world \<Rightarrow> cstring \<Rightarrow> cstring \<Rightarrow> cstring \<Rightarrow>
     string list \<Rightarrow> cstring \<Rightarrow> (int \<times> cstring) option" where
  "add_entries sub E w dirpath base excl [] gz = Some (0, gz)"
| "add_entries sub E w dirpath base excl (n # ns) gz =
     (if n = ''.'' \<or> n = ''..'' then add_entries sub E w dirpath base excl ns gz
      else let fullpath = take 511 (slashed dirpath n) in
        if fullpath = excl then add_entries sub E w dirpath base excl ns gz
        else case os_lstat (fs w) (slashed dirpath n) of
          None \<Rightarrow> add_entries sub E w dirpath base excl ns gz
        | Some (Dir m) \<Rightarrow>
            (case sub gz fullpath of None \<Rightarrow> None
             | Some (r, g) \<Rightarrow> if r \<noteq> 0 then Some (-1, g) else add_entries sub E w dirpath base excl ns g)
        | Some (Lnk t m) \<Rightarrow>
            (case write_tar_header E w gz (arc_name base fullpath)
                    (st_mode_of E (outer_of w) (slashed dirpath n)) (Lnk t m) (Some (take 4095 t)) of
               (ok, g) \<Rightarrow> add_entries sub E w dirpath base excl ns g)
        | Some (Reg d m) \<Rightarrow>
            (case add_file_to_tar E w gz fullpath (arc_name base fullpath) of
               (r, g) \<Rightarrow> add_entries sub E w dirpath base excl ns g))"

fun add_dir :: "nat \<Rightarrow> 'n externals \<Rightarrow> 'n world \<Rightarrow> cstring \<Rightarrow> cstring \<Rightarrow> cstring \<Rightarrow> cstring \<Rightarrow> (int \<times> cstring) option" where
  "add_dir 0 E w base excl gz dirpath = None"
| "add_dir (Suc k) E w base excl gz dirpath =
     (case os_readdir (fs w) dirpath of None \<Rightarrow> Some (-1, gz)
      | Some ns \<Rightarrow> add_entries (add_dir k E w base excl) E w dirpath base excl ns gz)"

definition add_directory_to_tar ::
  "'n externals \<Rightarrow> 'n world \<Rightarrow> cstring \<Rightarrow> cstring \<Rightarrow> cstring \<Rightarrow> cstring \<Rightarrow> (int \<times> cstring) option" where
  "add_directory_to_tar E w gz dirpath base excl = add_dir 300 E w base excl gz dirpath"

definition get_archive_size :: "cstring \<Rightarrow> 'n world \<Rightarrow> int" where
  "get_archive_size p w =
     (case os_stat (fs w) p of None \<Rightarrow> -1
      | Some n \<Rightarrow> (case n of Reg d m \<Rightarrow> int (length d) | Dir m \<Rightarrow> 4096 | Lnk t m \<Rightarrow> 0))"

text \<open>\<^verbatim>\<open>gzopen\<close> creates the file before the directory is read; the stream reaches the disk at the
  latest at \<^verbatim>\<open>gzclose\<close>.\<close>

definition create_archive_with_options ::
  "'n externals \<Rightarrow> RuntimeContext \<Rightarrow> SessionState \<Rightarrow> cstring \<Rightarrow> cstring option \<Rightarrow> cstring \<Rightarrow> 'n world \<Rightarrow>
     (int \<times> SessionState \<times> 'n world) option" where
  "create_archive_with_options E ctx s source_dir output_dir prefix w =
     (if \<not> dir_exists E w source_dir then Some (-1, s, w)
      else let ref_time = (if archive_ref_time ctx \<noteq> 0 then archive_ref_time ctx else clock w) in
        case generate_archive_name_at 256 (mac_address ctx) prefix ref_time of
          None \<Rightarrow> Some (-1, s, w)
        | Some archive_filename \<Rightarrow>
            let target_dir = (case output_dir of None \<Rightarrow> source_dir | Some d \<Rightarrow> d);
                apath = take 511 (slashed target_dir archive_filename) in
            case os_write (fs w) apath [] (clock w) of
              None \<Rightarrow> Some (-1, s, w)
            | Some f1 \<Rightarrow>
                let w1 = w\<lparr>fs := f1\<rparr> in
                case add_directory_to_tar E w1 [] source_dir source_dir apath of
                  None \<Rightarrow> None
                | Some (r, gz) \<Rightarrow>
                    (case (case gzwrite E w1 gz (replicate (2 * TAR_BLOCK_SIZE) NUL) of
                             None \<Rightarrow> (-1, gz) | Some g \<Rightarrow> (r, g)) of
                       (r1, gz1) \<Rightarrow>
                         let w2 = (case os_write (fs w1) apath (gzip_bytes E gz1) (clock w1) of
                                     None \<Rightarrow> w1 | Some f2 \<Rightarrow> w1\<lparr>fs := f2\<rparr>);
                             r2 = (if gzclose_ok E (outer_of w2) then r1 else -1);
                             w3 = (if r2 \<noteq> 0 \<and> file_exists E w2 apath then snd (remove_file E apath w2) else w2)
                         in if r2 = 0 \<and> file_exists E w3 apath
                            then Some (0, s\<lparr>archive_file := take 255 archive_filename\<rparr>, w3)
                            else Some (-1, s, w3)))"

definition create_archive ::
  "'n externals \<Rightarrow> RuntimeContext \<Rightarrow> SessionState \<Rightarrow> cstring \<Rightarrow> 'n world \<Rightarrow> (int \<times> SessionState \<times> 'n world) option" where
  "create_archive E ctx s source_dir w = create_archive_with_options E ctx s source_dir None ''Logs'' w"

definition create_dri_archive ::
  "'n externals \<Rightarrow> RuntimeContext \<Rightarrow> SessionState \<Rightarrow> 'n world \<Rightarrow> (int \<times> SessionState \<times> 'n world) option" where
  "create_dri_archive E ctx s w =
     (if dri_log_path ctx = [] \<or> \<not> dir_exists E w (dri_log_path ctx) then Some (-1, s, w)
      else create_archive_with_options E ctx s (dri_log_path ctx) (Some (dri_log_path ctx)) ''DRI_Logs'' w)"

end
