(* ===== verification/Strategies.thy ===== *)
theory Strategies
  imports ArchiveManager CleanupHandler UploadEngine
begin

text \<open>
  The upload strategies (\<^verbatim>\<open>uploadstblogs/src/strategies.c\<close>) and the workflow that runs their four
  phases (\<^verbatim>\<open>strategy_handler.c\<close>).

  A phase gets and returns the runtime context (the reboot strategy writes the reference time of
  the archive name into it), the session and the world.  \<^const>\<open>None\<close> is a phase that does not return
  or runs into undefined behaviour.
\<close>

type_synonym 'n phase =
  "RuntimeContext \<Rightarrow> SessionState \<Rightarrow> 'n world \<Rightarrow> (int \<times> RuntimeContext \<times> SessionState \<times> 'n world) option"

definition ONDEMAND_TEMP_DIR :: cstring where "ONDEMAND_TEMP_DIR = ''/tmp/log_on_demand''"
definition BACKUP_LOGS_DONE_FLAG :: cstring where "BACKUP_LOGS_DONE_FLAG = ''/tmp/.backup_logs_done''"
definition BACKUP_LOGS_LOG_FILE :: cstring where "BACKUP_LOGS_LOG_FILE = ''/tmp/backup_logs.log.0''"
definition STT_FLAG :: cstring where "STT_FLAG = ''/tmp/stt_received''"
definition PATH_FLAG_INVOCATION :: cstring where "PATH_FLAG_INVOCATION = ''/tmp/Update_rebootInfo_invoked''"
definition TELEMETRY_PREVLOGS_DONE_FLAG :: cstring where
  "TELEMETRY_PREVLOGS_DONE_FLAG = ''/tmp/.telemetry_prevlogs_done''"
definition SYSTIMEMGR_CLOCK_FILE :: cstring where "SYSTIMEMGR_CLOCK_FILE = ''/opt/secure/clock.txt''"

subsection \<open>Waiting for other programs\<close>

definition check_internet_connectivity :: "'n externals \<Rightarrow> 'n world \<Rightarrow> bool \<times> 'n world" where
  "check_internet_connectivity E w =
     (if \<not> alloc_ok E (outer_of w) then (False, w)
      else case xcall (jsonrpc E ''IPv4'') w of ((rc, reply), w1) \<Rightarrow>
        if rc \<noteq> 0 then (False, w1)
        else case json_result_status E reply of None \<Rightarrow> (False, w1)
        | Some status \<Rightarrow>
            if take 19 status \<noteq> ''NO_INTERNET'' then (True, w1)
            else case xcall (jsonrpc E ''IPv6'') w1 of ((rc6, reply6), w2) \<Rightarrow>
              if rc6 \<noteq> 0 then (False, w2)
              else case json_result_status E reply6 of None \<Rightarrow> (False, w2)
              | Some status6 \<Rightarrow> (take 19 status6 \<noteq> ''NO_INTERNET'', w2))"

definition apply_ntp_fallback_time :: "'n world \<Rightarrow> int" where
  "apply_ntp_fallback_time w =
     (case os_read (fs w) SYSTIMEMGR_CLOCK_FILE of None \<Rightarrow> 0
      | Some d \<Rightarrow> (case fgets_all 32 d of [] \<Rightarrow> 0
          | time_buf # rest \<Rightarrow> let epoch = fst (strtol10 time_buf) in if epoch \<le> 0 then 0 else epoch))"

definition update_reboot_info_cmd :: cstring where
  "update_reboot_info_cmd = ''/usr/bin/update-prev-reboot-info >> /opt/logs/rebootreason.log 2>&1''"

definition trigger_reboot_info_update :: "'n externals \<Rightarrow> 'n world \<Rightarrow> 'n world" where
  "trigger_reboot_info_update E w =
     (if os_stat (fs w) PATH_FLAG_INVOCATION = None
      then snd (xcall (v_secure_system E update_reboot_info_cmd) (emit (Shell update_reboot_info_cmd) w))
      else w)"

text \<open>The loop around \<^verbatim>\<open>select\<close>; it may not end when the clock does not advance.\<close>

partial_function (option) sentinel_loop ::
  "'n externals \<Rightarrow> cstring \<Rightarrow> int \<Rightarrow> 'n world \<Rightarrow> (bool \<times> 'n world) option" where
  "sentinel_loop E filename deadline w =
     (if (case clock_monotonic E (outer_of w) of None \<Rightarrow> False | Some now \<Rightarrow> deadline \<le> now)
      then Some (False, w)
      else case xcall (inotify_select E) w of (r, w1) \<Rightarrow>
        (case r of SelInterrupted \<Rightarrow> sentinel_loop E filename deadline w1
         | SelFailed \<Rightarrow> Some (False, w1)
         | SelTimeout \<Rightarrow> sentinel_loop E filename deadline w1
         | SelNothing \<Rightarrow> sentinel_loop E filename deadline w1
         | SelNames ns \<Rightarrow> if List.member ns filename then Some (True, w1)
                          else sentinel_loop E filename deadline w1))"

declare sentinel_loop.simps [code]

definition wait_for_sentinel ::
  "'n externals \<Rightarrow> cstring \<Rightarrow> cstring \<Rightarrow> cstring \<Rightarrow> int \<Rightarrow> 'n world \<Rightarrow> (int \<times> 'n world) option" where
  "wait_for_sentinel E flag_path watch_dir filename timeout_s w =
     (if os_access (fs w) flag_path then Some (0, w)
      else if inotify_init1 E (outer_of w) < 0 \<or> 1024 \<le> inotify_init1 E (outer_of w) then Some (-1, w)
      else if inotify_add_watch E (outer_of w) watch_dir < 0 then Some (-1, w)
      else if os_access (fs w) flag_path then Some (0, w)
      else case clock_monotonic E (outer_of w) of None \<Rightarrow> Some (-1, w)
      | Some now \<Rightarrow>
          (case sentinel_loop E filename (now + timeout_s) w of None \<Rightarrow> None
           | Some (found, w1) \<Rightarrow> Some (if found then 0 else -1, w1)))"

definition wait_for_reboot_reason :: "'n externals \<Rightarrow> 'n world \<Rightarrow> (int \<times> 'n world) option" where
  "wait_for_reboot_reason E w =
     wait_for_sentinel E PATH_FLAG_INVOCATION ''/tmp'' ''Update_rebootInfo_invoked'' 120 w"

definition wait_for_telemetry_prevlogs_done :: "'n externals \<Rightarrow> 'n world \<Rightarrow> (int \<times> 'n world) option" where
  "wait_for_telemetry_prevlogs_done E w =
     wait_for_sentinel E TELEMETRY_PREVLOGS_DONE_FLAG ''/tmp'' ''.telemetry_prevlogs_done'' 120 w"

subsection \<open>Copies\<close>

fun copy_opt_loop :: "'n externals \<Rightarrow> cstring \<Rightarrow> cstring \<Rightarrow> string list \<Rightarrow> int \<Rightarrow> 'n world \<Rightarrow> int \<times> 'n world" where
  "copy_opt_loop E src dest [] count w = (count, w)"
| "copy_opt_loop E src dest (n # ns) count w =
     (if n = ''.'' \<or> n = ''..'' \<or> is_dt_dir w src n then copy_opt_loop E src dest ns count w
      else case copy_file E (take 511 (slashed src n)) (take 511 (slashed dest n)) w of (ok, w1) \<Rightarrow>
             copy_opt_loop E src dest ns (if ok then count + 1 else count) w1)"

definition copy_opt_logs_files :: "'n externals \<Rightarrow> cstring \<Rightarrow> cstring \<Rightarrow> 'n world \<Rightarrow> int \<times> 'n world" where
  "copy_opt_logs_files E src dest w =
     (case os_readdir (fs w) src of None \<Rightarrow> (-1, w) | Some ns \<Rightarrow> copy_opt_loop E src dest ns 0 w)"

text \<open>The two recursive copies share the loop; \<open>skip\<close> are the names left out at the top.\<close>

fun copy_tree_loop ::
  "(cstring \<Rightarrow> cstring \<Rightarrow> 'n world \<Rightarrow> (int \<times> 'n world) option) \<Rightarrow> 'n externals \<Rightarrow> string list \<Rightarrow> cstring \<Rightarrow> cstring \<Rightarrow>
     string list \<Rightarrow> int \<Rightarrow> 'n world \<Rightarrow> (int \<times> 'n world) option" where
  "copy_tree_loop sub E skip src dest [] count w = Some (count, w)"
| "copy_tree_loop sub E skip src dest (n # ns) count w =
     (if n = ''.'' \<or> n = ''..'' \<or> List.member skip n then copy_tree_loop sub E skip src dest ns count w
      else let s = take 511 (slashed src n); d = take 511 (slashed dest n) in
        if is_dt_dir w src n
        then (case create_directory E d w of (ok, w1) \<Rightarrow>
                if \<not> ok then copy_tree_loop sub E skip src dest ns count w1
                else case sub s d w1 of None \<Rightarrow> None
                | Some (r, w2) \<Rightarrow> copy_tree_loop sub E skip src dest ns (if 0 < r then count + r else count) w2)
        else (case copy_file E s d w of (ok, w1) \<Rightarrow>
                copy_tree_loop sub E skip src dest ns (if ok then count + 1 else count) w1))"

fun copy_tree :: "nat \<Rightarrow> 'n externals \<Rightarrow> cstring \<Rightarrow> cstring \<Rightarrow> 'n world \<Rightarrow> (int \<times> 'n world) option" where
  "copy_tree 0 E src dest w = None"
| "copy_tree (Suc k) E src dest w =
     (case os_readdir (fs w) src of None \<Rightarrow> Some (-1, w)
      | Some ns \<Rightarrow> copy_tree_loop (copy_tree k E) E [] src dest ns 0 w)"

definition copy_dir_recursive :: "'n externals \<Rightarrow> cstring \<Rightarrow> cstring \<Rightarrow> 'n world \<Rightarrow> (int \<times> 'n world) option" where
  "copy_dir_recursive E src dest w = copy_tree 300 E src dest w"

definition copy_all_files_to_dcm :: "'n externals \<Rightarrow> cstring \<Rightarrow> cstring \<Rightarrow> 'n world \<Rightarrow> (int \<times> 'n world) option" where
  "copy_all_files_to_dcm E src dest w =
     (case os_readdir (fs w) src of None \<Rightarrow> Some (-1, w)
      | Some ns \<Rightarrow>
          copy_tree_loop (copy_dir_recursive E) E [''dcm'', ''PreviousLogs_backup'', ''PreviousLogs''] src dest ns 0 w)"

fun upload_list_loop :: "'n externals \<Rightarrow> RuntimeContext \<Rightarrow> cstring list \<Rightarrow> int \<Rightarrow> 'n world \<Rightarrow> (int \<times> 'n world) option" where
  "upload_list_loop E ctx [] count w = Some (count, w)"
| "upload_list_loop E ctx (l # ls) count w =
     (let line = chomp l in
      if line = [] \<or> \<not> dir_exists E w line then upload_list_loop E ctx ls count w
      else let dest = slashed (dcm_log_path ctx) (base_name line) in
        if 1024 \<le> length dest \<or> dir_exists E w dest then upload_list_loop E ctx ls count w
        else case create_directory E dest w of (ok, w1) \<Rightarrow>
          if \<not> ok then upload_list_loop E ctx ls count w1
          else case copy_dir_recursive E line dest w1 of None \<Rightarrow> None
          | Some (r, w2) \<Rightarrow> upload_list_loop E ctx ls (count + 1) w2)"

definition process_dcm_upload_list :: "'n externals \<Rightarrow> RuntimeContext \<Rightarrow> 'n world \<Rightarrow> (int \<times> 'n world) option" where
  "process_dcm_upload_list E ctx w =
     (let list_path = slashed (log_path ctx) ''dcm_upload'' in
      case os_read (fs w) list_path of None \<Rightarrow> Some (0, w)
      | Some d \<Rightarrow>
          (case upload_list_loop E ctx (fgets_all 512 d) 0 w of None \<Rightarrow> None
           | Some (count, w1) \<Rightarrow>
               Some (count, case os_write (fs w1) list_path [] (clock w1) of None \<Rightarrow> w1 | Some g \<Rightarrow> w1\<lparr>fs := g\<rparr>)))"

subsection \<open>The DCM strategy\<close>

fun upload_flag_loop :: "cstring list \<Rightarrow> bool" where
  "upload_flag_loop [] = False"
| "upload_flag_loop (l # ls) =
     (if strstr l ''urn:settings:LogUploadSettings:upload'' = None then upload_flag_loop ls
      else case index_of (CHR ''='') l of None \<Rightarrow> False
           | Some i \<Rightarrow> map tolower (take 4 (dropWhile (\<lambda>c. isspace c \<or> c = CHR 0x22) (drop (Suc i) l))) = ''true'')"

definition read_dcm_upload_flag :: "'n world \<Rightarrow> bool" where
  "read_dcm_upload_flag w =
     (case os_read (fs w) ''/tmp/DCMSettings.conf'' of None \<Rightarrow> True
      | Some d \<Rightarrow> upload_flag_loop (fgets_all 512 d))"

definition dcm_setup :: "'n externals \<Rightarrow> 'n phase" where
  "dcm_setup E ctx s w =
     (let w1 = (if dir_exists E w (dcm_log_path ctx) then snd (remove_directory E (dcm_log_path ctx) w) else w) in
      case create_directory E (dcm_log_path ctx) w1 of (ok, w2) \<Rightarrow>
        if \<not> ok then Some (-1, ctx, s, w2)
        else case (if upload_on_reboot ctx = 1
                   then copy_all_files_to_dcm E (log_path ctx) (dcm_log_path ctx) w2
                   else Some (copy_opt_logs_files E (log_path ctx) (dcm_log_path ctx) w2)) of
          None \<Rightarrow> None
        | Some (c, w3) \<Rightarrow>
            if \<not> read_dcm_upload_flag w3 then Some (-1, ctx, s, w3)
            else case add_timestamp_to_files E (dcm_log_path ctx) w3 of (r, w4) \<Rightarrow>
              if upload_on_reboot ctx = 0
              then (case process_dcm_upload_list E ctx w4 of None \<Rightarrow> None
                    | Some (c2, w5) \<Rightarrow> Some (0, ctx, s, w5))
              else Some (0, ctx, s, w4))"

definition dcm_archive :: "'n externals \<Rightarrow> 'n phase" where
  "dcm_archive E ctx s w =
     (let w1 = (if include_pcap ctx then snd (collect_pcap_logs E ctx (dcm_log_path ctx) w) else w) in
      case create_archive E ctx s (dcm_log_path ctx) w1 of None \<Rightarrow> None
      | Some (r, s2, w2) \<Rightarrow> Some (if r \<noteq> 0 then -1 else 0, ctx, s2, w2))"

definition clear_pcaps :: "'n externals \<Rightarrow> RuntimeContext \<Rightarrow> 'n world \<Rightarrow> 'n world" where
  "clear_pcaps E ctx w = (if include_pcap ctx then snd (clear_old_packet_captures E (log_path ctx) w) else w)"

definition dcm_upload :: "'n externals \<Rightarrow> 'n phase" where
  "dcm_upload E ctx s w =
     (case join_path MAX_PATH_LENGTH (dcm_log_path ctx) (archive_file s) of None \<Rightarrow> Some (-1, ctx, s, w)
      | Some apath \<Rightarrow>
          (case upload_archive E ctx s apath w of None \<Rightarrow> None
           | Some (r, s2, w2) \<Rightarrow> Some (r, ctx, s2, clear_pcaps E ctx w2)))"

definition dcm_cleanup :: "'n externals \<Rightarrow> bool \<Rightarrow> 'n phase" where
  "dcm_cleanup E upload_success ctx s w =
     (if \<not> dir_exists E w (dcm_log_path ctx) then Some (0, ctx, s, w)
      else case remove_directory E (dcm_log_path ctx) w of (ok, w1) \<Rightarrow> Some (if ok then 0 else -1, ctx, s, w1))"

subsection \<open>The on-demand strategy\<close>

definition append_line :: "cstring \<Rightarrow> cstring \<Rightarrow> 'n world \<Rightarrow> 'n world" where
  "append_line file line w =
     (case os_append (fs w) file (line @ [CHR 0x0A]) (clock w) of None \<Rightarrow> w | Some g \<Rightarrow> w\<lparr>fs := g\<rparr>)"

definition remove_if_exists :: "'n externals \<Rightarrow> cstring \<Rightarrow> 'n world \<Rightarrow> 'n world" where
  "remove_if_exists E p w = (if file_exists E w p then snd (remove_file E p w) else w)"

definition ondemand_setup :: "'n externals \<Rightarrow> 'n phase" where
  "ondemand_setup E ctx s w =
     (if \<not> dir_exists E w (log_path ctx) then Some (-1, ctx, s, w)
      else if \<not> has_log_files E w (log_path ctx) then Some (-1, ctx, s, emit_no_logs_ondemand E w)
      else let w1 = (if dir_exists E w ONDEMAND_TEMP_DIR then snd (remove_directory E ONDEMAND_TEMP_DIR w) else w) in
      case create_directory E ONDEMAND_TEMP_DIR w1 of (ok, w2) \<Rightarrow>
        if \<not> ok then Some (-1, ctx, s, w2)
        else case collect_logs E ctx ONDEMAND_TEMP_DIR w2 of (count, w3) \<Rightarrow>
          if count \<le> 0 then Some (-1, ctx, s, w3)
          else case gmtime_r (clock w3) of None \<Rightarrow> Some (-1, ctx, s, w3)
          | Some t \<Rightarrow>
              let perm_log_path = slashed (log_path ctx) (stamp t @ ''-logbackup'');
                  lastlog = slashed (telemetry_path ctx) ''lastlog_path'' in
              if too_long perm_log_path \<or> too_long lastlog then Some (-1, ctx, s, w3)
              else let w4 = append_line lastlog perm_log_path w3;
                       old_tar = take 511 (slashed ONDEMAND_TEMP_DIR (archive_file s))
                   in Some (0, ctx, s, remove_if_exists E old_tar w4))"

definition ondemand_archive :: "'n externals \<Rightarrow> 'n phase" where
  "ondemand_archive E ctx s w =
     (case create_archive E ctx s ONDEMAND_TEMP_DIR w of None \<Rightarrow> None
      | Some (r, s2, w2) \<Rightarrow> if r \<noteq> 0 then Some (-1, ctx, s2, w2) else Some (0, ctx, s2, sleep 2 w2))"

definition ondemand_upload :: "'n externals \<Rightarrow> 'n phase" where
  "ondemand_upload E ctx s w =
     (if flag ctx = 0 then Some (0, ctx, s, w)
      else case upload_archive E ctx s (take 511 (slashed ONDEMAND_TEMP_DIR (archive_file s))) w of None \<Rightarrow> None
      | Some (r, s2, w2) \<Rightarrow> Some (r, ctx, s2, w2))"

definition ondemand_cleanup :: "'n externals \<Rightarrow> bool \<Rightarrow> 'n phase" where
  "ondemand_cleanup E upload_success ctx s w =
     (let w1 = remove_if_exists E (take 511 (slashed ONDEMAND_TEMP_DIR (archive_file s))) w in
      if \<not> dir_exists E w1 ONDEMAND_TEMP_DIR then Some (0, ctx, s, w1)
      else case remove_directory E ONDEMAND_TEMP_DIR w1 of (ok, w2) \<Rightarrow> Some (if ok then 0 else -1, ctx, s, w2))"

subsection \<open>The reboot strategy\<close>

definition copy_backup_log :: "'n externals \<Rightarrow> RuntimeContext \<Rightarrow> 'n world \<Rightarrow> 'n world" where
  "copy_backup_log E ctx w =
     (if \<not> file_exists E w BACKUP_LOGS_LOG_FILE then w
      else let dest_prev = slashed (prev_log_path ctx) ''backup_logs.log.0'';
               dest_log = slashed (log_path ctx) ''backup_logs.log.0'';
               w1 = (if too_long dest_prev then w else snd (copy_file E BACKUP_LOGS_LOG_FILE dest_prev w));
               w2 = (if too_long dest_log then w1 else snd (copy_file E BACKUP_LOGS_LOG_FILE dest_log w1))
           in snd (remove_file E BACKUP_LOGS_LOG_FILE w2))"

text \<open>The reference time of the archive: from the clock file of the time service when the clock has
  not been set from the network although the network is there.\<close>

definition ntp_reference :: "'n externals \<Rightarrow> RuntimeContext \<Rightarrow> 'n world \<Rightarrow> RuntimeContext \<times> 'n world" where
  "ntp_reference E ctx w =
     (if os_stat (fs w) STT_FLAG \<noteq> None then (ctx, w)
      else case check_internet_connectivity E w of (connected, w1) \<Rightarrow>
        (if connected then ctx\<lparr>archive_ref_time := apply_ntp_fallback_time w1\<rparr> else ctx, w1))"

definition reboot_waits :: "'n externals \<Rightarrow> 'n world \<Rightarrow> 'n world option" where
  "reboot_waits E w =
     (case wait_for_reboot_reason E w of None \<Rightarrow> None
      | Some (r, w1) \<Rightarrow>
          (case wait_for_telemetry_prevlogs_done E (if r \<noteq> 0 then trigger_reboot_info_update E w1 else w1) of
             None \<Rightarrow> None | Some (r2, w2) \<Rightarrow> Some w2))"

text \<open>The part of the set-up after the old backups are gone: name and record the permanent backup,
  remove the old archive, add the log of the backup program, and rename the files.\<close>

definition reboot_prepare :: "'n externals \<Rightarrow> RuntimeContext \<Rightarrow> 'n world \<Rightarrow> int \<times> 'n world" where
  "reboot_prepare E ctx w =
     (case gmtime_r (if archive_ref_time ctx > 0 then archive_ref_time ctx else clock w) of None \<Rightarrow> (-1, w)
      | Some t \<Rightarrow>
          let perm_log_path = slashed (log_path ctx) (stamp t @ ''-logbackup'');
              lastlog = slashed (telemetry_path ctx) ''lastlog_path'';
              old_tar = slashed (prev_log_path ctx) ''logs.tar.gz'' in
          if too_long perm_log_path then (-1, w)
          else let w1 = w\<lparr>perm_log_path_storage := perm_log_path\<rparr> in
          if too_long lastlog then (-1, w1)
          else let w2 = append_line lastlog perm_log_path w1 in
          if too_long old_tar then (-1, w2)
          else let w3 = copy_backup_log E ctx (remove_if_exists E old_tar w2)
          in (0, snd (add_timestamp_to_files E (prev_log_path ctx) w3)))"

definition reboot_setup :: "'n externals \<Rightarrow> 'n phase" where
  "reboot_setup E ctx s w =
     (if os_stat (fs w) BACKUP_LOGS_DONE_FLAG = None then Some (-1, ctx, s, w)
      else case ntp_reference E ctx w of (ctx1, w1) \<Rightarrow>
        (case reboot_waits E w1 of None \<Rightarrow> None
         | Some w2 \<Rightarrow>
             if \<not> dir_exists E w2 (prev_log_path ctx1) then Some (-1, ctx1, s, w2)
             else if \<not> has_log_files E w2 (prev_log_path ctx1)
             then Some (-1, ctx1, s, emit_no_logs_reboot E ctx1 w2)
             else (case cleanup_old_log_backups (log_path ctx1) 3 w2 of None \<Rightarrow> None
                   | Some (removed, w3) \<Rightarrow>
                       (case reboot_prepare E ctx1 w3 of (r, w4) \<Rightarrow> Some (r, ctx1, s, w4)))))"

definition reboot_archive :: "'n externals \<Rightarrow> 'n phase" where
  "reboot_archive E ctx s w =
     (let w1 = (if include_pcap ctx then snd (collect_pcap_logs E ctx (prev_log_path ctx) w) else w) in
      case create_archive E ctx s (prev_log_path ctx) w1 of None \<Rightarrow> None
      | Some (r, s2, w2) \<Rightarrow> Some (if r \<noteq> 0 then -1 else 0, ctx, s2, w2))"

definition scheduled_line :: "cstring \<Rightarrow> bool" where
  "scheduled_line l = (strcasestr_has l ''Scheduled Reboot'' \<or> strcasestr_has l ''MAINTENANCE_REBOOT'')"

definition is_scheduled_reboot :: "'n world \<Rightarrow> bool" where
  "is_scheduled_reboot w =
     (case os_read (fs w) ''/opt/secure/reboot/previousreboot.info'' of None \<Rightarrow> False
      | Some d \<Rightarrow> list_ex scheduled_line (fgets_all 512 d))"

definition reboot_should_upload :: "'n externals \<Rightarrow> RuntimeContext \<Rightarrow> 'n world \<Rightarrow> bool" where
  "reboot_should_upload E ctx w =
     (if dcm_flag ctx = 0 then True
      else let disabled =
            (case rbus_get_bool_param E
                ''Device.DeviceInfo.X_RDKCENTRAL-COM_RFC.Feature.UploadLogsOnUnscheduledReboot.Disable'' w of
               None \<Rightarrow> False | Some b \<Rightarrow> b)
        in upload_on_reboot ctx = 1 \<or> (\<not> is_scheduled_reboot w \<and> \<not> disabled))"

text \<open>The DRI logs go out in a session of their own.\<close>

definition upload_dri_logs :: "'n externals \<Rightarrow> RuntimeContext \<Rightarrow> SessionState \<Rightarrow> 'n world \<Rightarrow> 'n world option" where
  "upload_dri_logs E ctx s w =
     (if \<not> include_dri ctx \<or> \<not> dir_exists E w (dri_log_path ctx) then Some w
      else case create_dri_archive E ctx (s\<lparr>direct_attempts := 0, codebig_attempts := 0\<rparr>) w of None \<Rightarrow> None
      | Some (r, s1, w1) \<Rightarrow>
          let dri_archive = slashed (dri_log_path ctx) (archive_file s1) in
          if r \<noteq> 0 \<or> too_long dri_archive then Some w1
          else case upload_archive E ctx s1 dri_archive w1 of None \<Rightarrow> None
          | Some (r2, s2, w2) \<Rightarrow>
              let w3 = t2_count_notify ''SYST_INFO_PDRILogUpload'' w2;
                  w4 = (if r2 = 0 then snd (remove_directory E (dri_log_path ctx) w3) else w3)
              in Some (snd (remove_file E dri_archive w4)))"

definition reboot_upload :: "'n externals \<Rightarrow> 'n phase" where
  "reboot_upload E ctx s w =
     (let apath = slashed (prev_log_path ctx) (archive_file s) in
      if too_long apath then Some (-1, ctx, s, w)
      else if \<not> reboot_should_upload E ctx w
      then Some (0, ctx, s\<lparr>archive_file := take 255 apath\<rparr>, emit_upload_aborted E w)
      else case upload_archive E ctx s apath w of None \<Rightarrow> None
      | Some (r, s2, w2) \<Rightarrow>
          (case upload_dri_logs E ctx s2 w2 of None \<Rightarrow> None
           | Some w3 \<Rightarrow> Some (r, ctx, s2, clear_pcaps E ctx w3)))"

definition recreate_backup_dir :: "'n externals \<Rightarrow> RuntimeContext \<Rightarrow> 'n world \<Rightarrow> 'n world" where
  "recreate_backup_dir E ctx w =
     (let p = slashed (log_path ctx) ''PreviousLogs_backup'' in
      if too_long p then w
      else let w1 = (if dir_exists E w p then snd (remove_directory E p w) else w)
           in snd (create_directory E p w1))"

definition append_upload_list :: "RuntimeContext \<Rightarrow> cstring \<Rightarrow> 'n world \<Rightarrow> 'n world" where
  "append_upload_list ctx perm w =
     (if dcm_flag ctx = 1 \<and> upload_on_reboot ctx = 0 \<and> \<not> too_long (slashed (log_path ctx) ''dcm_upload'')
      then append_line (slashed (log_path ctx) ''dcm_upload'') perm w else w)"

definition reboot_cleanup :: "'n externals \<Rightarrow> bool \<Rightarrow> 'n phase" where
  "reboot_cleanup E upload_success ctx s w =
     (let w1 = remove_if_exists E (archive_file s) (sleep 5 w);
          w2 = snd (remove_timestamp_from_files E (prev_log_path ctx) w1);
          perm_log_path = perm_log_path_storage w2 in
      case create_directory E perm_log_path w2 of (ok, w3) \<Rightarrow>
        if \<not> ok then Some (-1, ctx, s, w3)
        else let w4 = snd (move_directory_contents E (prev_log_path ctx) perm_log_path w3);
                 w5 = snd (clean_directory E (prev_log_path ctx) w4);
                 w6 = recreate_backup_dir E ctx w5
             in Some (0, ctx, s, append_upload_list ctx perm_log_path w6))"

subsection \<open>The workflow\<close>

record 'n StrategyHandler =
  setup_phase :: "'n phase"
  archive_phase :: "'n phase"
  upload_phase :: "'n phase"
  cleanup_phase :: "bool \<Rightarrow> 'n phase"

definition dcm_strategy_handler :: "'n externals \<Rightarrow> 'n StrategyHandler" where
  "dcm_strategy_handler E = \<lparr>setup_phase = dcm_setup E, archive_phase = dcm_archive E,
     upload_phase = dcm_upload E, cleanup_phase = dcm_cleanup E\<rparr>"

definition ondemand_strategy_handler :: "'n externals \<Rightarrow> 'n StrategyHandler" where
  "ondemand_strategy_handler E = \<lparr>setup_phase = ondemand_setup E, archive_phase = ondemand_archive E,
     upload_phase = ondemand_upload E, cleanup_phase = ondemand_cleanup E\<rparr>"

definition reboot_strategy_handler :: "'n externals \<Rightarrow> 'n StrategyHandler" where
  "reboot_strategy_handler E = \<lparr>setup_phase = reboot_setup E, archive_phase = reboot_archive E,
     upload_phase = reboot_upload E, cleanup_phase = reboot_cleanup E\<rparr>"

definition get_strategy_handler :: "'n externals \<Rightarrow> Strategy \<Rightarrow> 'n StrategyHandler option" where
  "get_strategy_handler E st =
     (case st of STRAT_ONDEMAND \<Rightarrow> Some (ondemand_strategy_handler E)
      | STRAT_REBOOT \<Rightarrow> Some (reboot_strategy_handler E)
      | STRAT_NON_DCM \<Rightarrow> Some (reboot_strategy_handler E)
      | STRAT_DCM \<Rightarrow> Some (dcm_strategy_handler E)
      | STRAT_RRD \<Rightarrow> None | STRAT_PRIVACY_ABORT \<Rightarrow> None | STRAT_NO_LOGS \<Rightarrow> None)"

text \<open>The three phases up to the label \<^verbatim>\<open>cleanup\<close>: the result, and whether the upload succeeded.\<close>

definition run_phases ::
  "'n StrategyHandler \<Rightarrow> RuntimeContext \<Rightarrow> SessionState \<Rightarrow> 'n world \<Rightarrow>
     (int \<times> bool \<times> RuntimeContext \<times> SessionState \<times> 'n world) option" where
  "run_phases h ctx s w =
     (case setup_phase h ctx s w of None \<Rightarrow> None
      | Some (r1, ctx1, s1, w1) \<Rightarrow>
          if r1 \<noteq> 0 then Some (r1, False, ctx1, s1, w1)
          else (case archive_phase h ctx1 s1 w1 of None \<Rightarrow> None
                | Some (r2, ctx2, s2, w2) \<Rightarrow>
                    if r2 \<noteq> 0 then Some (r2, False, ctx2, s2, w2)
                    else (case upload_phase h ctx2 s2 w2 of None \<Rightarrow> None
                          | Some (r3, ctx3, s3, w3) \<Rightarrow> Some (r3, r3 = 0, ctx3, s3, w3))))"

definition run_handler :: "'n StrategyHandler \<Rightarrow> 'n phase" where
  "run_handler h ctx s w =
     (case run_phases h ctx s w of None \<Rightarrow> None
      | Some (ret, upload_success, ctx1, s1, w1) \<Rightarrow>
          (case cleanup_phase h upload_success ctx1 s1 w1 of None \<Rightarrow> None
           | Some (cleanup_ret, ctx2, s2, w2) \<Rightarrow>
               Some (if ret = 0 then cleanup_ret else ret, ctx2, s2, w2)))"

definition execute_strategy_workflow :: "'n externals \<Rightarrow> 'n phase" where
  "execute_strategy_workflow E ctx s w =
     (case cleanup_old_archives (log_path ctx) w of None \<Rightarrow> None
      | Some (removed, w1) \<Rightarrow>
          (case get_strategy_handler E (strategy s) of None \<Rightarrow> Some (-1, ctx, s, w1)
           | Some h \<Rightarrow> run_handler h ctx s w1))"

end
