(* ===== verification/Uploadstblogs.thy ===== *)
theory Uploadstblogs
  imports Strategies Validation
begin

text \<open>
  The entry points of the upload tool (\<^verbatim>\<open>uploadstblogs/src/uploadstblogs.c\<close>): the single-instance
  lock, the arguments of the command line, and the runs started by the daemon
  (\<^verbatim>\<open>uploadstblogs_run\<close>) and from the shell (\<^verbatim>\<open>uploadstblogs_execute\<close>); and the upload on request of
  the remote management (\<^verbatim>\<open>uploadlogsnow.c\<close>).

  The telemetry library is opened and closed around a run without an observable effect.  Both
  entry points keep their runtime context in a static variable that they clear first, so that
  nothing of an earlier run is left in it.
\<close>

subsection \<open>The lock\<close>

text \<open>A lock is held by an open descriptor; a second \<^verbatim>\<open>flock\<close> on the same file fails, whichever process
  asks.  Opening the file empties it.\<close>

definition acquire_lock :: "cstring \<Rightarrow> 'n world \<Rightarrow> bool \<times> 'n world" where
  "acquire_lock lock_path w =
     (case os_write (fs w) lock_path [] (clock w) of None \<Rightarrow> (False, w\<lparr>lock_fd := -1\<rparr>)
      | Some g \<Rightarrow>
          let w1 = w\<lparr>fs := g, lock_fd := next_fd w, next_fd := next_fd w + 1\<rparr> in
          if List.member (map fst (flocks w1)) lock_path
          then (False, w1\<lparr>lock_fd := -1\<rparr>)
          else (True, w1\<lparr>flocks := (lock_path, lock_fd w1) # flocks w1\<rparr>))"

definition held_by :: "int \<Rightarrow> cstring \<times> int \<Rightarrow> bool" where
  "held_by fd l = (snd l = fd)"

definition release_lock :: "'n world \<Rightarrow> 'n world" where
  "release_lock w =
     (if lock_fd w \<noteq> -1
      then w\<lparr>flocks := filter (Not \<circ> held_by (lock_fd w)) (flocks w), lock_fd := -1\<rparr> else w)"

definition LOCK_FILE :: cstring where "LOCK_FILE = ''/tmp/.log-upload.lock''"

definition is_maintenance_enabled :: "'n externals \<Rightarrow> 'n world \<Rightarrow> bool" where
  "is_maintenance_enabled E w =
     (case getDevicePropertyData E (outer_of w) ''ENABLE_MAINTENANCE'' 256 of None \<Rightarrow> False
      | Some v \<Rightarrow> strcasecmp_eq v ''true'')"

subsection \<open>Arguments\<close>

definition trigger_of_name :: "cstring \<Rightarrow> int \<Rightarrow> int" where
  "trigger_of_name s old =
     (if s = ''cron'' then trigger_code TRIGGER_SCHEDULED
      else if s = ''ondemand'' then trigger_code TRIGGER_ONDEMAND
      else if s = ''manual'' then trigger_code TRIGGER_MANUAL
      else if s = ''reboot'' then trigger_code TRIGGER_REBOOT
      else if s = ''MEMCAPTURE'' then trigger_code TRIGGER_MEMCAPTURE else old)"

text \<open>The argument vector has no null pointers before its end, as the C standard requires of \<^verbatim>\<open>main\<close>.\<close>

definition parse_args :: "cstring list \<Rightarrow> RuntimeContext \<Rightarrow> RuntimeContext" where
  "parse_args argv ctx =
     (let argc = length argv in
      if 2 \<le> argc \<and> argv ! 1 = ''uploadlogsnow''
      then ctx\<lparr>flag := 1, dcm_flag := 1, upload_on_reboot := 1, trigger_type := trigger_code TRIGGER_ONDEMAND,
               rrd_flag := 0, tls_enabled := False, uploadlogsnow_mode := True\<rparr>
      else ctx\<lparr>
        flag := if 3 \<le> argc then atoi (argv ! 2) else flag ctx,
        dcm_flag := if 4 \<le> argc then atoi (argv ! 3) else dcm_flag ctx,
        upload_on_reboot := if 5 \<le> argc then (if argv ! 4 = ''true'' \<or> argv ! 4 = ''1'' then 1 else 0)
                            else upload_on_reboot ctx,
        tls_enabled := if 6 \<le> argc \<and> argv ! 5 = ''HTTPS'' then True else tls_enabled ctx,
        upload_http_link := if 7 \<le> argc then take 1023 (argv ! 6) else upload_http_link ctx,
        trigger_type := if 8 \<le> argc then trigger_of_name (argv ! 7) (trigger_type ctx) else trigger_type ctx,
        rrd_flag := if 9 \<le> argc then (if argv ! 8 = ''true'' then 1 else 0) else rrd_flag ctx,
        rrd_file := if 10 \<le> argc then take 511 (argv ! 9) else rrd_file ctx\<rparr>)"

definition set_params :: "UploadSTBLogsParams \<Rightarrow> RuntimeContext \<Rightarrow> RuntimeContext" where
  "set_params p ctx =
     ctx\<lparr>flag := p_flag p, dcm_flag := p_dcm_flag p,
         upload_on_reboot := if p_upload_on_reboot p then 1 else 0,
         trigger_type := trigger_code (p_trigger_type p),
         rrd_flag := if p_rrd_flag p then 1 else 0,
         tls_enabled := if p_upload_protocol p = Some ''HTTPS'' then True else tls_enabled ctx,
         upload_http_link := (case p_upload_http_link p of None \<Rightarrow> upload_http_link ctx | Some l \<Rightarrow> take 1023 l),
         rrd_file := (case p_rrd_file p of None \<Rightarrow> rrd_file ctx | Some f \<Rightarrow> take 511 f)\<rparr>"

subsection \<open>Upload on request\<close>

definition STATUS_FILE :: cstring where "STATUS_FILE = ''/opt/loguploadstatus.txt''"
definition DCM_TEMP_DIR :: cstring where "DCM_TEMP_DIR = ''/tmp/DCM''"

definition drop_newline :: "cstring \<Rightarrow> cstring" where
  "drop_newline s = (if s \<noteq> [] \<and> last s = CHR 0x0A then butlast s else s)"

definition write_upload_status :: "'n externals \<Rightarrow> cstring \<Rightarrow> 'n world \<Rightarrow> int \<times> 'n world" where
  "write_upload_status E message w =
     (let txt = (case ctime_text E (outer_of w) (clock w) of
                   None \<Rightarrow> message @ [CHR 0x0A]
                 | Some t \<Rightarrow> message @ '' '' @ drop_newline t @ [CHR 0x0A])
      in case os_write (fs w) STATUS_FILE txt (clock w) of None \<Rightarrow> (-1, w) | Some g \<Rightarrow> (0, w\<lparr>fs := g\<rparr>))"

definition should_exclude_file :: "cstring \<Rightarrow> bool" where
  "should_exclude_file f = (f = ''dcm'' \<or> f = ''PreviousLogs_backup'' \<or> f = ''PreviousLogs'')"

fun copy_now_loop :: "'n externals \<Rightarrow> cstring \<Rightarrow> cstring \<Rightarrow> string list \<Rightarrow> int \<Rightarrow> 'n world \<Rightarrow> int \<times> 'n world" where
  "copy_now_loop E src dest [] copied w = (copied, w)"
| "copy_now_loop E src dest (n # ns) copied w =
     (if n = ''.'' \<or> n = ''..'' \<or> should_exclude_file n \<or> too_long (slashed src n) \<or> too_long (slashed dest n)
      then copy_now_loop E src dest ns copied w
      else case copy_file E (slashed src n) (slashed dest n) w of (ok, w1) \<Rightarrow>
             copy_now_loop E src dest ns (if ok then copied + 1 else copied) w1)"

definition copy_files_to_dcm_path :: "'n externals \<Rightarrow> cstring \<Rightarrow> cstring \<Rightarrow> 'n world \<Rightarrow> int \<times> 'n world" where
  "copy_files_to_dcm_path E src dest w =
     (case os_readdir (fs w) src of None \<Rightarrow> (-1, w) | Some ns \<Rightarrow> copy_now_loop E src dest ns 0 w)"

definition set_status :: "'n externals \<Rightarrow> cstring \<Rightarrow> 'n world \<Rightarrow> 'n world" where
  "set_status E message w = snd (write_upload_status E message w)"

text \<open>From the archive to the end of the upload; the result, the directory still to be removed.\<close>

definition now_upload :: "'n externals \<Rightarrow> RuntimeContext \<Rightarrow> cstring \<Rightarrow> 'n world \<Rightarrow> (int \<times> 'n world) option" where
  "now_upload E ctx dcm w =
     (case create_archive E ctx (zero_session\<lparr>strategy := STRAT_ONDEMAND\<rparr>) dcm w of None \<Rightarrow> None
      | Some (r, s, w1) \<Rightarrow>
          let full = slashed dcm (archive_file s) in
          if r \<noteq> 0 \<or> too_long full \<or> \<not> file_exists E w1 full then Some (-1, set_status E ''Failed'' w1)
          else case decide_paths E ctx (s\<lparr>archive_file := take 255 full\<rparr>) w1 of (s1, w2) \<Rightarrow>
            (case execute_upload_cycle E ctx s1 w2 of None \<Rightarrow> None
             | Some (ok, s2, w3) \<Rightarrow>
                 Some (if ok then (0, set_status E ''Complete'' w3) else (-1, set_status E ''Failed'' w3))))"

definition execute_uploadlogsnow_workflow :: "'n externals \<Rightarrow> RuntimeContext \<Rightarrow> 'n world \<Rightarrow> (int \<times> 'n world) option" where
  "execute_uploadlogsnow_workflow E ctx w =
     (let w0 = set_status E ''Triggered'' w;
          dcm = (if dcm_log_path ctx \<noteq> [] then take 511 (dcm_log_path ctx) else DCM_TEMP_DIR) in
      case create_directory E dcm w0 of (ok, w1) \<Rightarrow>
        if \<not> ok then Some (-1, set_status E ''Failed'' w1)
        else case copy_files_to_dcm_path E (log_path ctx) dcm w1 of (copied, w2) \<Rightarrow>
          (case (if copied < 0 then Some (-1, set_status E ''Failed'' w2)
                 else if copied = 0 then Some (0, set_status E ''No files to upload'' w2)
                 else now_upload E (ctx\<lparr>dcm_log_path := dcm\<rparr>) dcm
                        (set_status E ''In progress'' (snd (add_timestamp_to_files_uploadlogsnow E dcm w2)))) of
             None \<Rightarrow> None
           | Some (ret, w3) \<Rightarrow> Some (ret, snd (remove_directory E dcm w3))))"

subsection \<open>The runs\<close>

text \<open>The part both entry points share, from the validation to the end; the lock is still held in the
  resulting world, and \<open>True\<close> says that the session has been finalised.\<close>

definition rrd_upload :: "'n externals \<Rightarrow> 'n phase" where
  "rrd_upload E ctx s w =
     (case decide_paths E ctx (s\<lparr>archive_file := take 255 (rrd_file ctx)\<rparr>) w of (s1, w1) \<Rightarrow>
        (case execute_upload_cycle E ctx s1 w1 of None \<Rightarrow> None
         | Some (ok, s2, w2) \<Rightarrow> Some (if ok then 0 else 1, ctx, s2, w2)))"

definition finish_run :: "'n externals \<Rightarrow> RuntimeContext \<Rightarrow> SessionState \<Rightarrow> 'n world \<Rightarrow> 'n world" where
  "finish_run E ctx s w = cleanup_iarm_connection E (finalize_session ctx s w)"

definition run_session :: "'n externals \<Rightarrow> RuntimeContext \<Rightarrow> 'n world \<Rightarrow> (int \<times> 'n world) option" where
  "run_session E ctx w =
     (case validate_system E ctx w of (valid, w1) \<Rightarrow>
        if \<not> valid then Some (1, w1)
        else let s = zero_session\<lparr>strategy := early_checks ctx\<rparr> in
        if strategy s = STRAT_PRIVACY_ABORT
        then Some (0, emit_privacy_abort E (enforce_privacy E (log_path ctx) w1))
        else let w2 = emit_upload_start w1 in
        if strategy s = STRAT_RRD
        then if \<not> file_exists E w2 (rrd_file ctx) then Some (1, w2)
             else (case rrd_upload E ctx s w2 of None \<Rightarrow> None
                   | Some (ret, ctx1, s1, w3) \<Rightarrow> Some (ret, finish_run E ctx1 s1 w3))
        else (case execute_strategy_workflow E ctx s w2 of None \<Rightarrow> None
              | Some (r, ctx1, s1, w3) \<Rightarrow>
                  if r \<noteq> 0 then Some (1, w3)
                  else Some (if success s1 then 0 else 1, finish_run E ctx1 s1 w3)))"

definition lock_busy :: "'n externals \<Rightarrow> 'n world \<Rightarrow> 'n world" where
  "lock_busy E w = (if is_maintenance_enabled E w then send_iarm_event_maintenance E 16 w else w)"

definition released :: "(int \<times> 'n world) option \<Rightarrow> (int \<times> 'n world) option" where
  "released r = (case r of None \<Rightarrow> None | Some (ret, w) \<Rightarrow> Some (ret, release_lock w))"

definition uploadstblogs_run :: "'n externals \<Rightarrow> UploadSTBLogsParams option \<Rightarrow> 'n world \<Rightarrow> (int \<times> 'n world) option" where
  "uploadstblogs_run E params w =
     (case params of None \<Rightarrow> Some (1, w)
      | Some p \<Rightarrow>
          (case acquire_lock LOCK_FILE w of (locked, w1) \<Rightarrow>
             if \<not> locked then Some (1, lock_busy E w1)
             else case init_context E w1 of (ok, ctx, w2) \<Rightarrow>
               released (if \<not> ok then Some (1, w2) else run_session E (set_params p ctx) w2)))"

definition uploadstblogs_execute :: "'n externals \<Rightarrow> cstring list \<Rightarrow> 'n world \<Rightarrow> (int \<times> 'n world) option" where
  "uploadstblogs_execute E argv w =
     (case acquire_lock LOCK_FILE w of (locked, w1) \<Rightarrow>
        if \<not> locked then Some (1, lock_busy E w1)
        else case init_context E w1 of (ok, ctx0, w2) \<Rightarrow>
          released
            (if \<not> ok then Some (1, w2)
             else let ctx = parse_args argv ctx0 in
               if uploadlogsnow_mode ctx then execute_uploadlogsnow_workflow E ctx w2
               else run_session E ctx w2))"

end
