(* ===== verification/DcmSettings.thy ===== *)
theory DcmSettings
  imports DcmUtils Uploadstblogs
begin

text \<open>
  The settings of the daemon (\<^verbatim>\<open>dcm_parseconf.c\<close>): the property files read at the start, the JSON
  configuration received from the telemetry component, the uploads it triggers, and the files
  written for other programs.

  The strings of the handle and of the callers are fixed arrays into which the code copies with
  \<^verbatim>\<open>strcpy\<close>; a value that does not fit is an overflow, and the result is \<^const>\<open>None\<close>.  The buffer
  \<^verbatim>\<open>ctBuff\<close> of the handle is scratch space and left out.  The build is the one with the
  maintenance manager; the default upload URL is that of the source.
\<close>

definition DEVICE_PROP_FILE :: cstring where "DEVICE_PROP_FILE = ''/etc/device.properties''"
definition INCLUDE_PROP_FILE :: cstring where "INCLUDE_PROP_FILE = ''/etc/include.properties''"
definition DCM_TMP_CONF :: cstring where "DCM_TMP_CONF = ''/tmp/DCMSettings.conf''"
definition DCM_OPT_CONF :: cstring where "DCM_OPT_CONF = ''/opt/.DCMSettings.conf''"
definition DCM_MAINT_CONF_PATH :: cstring where "DCM_MAINT_CONF_PATH = ''/opt/rdk_maintenance.conf''"

record DCMSettingsHandle =
  cJsonStr :: cstring
  cUploadURL :: cstring
  cUploadPrtl :: cstring
  cTimeZone :: cstring
  cRdkPath :: cstring
  bRebootFlag :: int

definition zero_settings :: DCMSettingsHandle where
  "zero_settings = \<lparr>cJsonStr = [], cUploadURL = [], cUploadPrtl = [], cTimeZone = [], cRdkPath = [], bRebootFlag = 0\<rparr>"

definition strcpy :: "nat \<Rightarrow> cstring \<Rightarrow> cstring option" where
  "strcpy dst_size s = (if length s < dst_size then Some s else None)"

subsection \<open>Property files\<close>

definition cut_at :: "char \<Rightarrow> cstring \<Rightarrow> cstring" where
  "cut_at c s = takeWhile (\<lambda>x. x \<noteq> c) s"

text \<open>The two quotes are removed independently of each other.\<close>

definition unquote :: "cstring \<Rightarrow> cstring" where
  "unquote s =
     (let t = (if s \<noteq> [] \<and> hd s = CHR 0x22 then tl s else s)
      in if t \<noteq> [] \<and> last t = CHR 0x22 then butlast t else t)"

fun value_loop :: "cstring \<Rightarrow> cstring \<Rightarrow> cstring list \<Rightarrow> cstring option" where
  "value_loop key delim [] = None"
| "value_loop key delim (l # ls) =
     (if strstr l key = None then value_loop key delim ls
      else let buf = cut_at (CHR '','') (cut_at (CHR 0x0A) (cut_at (CHR 0x0D) l)) in
        case strstr buf delim of None \<Rightarrow> value_loop key delim ls
        | Some i \<Rightarrow> Some (unquote (drop (Suc i) buf)))"

text \<open>The status and the value; a file that cannot be opened leaves the value as it was.\<close>

definition dcmSettingGetValueFromFile ::
  "cstring \<Rightarrow> cstring \<Rightarrow> nat \<Rightarrow> cstring \<Rightarrow> cstring \<Rightarrow> 'n world \<Rightarrow> (int \<times> cstring) option" where
  "dcmSettingGetValueFromFile file_path key value_size value_old delim w =
     (case os_read (fs w) file_path of None \<Rightarrow> Some (DCM_FAILURE, value_old)
      | Some d \<Rightarrow>
          (case value_loop key delim (fgets_all EXECMD_BUFF_SIZE d) of None \<Rightarrow> Some (DCM_FAILURE, [])
           | Some v \<Rightarrow> (case strcpy value_size v of None \<Rightarrow> None | Some v' \<Rightarrow> Some (DCM_SUCCESS, v'))))"

text \<open>The handle and the flag of the maintenance manager, which depends on the presence of the key.\<close>

definition dcmSettingsInit :: "'n externals \<Rightarrow> 'n world \<Rightarrow> (int \<times> DCMSettingsHandle option \<times> int) option" where
  "dcmSettingsInit E w =
     (if \<not> alloc_ok E (outer_of w) then Some (DCM_FAILURE, None, 0)
      else case dcmSettingGetValueFromFile INCLUDE_PROP_FILE ''RDK_PATH'' 80 [] ''='' w of None \<Rightarrow> None
      | Some (r, v) \<Rightarrow>
          (case dcmSettingGetValueFromFile DEVICE_PROP_FILE ''ENABLE_MAINTENANCE'' EXECMD_BUFF_SIZE [] ''='' w of
             None \<Rightarrow> None
           | Some (r2, v2) \<Rightarrow>
               Some (DCM_SUCCESS, Some (zero_settings\<lparr>cRdkPath := if r \<noteq> 0 then ''/lib/rdk'' else v\<rparr>),
                     if r2 \<noteq> 0 then 0 else 1)))"

subsection \<open>The JSON configuration\<close>

definition DCM_JSON_STRSIZE :: nat where "DCM_JSON_STRSIZE = 2048"
definition DCM_T2_JSONSTR :: cstring where "DCM_T2_JSONSTR = ''urn:settings:TelemetryProfile''"
definition DCM_LOGUPLOAD_PROTOCOL :: cstring where
  "DCM_LOGUPLOAD_PROTOCOL = ''urn:settings:LogUploadSettings:UploadRepository:uploadProtocol''"
definition DCM_LOGUPLOAD_URL :: cstring where
  "DCM_LOGUPLOAD_URL = ''urn:settings:LogUploadSettings:UploadRepository:URL''"
definition DCM_LOGUPLOAD_REBOOT :: cstring where
  "DCM_LOGUPLOAD_REBOOT = ''urn:settings:LogUploadSettings:UploadOnReboot''"
definition DCM_LOGUPLOAD_CRON :: cstring where
  "DCM_LOGUPLOAD_CRON = ''urn:settings:LogUploadSettings:UploadSchedule:cron''"
definition DCM_DIFD_CRON :: cstring where "DCM_DIFD_CRON = ''urn:settings:CheckSchedule:cron''"
definition DCM_TIMEZONE :: cstring where "DCM_TIMEZONE = ''urn:settings:TimeZoneMode''"

text \<open>Only the first line of the file is read.  The telemetry profile is cut off two characters before its
  name, which is out of bounds when the name comes earlier than that: \<^const>\<open>None\<close>.\<close>

definition cut_telemetry :: "cstring \<Rightarrow> cstring option" where
  "cut_telemetry s =
     (case strstr s DCM_T2_JSONSTR of None \<Rightarrow> Some s
      | Some lc \<Rightarrow> if lc < 2 then None else Some (take (lc - 2) s @ ''}''))"

definition dcmSettingJsonInit ::
  "'n dcm_externals \<Rightarrow> DCMSettingsHandle \<Rightarrow> cstring option \<Rightarrow> 'n world \<Rightarrow>
     (int \<times> DCMSettingsHandle \<times> cjson option) option" where
  "dcmSettingJsonInit D h infile w =
     (case infile of None \<Rightarrow> Some (DCM_FAILURE, h, None)
      | Some f \<Rightarrow>
          (case os_read (fs w) f of None \<Rightarrow> Some (DCM_FAILURE, h, None)
           | Some d \<Rightarrow>
               (case fgets_all DCM_JSON_STRSIZE d of [] \<Rightarrow> Some (DCM_FAILURE, h\<lparr>cJsonStr := []\<rparr>, None)
                | l # ls \<Rightarrow>
                    (case cut_telemetry l of None \<Rightarrow> None
                     | Some s \<Rightarrow>
                         Some (if cJSON_Parse D s = None then DCM_FAILURE else DCM_SUCCESS,
                               h\<lparr>cJsonStr := s\<rparr>, cJSON_Parse D s)))))"

datatype item_type = DCM_JSONITEM_BOOL | DCM_JSONITEM_INT | DCM_JSONITEM_STR | DCM_JSONITEM_NULL

text \<open>The status, the string, the number and the type; \<open>size\<close> is the size of the string buffer, and
  a null handle leaves the outputs alone.\<close>

definition dcmSettingJsonGetVal ::
  "'n dcm_externals \<Rightarrow> cjson option \<Rightarrow> cstring \<Rightarrow> nat \<Rightarrow> cstring \<times> int \<times> item_type \<Rightarrow>
     (int \<times> cstring \<times> int \<times> item_type) option" where
  "dcmSettingJsonGetVal D json item sval_size old =
     (case json of None \<Rightarrow> Some (DCM_FAILURE, old)
      | Some j \<Rightarrow>
          (case cJSON_GetObjectItem D j item of None \<Rightarrow> Some (DCM_FAILURE, [], 0, DCM_JSONITEM_NULL)
           | Some v \<Rightarrow>
               (case v of
                  JBool b \<Rightarrow> Some (DCM_SUCCESS, [], if b then 1 else 0, DCM_JSONITEM_BOOL)
                | JNumber n \<Rightarrow> Some (DCM_SUCCESS, [], n, DCM_JSONITEM_INT)
                | JString s \<Rightarrow> (case strcpy sval_size s of None \<Rightarrow> None
                                | Some t \<Rightarrow> Some (DCM_SUCCESS, t, 0, DCM_JSONITEM_STR))
                | JNull \<Rightarrow> Some (DCM_SUCCESS, [], 0, DCM_JSONITEM_NULL)
                | JArray xs \<Rightarrow> Some (DCM_SUCCESS, [], 0, DCM_JSONITEM_NULL)
                | JObject xs \<Rightarrow> Some (DCM_SUCCESS, [], 0, DCM_JSONITEM_NULL))))"

subsection \<open>The files for other programs\<close>

definition quoted :: "cstring \<Rightarrow> cstring" where
  "quoted s = [CHR 0x22] @ s @ [CHR 0x22]"

text \<open>\<^verbatim>\<open>fseek(fp, -1, SEEK_CUR)\<close> followed by a write replaces the last character written so far.  It is
  used after an opening bracket has been written, so there is always one.\<close>

definition close_with :: "cstring \<Rightarrow> cstring \<Rightarrow> cstring" where
  "close_with txt closing = butlast txt @ closing"

text \<open>Members with a value that is not a string have a null pointer for their string: printing it, or
  comparing a missing name, is \<^const>\<open>None\<close>.\<close>

fun profile_fields :: "(cstring \<times> cjson) list \<Rightarrow> cstring option" where
  "profile_fields [] = Some []"
| "profile_fields ((n, JString v) # xs) =
     map_option (\<lambda>r. quoted n @ (if n = ''header'' \<or> n = ''content'' \<or> n = ''type'' then '' : '' else '':'') @ quoted v @ '','' @ r)
       (profile_fields xs)"
| "profile_fields ((n, v) # xs) = None"

definition profile_entry :: "cjson \<Rightarrow> cstring option" where
  "profile_entry j =
     (case j of JObject xs \<Rightarrow> map_option (\<lambda>r. close_with (''{'' @ r) ''},'') (profile_fields xs)
      | JArray xs \<Rightarrow> if xs = [] then Some (close_with ''{'' ''},'') else None
      | JNull \<Rightarrow> Some (close_with ''{'' ''},'') | JBool b \<Rightarrow> Some (close_with ''{'' ''},'')
      | JNumber i \<Rightarrow> Some (close_with ''{'' ''},'') | JString s \<Rightarrow> Some (close_with ''{'' ''},''))"

fun profile_entries :: "cjson list \<Rightarrow> cstring option" where
  "profile_entries [] = Some []"
| "profile_entries (j # js) =
     (case profile_entry j of None \<Rightarrow> None
      | Some t \<Rightarrow> map_option (append t) (profile_entries js))"

text \<open>What a member of a group adds to the temporary and to the persistent file.\<close>

definition same_text :: "cstring \<Rightarrow> cstring \<times> cstring" where
  "same_text s = (s, s)"

definition member_text :: "cstring \<Rightarrow> cjson \<Rightarrow> (cstring \<times> cstring) option" where
  "member_text n v =
     (if n = ''uploadRepository:URL''
      then (case v of JString s \<Rightarrow> Some (quoted n @ '':'' @ quoted s @ '','', [])
            | JNull \<Rightarrow> None | JBool b \<Rightarrow> None | JNumber i \<Rightarrow> None | JArray xs \<Rightarrow> None | JObject xs \<Rightarrow> None)
      else (case v of
          JNull \<Rightarrow> Some (same_text (quoted n @ '':null,''))
        | JBool b \<Rightarrow> Some (same_text (quoted n @ '':'' @ (if b then ''true'' else ''false'') @ '',''))
        | JNumber i \<Rightarrow> Some (same_text (quoted n @ '':'' @ int_dec i @ '',''))
        | JString s \<Rightarrow> Some (same_text (quoted n @ '':'' @ quoted s @ '',''))
        | JArray xs \<Rightarrow> map_option (\<lambda>r. same_text (close_with (quoted ''telemetryProfile'' @ '':['' @ r) ''],''))
                        (profile_entries xs)
        | JObject xs \<Rightarrow> Some (same_text [])))"

fun members_text :: "(cstring \<times> cjson) list \<Rightarrow> (cstring \<times> cstring) option" where
  "members_text [] = Some ([], [])"
| "members_text ((n, v) # xs) =
     (case member_text n v of None \<Rightarrow> None
      | Some (a, b) \<Rightarrow>
          (case members_text xs of None \<Rightarrow> None | Some (c, d) \<Rightarrow> Some (a @ c, b @ d)))"

definition json_item_text :: "cstring \<Rightarrow> cjson \<Rightarrow> (cstring \<times> cstring) option" where
  "json_item_text n v =
     (case v of
        JNull \<Rightarrow> Some (n @ ''=null'' @ [CHR 0x0A], [])
      | JBool b \<Rightarrow> Some (n @ ''='' @ (if b then ''true'' else ''false'') @ [CHR 0x0A], [])
      | JNumber i \<Rightarrow> Some (n @ ''='' @ int_dec i @ [CHR 0x0A], [])
      | JString s \<Rightarrow> Some (n @ ''='' @ s @ [CHR 0x0A], [])
      | JObject xs \<Rightarrow>
          (case members_text xs of None \<Rightarrow> None
           | Some (a, b) \<Rightarrow> Some (close_with (quoted n @ '':{'' @ a) (''}'' @ [CHR 0x0A]),
                                   close_with (quoted n @ '':{'' @ b) (''}'' @ [CHR 0x0A])))
      | JArray xs \<Rightarrow> Some ([], []))"

fun items_text :: "(cstring \<times> cjson) list \<Rightarrow> (cstring \<times> cstring) option" where
  "items_text [] = Some ([], [])"
| "items_text ((n, v) # xs) =
     (case json_item_text n v of None \<Rightarrow> None
      | Some (a, b) \<Rightarrow>
          (case items_text xs of None \<Rightarrow> None | Some (c, d) \<Rightarrow> Some (a @ c, b @ d)))"

definition is_array :: "cjson \<Rightarrow> bool" where
  "is_array v = (case v of JArray xs \<Rightarrow> True | JObject xs \<Rightarrow> False | JNull \<Rightarrow> False | JBool b \<Rightarrow> False
     | JNumber i \<Rightarrow> False | JString s \<Rightarrow> False)"

text \<open>The elements of an array have no name to print, but nothing is printed for arrays.\<close>

definition conf_text :: "cjson \<Rightarrow> (cstring \<times> cstring) option" where
  "conf_text j =
     (case j of JObject xs \<Rightarrow> items_text xs
      | JArray xs \<Rightarrow> if list_all is_array xs then Some ([], []) else None
      | JNull \<Rightarrow> Some ([], []) | JBool b \<Rightarrow> Some ([], []) | JNumber i \<Rightarrow> Some ([], []) | JString s \<Rightarrow> Some ([], []))"

definition write_over :: "cstring \<Rightarrow> cstring \<Rightarrow> 'n world \<Rightarrow> 'n world" where
  "write_over p txt w = (case os_write (fs w) p txt (clock w) of None \<Rightarrow> w | Some g \<Rightarrow> w\<lparr>fs := g\<rparr>)"

definition dcmSettingStoreTempConf ::
  "'n externals \<Rightarrow> 'n dcm_externals \<Rightarrow> cstring \<Rightarrow> cstring \<Rightarrow> cstring \<Rightarrow> 'n world \<Rightarrow> (int \<times> 'n world) option" where
  "dcmSettingStoreTempConf E D pConffile pTempConf pOptConf w =
     (case os_read (fs w) pConffile of None \<Rightarrow> Some (DCM_FAILURE, w)
      | Some d0 \<Rightarrow>
          (case os_write (fs w) pTempConf [] (clock w) of None \<Rightarrow> Some (DCM_FAILURE, w)
           | Some f1 \<Rightarrow>
               (case os_write f1 pOptConf [] (clock w) of None \<Rightarrow> Some (DCM_FAILURE, w\<lparr>fs := f1\<rparr>)
                | Some f2 \<Rightarrow>
                    let w2 = w\<lparr>fs := f2\<rparr> in
                    if \<not> alloc_ok E (outer_of w2) then Some (DCM_FAILURE, w2)
                    else (case os_read f2 pConffile of None \<Rightarrow> Some (DCM_FAILURE, w2)
                          | Some d \<Rightarrow>
                              (case cJSON_Parse D d of None \<Rightarrow> Some (DCM_FAILURE, w2)
                               | Some j \<Rightarrow>
                                   (case conf_text j of None \<Rightarrow> None
                                    | Some (t, opt) \<Rightarrow>
                                        Some (DCM_SUCCESS, write_over pOptConf opt (write_over pTempConf t w2))))))))"

text \<open>The minute and the hour of the pattern go into arrays of four characters.\<close>

definition maint_text :: "cstring \<Rightarrow> cstring \<Rightarrow> cstring \<Rightarrow> cstring" where
  "maint_text hr mn tz =
     ''start_hr='' @ quoted (int_dec (atoi hr)) @ [CHR 0x0A] @
     ''start_min='' @ quoted (int_dec (atoi mn)) @ [CHR 0x0A] @
     ''tz_mode='' @ quoted tz @ [CHR 0x0A]"

definition dcmSettingSaveMaintenance :: "cstring \<Rightarrow> cstring \<Rightarrow> 'n world \<Rightarrow> (int \<times> 'n world) option" where
  "dcmSettingSaveMaintenance pCronptr pTimeZone w =
     (let mn = cut_at (CHR '' '') pCronptr;
          hr = cut_at (CHR '' '') (drop (Suc (length mn)) pCronptr) in
      case os_write (fs w) DCM_MAINT_CONF_PATH [] (clock w) of None \<Rightarrow> Some (DCM_FAILURE, w)
      | Some f1 \<Rightarrow>
          if 4 \<le> length mn \<or> 4 \<le> length hr then None
          else Some (DCM_SUCCESS, write_over DCM_MAINT_CONF_PATH (maint_text hr mn pTimeZone) (w\<lparr>fs := f1\<rparr>)))"

definition dcmSettingDefaultBoot ::
  "'n externals \<Rightarrow> 'n dcm_externals \<Rightarrow> 'n world \<Rightarrow> (int \<times> 'n world) option" where
  "dcmSettingDefaultBoot E D w =
     (let persistentPath = (case dcmUtilsGetFileEntry (Some INCLUDE_PROP_FILE) (Some ''PERSISTENT_PATH'') w of
                              None \<Rightarrow> ''/opt'' | Some p \<Rightarrow> p);
          defaultConfig = take 511 (persistentPath @ ''/.t2persistentfolder/DCMresponse.txt'') in
      if dcmUtilsFilePresentCheck (Some defaultConfig) w \<noteq> DCM_SUCCESS then Some (DCM_FAILURE, w)
      else dcmSettingStoreTempConf E D defaultConfig DCM_TMP_CONF DCM_OPT_CONF w)"

subsection \<open>Processing a configuration\<close>

definition string_setting ::
  "'n dcm_externals \<Rightarrow> cjson option \<Rightarrow> cstring \<Rightarrow> nat \<Rightarrow> cstring \<Rightarrow> cstring option" where
  "string_setting D json item sval_size dflt =
     (case dcmSettingJsonGetVal D json item sval_size ([], 0, DCM_JSONITEM_NULL) of None \<Rightarrow> None
      | Some (r, s, i, t) \<Rightarrow>
          Some (if r \<noteq> 0 \<or> t \<noteq> DCM_JSONITEM_STR \<or> s = [] then dflt else s))"

definition conf_params :: "DCMSettingsHandle \<Rightarrow> bool \<Rightarrow> TriggerType \<Rightarrow> UploadSTBLogsParams" where
  "conf_params h on_reboot trig = \<lparr>p_flag = 1, p_dcm_flag = 1, p_upload_on_reboot = on_reboot,
     p_upload_protocol = Some (cUploadPrtl h), p_upload_http_link = Some (cUploadURL h),
     p_trigger_type = trig, p_rrd_flag = False, p_rrd_file = None\<rparr>"

definition upload_then :: "'n externals \<Rightarrow> UploadSTBLogsParams \<Rightarrow> 'n world \<Rightarrow> 'n world option" where
  "upload_then E p w = map_option snd (uploadstblogs_run E (Some p) w)"

definition conf_uploads ::
  "'n externals \<Rightarrow> DCMSettingsHandle \<Rightarrow> int \<Rightarrow> cstring \<Rightarrow> 'n world \<Rightarrow> 'n world option" where
  "conf_uploads E h uploadCheck pLogCron w =
     (case (if uploadCheck = 1 \<and> bRebootFlag h = 0 then upload_then E (conf_params h True TRIGGER_REBOOT) w
            else if uploadCheck = 0 \<and> bRebootFlag h = 0
            then upload_then E (conf_params h False TRIGGER_SCHEDULED) w
            else Some w) of
        None \<Rightarrow> None
      | Some w1 \<Rightarrow>
          if pLogCron = [] then upload_then E (conf_params h False TRIGGER_SCHEDULED) w1 else Some w1)"

text \<open>The settings read from the parsed text: the handle, \<^verbatim>\<open>uploadCheck\<close>, the two patterns and the status
  of the last look-up, which is the result of the function.\<close>

definition conf_values ::
  "'n dcm_externals \<Rightarrow> DCMSettingsHandle \<Rightarrow> cjson option \<Rightarrow>
     (DCMSettingsHandle \<times> int \<times> cstring \<times> cstring \<times> int) option" where
  "conf_values D h json =
     (case string_setting D json DCM_LOGUPLOAD_PROTOCOL 8 ''HTTP'' of None \<Rightarrow> None
      | Some prtl \<Rightarrow>
     (case string_setting D json DCM_LOGUPLOAD_URL 128 ''https://falbackurl'' of None \<Rightarrow> None
      | Some url \<Rightarrow>
     (case string_setting D json DCM_TIMEZONE 16 ''Local Time'' of None \<Rightarrow> None
      | Some tz \<Rightarrow>
     (case dcmSettingJsonGetVal D json DCM_LOGUPLOAD_REBOOT 1 ([], 0, DCM_JSONITEM_NULL) of None \<Rightarrow> None
      | Some (r1, s1, uploadCheck, t1) \<Rightarrow>
     (case dcmSettingJsonGetVal D json DCM_LOGUPLOAD_CRON 16 ([], 0, DCM_JSONITEM_NULL) of None \<Rightarrow> None
      | Some (r2, s2, i2, t2) \<Rightarrow>
     (case dcmSettingJsonGetVal D json DCM_DIFD_CRON 16 ([], 0, DCM_JSONITEM_NULL) of None \<Rightarrow> None
      | Some (r3, s3, i3, t3) \<Rightarrow>
          Some (h\<lparr>cUploadPrtl := prtl, cUploadURL := url, cTimeZone := tz\<rparr>, uploadCheck,
                if r2 \<noteq> 0 \<or> t2 \<noteq> DCM_JSONITEM_STR then [] else s2,
                if r3 \<noteq> 0 \<or> t3 \<noteq> DCM_JSONITEM_STR then [] else s3, r3)))))))"

text \<open>The result, the handle, the two patterns and the world; the patterns are unchanged when the file
  cannot be parsed.\<close>

definition dcmSettingParseConf ::
  "'n externals \<Rightarrow> 'n dcm_externals \<Rightarrow> int \<Rightarrow> DCMSettingsHandle option \<Rightarrow> cstring \<Rightarrow> cstring \<Rightarrow> cstring \<Rightarrow> 'n world \<Rightarrow>
     (int \<times> DCMSettingsHandle option \<times> cstring \<times> cstring \<times> 'n world) option" where
  "dcmSettingParseConf E D g_bMMEnable pHandle pConffile pLogCron pDifdCron w =
     (case pHandle of None \<Rightarrow> Some (DCM_FAILURE, None, pLogCron, pDifdCron, w)
      | Some h \<Rightarrow>
     (case dcmSettingJsonInit D h (Some pConffile) w of None \<Rightarrow> None
      | Some (r, h1, json) \<Rightarrow>
          if r \<noteq> 0 then Some (DCM_FAILURE, Some h1, pLogCron, pDifdCron, w)
          else (case conf_values D h1 json of None \<Rightarrow> None
          | Some (h2, uploadCheck, logCron, difdCron, ret) \<Rightarrow>
     (case conf_uploads E h2 uploadCheck logCron w of None \<Rightarrow> None
      | Some w1 \<Rightarrow>
     (case dcmSettingStoreTempConf E D pConffile DCM_TMP_CONF DCM_OPT_CONF w1 of None \<Rightarrow> None
      | Some (r2, w2) \<Rightarrow>
     (case (if g_bMMEnable \<noteq> 0 then dcmSettingSaveMaintenance difdCron (cTimeZone h2) w2 else Some (0, w2)) of
        None \<Rightarrow> None
      | Some (r3, w3) \<Rightarrow> Some (ret, Some h2, logCron, difdCron, w3)))))))"

end
