(* ===== verification/DcmRbus.thy ===== *)
theory DcmRbus
  imports DcmUtils
begin

text \<open>
  The bus side of the daemon (\<^verbatim>\<open>dcm_rbus.c\<close>): the handle shared by the callbacks of the bus library
  and by the main thread, the subscriptions, and the events sent.

  The pointer to the handle of the bus library is modelled by whether it is null.  The callbacks
  run in a thread of the library; here they are functions on the shared handle, and
  \<^verbatim>\<open>DcmDaemon\<close> interleaves them with the main thread.
\<close>

record DCMRBusHandle =
  pRbusHandle :: bool
  schedJob :: int
  eventSub :: int
  confPath :: cstring

definition DCM_RBUS_SETCONF_EVENT :: cstring where "DCM_RBUS_SETCONF_EVENT = ''Device.DCM.Setconfig''"
definition DCM_RBUS_PROCCONF_EVENT :: cstring where "DCM_RBUS_PROCCONF_EVENT = ''Device.DCM.Processconfig''"
definition DCM_RBUS_RELOAD_EVENT :: cstring where
  "DCM_RBUS_RELOAD_EVENT = ''Device.X_RDKCENTREL-COM.Reloadconfig''"

text \<open>The error codes of the bus that the code names.\<close>

definition RBUS_ERROR_SUCCESS :: int where "RBUS_ERROR_SUCCESS = 0"
definition RBUS_ERROR_BUS_ERROR :: int where "RBUS_ERROR_BUS_ERROR = 1"

subsection \<open>Callbacks\<close>

text \<open>The event carries the string value of \<^verbatim>\<open>dcmSetConfig\<close>, if there is one; the subscription carries
  the handle.\<close>

definition rbusSetConf :: "bool \<Rightarrow> bool \<Rightarrow> DCMRBusHandle option \<Rightarrow> cstring option \<Rightarrow> DCMRBusHandle option" where
  "rbusSetConf has_event has_subscription userData configPath =
     (if \<not> has_event \<or> \<not> has_subscription then userData
      else case userData of None \<Rightarrow> None
      | Some h \<Rightarrow> (case configPath of None \<Rightarrow> Some h | Some p \<Rightarrow> Some (h\<lparr>confPath := take 127 p\<rparr>)))"

definition rbusProcConf :: "bool \<Rightarrow> bool \<Rightarrow> DCMRBusHandle option \<Rightarrow> DCMRBusHandle option" where
  "rbusProcConf has_event has_subscription userData =
     (if \<not> has_event \<or> \<not> has_subscription then userData
      else case userData of None \<Rightarrow> None | Some h \<Rightarrow> Some (h\<lparr>schedJob := 1\<rparr>))"

text \<open>The status, and the static variable \<^verbatim>\<open>g_eventsub\<close>.\<close>

definition rbusSendEventCB :: "bool \<Rightarrow> cstring option \<Rightarrow> int \<Rightarrow> int \<times> int" where
  "rbusSendEventCB subscribe eventName g_eventsub =
     (case eventName of None \<Rightarrow> (RBUS_ERROR_BUS_ERROR, g_eventsub)
      | Some n \<Rightarrow> (RBUS_ERROR_SUCCESS,
                    if n = DCM_RBUS_RELOAD_EVENT then (if subscribe then 1 else 0) else g_eventsub))"

definition rbusAsyncSubCB :: "bool \<Rightarrow> DCMRBusHandle option \<Rightarrow> int \<Rightarrow> DCMRBusHandle option" where
  "rbusAsyncSubCB has_subscription userData error =
     (if \<not> has_subscription then userData
      else case userData of None \<Rightarrow> None
      | Some h \<Rightarrow> Some (h\<lparr>eventSub := if error \<noteq> RBUS_ERROR_SUCCESS then 0 else 1\<rparr>))"

subsection \<open>The main thread\<close>

definition dcmRbusSendEvent ::
  "'n dcm_externals \<Rightarrow> DCMRBusHandle option \<Rightarrow> int \<Rightarrow> 'n world \<Rightarrow> int \<times> 'n world" where
  "dcmRbusSendEvent D h g_eventsub w =
     (case h of None \<Rightarrow> (DCM_FAILURE, w)
      | Some r \<Rightarrow>
          if \<not> pRbusHandle r \<or> g_eventsub = 0 then (DCM_FAILURE, w)
          else case xcall (rbusEvent_Publish D DCM_RBUS_RELOAD_EVENT ''ReConfig'') w of (rc, w1) \<Rightarrow>
            (if rc \<noteq> RBUS_ERROR_SUCCESS then DCM_FAILURE else DCM_SUCCESS, w1))"

text \<open>The version is copied into a buffer of the caller, whose size is \<open>size\<close>; a value of another type
  leaves the buffer empty.\<close>

definition dcmRbusGetT2Version ::
  "'n dcm_externals \<Rightarrow> DCMRBusHandle option \<Rightarrow> nat option \<Rightarrow> 'n world \<Rightarrow> (int \<times> cstring) option" where
  "dcmRbusGetT2Version D h value_size w =
     (case h of None \<Rightarrow> Some (DCM_FAILURE, [])
      | Some r \<Rightarrow>
          (case value_size of None \<Rightarrow> Some (DCM_FAILURE, [])
           | Some n \<Rightarrow>
               if \<not> pRbusHandle r then Some (DCM_FAILURE, [])
               else (case rbus_get_t2_version D (outer_of w) of (rc, v) \<Rightarrow>
                       if rc \<noteq> RBUS_ERROR_SUCCESS then Some (DCM_FAILURE, [])
                       else (case v of None \<Rightarrow> Some (DCM_SUCCESS, [])
                             | Some s \<Rightarrow> if length s < n then Some (DCM_SUCCESS, s) else None))))"

definition dcmRbusGetEventSubStatus :: "DCMRBusHandle option \<Rightarrow> int" where
  "dcmRbusGetEventSubStatus h = (case h of None \<Rightarrow> 0 | Some r \<Rightarrow> eventSub r)"

definition dcmRbusGetConfPath :: "DCMRBusHandle option \<Rightarrow> cstring option" where
  "dcmRbusGetConfPath h = (case h of None \<Rightarrow> None | Some r \<Rightarrow> Some (confPath r))"

definition dcmRbusSchedJobStatus :: "DCMRBusHandle option \<Rightarrow> int" where
  "dcmRbusSchedJobStatus h = (case h of None \<Rightarrow> 0 | Some r \<Rightarrow> schedJob r)"

definition dcmRbusSchedResetStatus :: "DCMRBusHandle option \<Rightarrow> DCMRBusHandle option" where
  "dcmRbusSchedResetStatus h = (case h of None \<Rightarrow> None | Some r \<Rightarrow> Some (r\<lparr>schedJob := 0\<rparr>))"

definition dcmRbusSubscribeEvents ::
  "'n dcm_externals \<Rightarrow> DCMRBusHandle option \<Rightarrow> 'n world \<Rightarrow> int \<times> 'n world" where
  "dcmRbusSubscribeEvents D h w =
     (case h of None \<Rightarrow> (DCM_FAILURE, w)
      | Some r \<Rightarrow>
          (case xcall (rbusEvent_SubscribeAsync D DCM_RBUS_SETCONF_EVENT) w of (rc1, w1) \<Rightarrow>
             if rc1 \<noteq> RBUS_ERROR_SUCCESS then (DCM_FAILURE, w1)
             else case xcall (rbusEvent_SubscribeAsync D DCM_RBUS_PROCCONF_EVENT) w1 of (rc2, w2) \<Rightarrow>
               if rc2 \<noteq> RBUS_ERROR_SUCCESS
               then (DCM_FAILURE, snd (xcall (rbusEvent_Unsubscribe D DCM_RBUS_SETCONF_EVENT) w2))
               else case xcall (rbus_regDataElements D DCM_RBUS_RELOAD_EVENT) w2 of (rc3, w3) \<Rightarrow>
                 if rc3 \<noteq> RBUS_ERROR_SUCCESS
                 then (DCM_FAILURE,
                       snd (xcall (rbusEvent_Unsubscribe D DCM_RBUS_SETCONF_EVENT)
                         (snd (xcall (rbusEvent_Unsubscribe D DCM_RBUS_PROCCONF_EVENT) w3))))
                 else (DCM_SUCCESS, w3)))"

text \<open>\<^verbatim>\<open>RBUS_ENABLED\<close> is the status 0.\<close>

definition dcmRbusInit ::
  "'n externals \<Rightarrow> 'n dcm_externals \<Rightarrow> 'n world \<Rightarrow> int \<times> DCMRBusHandle option \<times> 'n world" where
  "dcmRbusInit E D w =
     (if rbus_checkStatus D (outer_of w) \<noteq> 0 then (DCM_FAILURE, None, w)
      else if \<not> alloc_ok E (outer_of w) then (DCM_FAILURE, None, w)
      else case xcall (rbus_open_receiver D) w of (rc, w1) \<Rightarrow>
        if rc \<noteq> RBUS_ERROR_SUCCESS then (DCM_FAILURE, None, w1)
        else (DCM_SUCCESS, Some \<lparr>pRbusHandle = True, schedJob = 0, eventSub = 0, confPath = []\<rparr>, w1))"

definition dcmRbusUnInit :: "'n dcm_externals \<Rightarrow> DCMRBusHandle option \<Rightarrow> 'n world \<Rightarrow> 'n world" where
  "dcmRbusUnInit D h w =
     (case h of None \<Rightarrow> w
      | Some r \<Rightarrow>
          snd (xcall (rbus_close D)
            (snd (xcall (rbus_unregDataElements D DCM_RBUS_RELOAD_EVENT)
              (snd (xcall (rbusEvent_Unsubscribe D DCM_RBUS_PROCCONF_EVENT)
                (snd (xcall (rbusEvent_Unsubscribe D DCM_RBUS_SETCONF_EVENT) w))))))))"

end
