(* ===== verification/SchedJob.thy ===== *)
theory SchedJob
  imports CronNextProps
begin

text \<open>
  The job scheduler \<^verbatim>\<open>dcm_schedjob.c\<close>: a job is a record shared, under one mutex, by the
  thread \<^verbatim>\<open>dcmSchedulerThread\<close> and by the functions that start, stop and remove it.  The thread is
  a step relation whose program counter names the places where the thread does not run: before
  the lock at the top of the loop, inside \<^verbatim>\<open>pthread_cond_wait\<close>, inside
  \<^verbatim>\<open>pthread_cond_timedwait\<close> with its deadline, and inside the callback, the only one of them at
  which the mutex is held.  Between two of these places a step is atomic, because the mutex is held.
  The clock is \<^verbatim>\<open>CLOCK_REALTIME\<close> in nanoseconds: it passes, and it can be set to any time at any moment.
  Spurious wake-ups and failing waits are allowed.

  The scheduler reaches the cron engine through two operations, the arguments \<open>parse\<close> and
  \<open>next_run\<close> of the definitions; the locale \<open>cron_engine\<close> states what the scheduler relies on, and
  its interpretation gives it for the model of \<^verbatim>\<open>dcm_cronparse.c\<close>.
\<close>

subsection \<open>The job\<close>

record dcmScheduler =
  job_name :: cstring
  terminated :: bool
  startSched :: bool
  parseData :: dcmCronExpr
  has_callback :: bool

definition ETIMEDOUT :: int where "ETIMEDOUT = 110"

datatype sched_pc = Loop_top | Cond_wait | Timed_wait int | In_callback | Thread_exit

record sched_conf =
  job :: dcmScheduler
  pc :: sched_pc
  clock :: int
  fired :: "int list"

type_synonym cron_next = "dcmCronExpr \<Rightarrow> int \<Rightarrow> int option"
type_synonym cron_parse = "cstring \<Rightarrow> dcmCronExpr \<Rightarrow> (int \<times> dcmCronExpr) option"

subsection \<open>The thread\<close>

text \<open>The deadline: the seconds of the clock are moved to the next run, its nanoseconds stay.\<close>

definition arm_timer :: "cron_next \<Rightarrow> sched_conf \<Rightarrow> sched_pc option" where
  "arm_timer next_run c =
     (let currentTime = clock c div 1000000000 in
      case next_run (parseData (job c)) currentTime of
        None \<Rightarrow> None
      | Some timeOffset \<Rightarrow>
          Some (Timed_wait ((currentTime + (timeOffset - currentTime)) * 1000000000 + clock c mod 1000000000)))"

text \<open>With the mutex held: the loop around \<^verbatim>\<open>pthread_cond_wait\<close> and what follows it.\<close>

definition wait_for_start :: "cron_next \<Rightarrow> sched_conf \<Rightarrow> sched_pc option" where
  "wait_for_start next_run c =
     (if \<not> startSched (job c) \<and> \<not> terminated (job c) then Some Cond_wait
      else if terminated (job c) then Some Thread_exit
      else arm_timer next_run c)"

definition thread_lock :: "cron_next \<Rightarrow> sched_conf \<Rightarrow> sched_pc option" where
  "thread_lock next_run c = (if terminated (job c) then Some Thread_exit else wait_for_start next_run c)"

definition cond_wait_returns :: "cron_next \<Rightarrow> int \<Rightarrow> sched_conf \<Rightarrow> sched_pc option" where
  "cond_wait_returns next_run n c = (if n \<noteq> 0 then Some Thread_exit else wait_for_start next_run c)"

definition timedwait_returns :: "int \<Rightarrow> int \<Rightarrow> sched_conf \<Rightarrow> sched_pc" where
  "timedwait_returns deadline n c =
     (if n = ETIMEDOUT then
        (if terminated (job c) then Thread_exit
         else if has_callback (job c) then In_callback else Loop_top)
      else if n \<noteq> 0 then Thread_exit
      else if startSched (job c) \<and> \<not> terminated (job c) then Timed_wait deadline
      else if terminated (job c) then Thread_exit
      else Loop_top)"

subsection \<open>The operations\<close>

text \<open>\<^verbatim>\<open>dcmSchedStartJob\<close>: the return code and the job; \<^const>\<open>None\<close> inside is a null pointer.\<close>

definition dcmSchedStartJob :: "cron_parse \<Rightarrow> dcmScheduler option \<Rightarrow> cstring option \<Rightarrow> (int \<times> dcmScheduler option) option" where
  "dcmSchedStartJob parse pHandle pCronPattern =
     (case pHandle of
        None \<Rightarrow> Some (DCM_FAILURE, None)
      | Some h \<Rightarrow>
     (case pCronPattern of
        None \<Rightarrow> Some (DCM_FAILURE, Some h)
      | Some pattern \<Rightarrow>
     (case parse pattern (parseData h) of
        None \<Rightarrow> None
      | Some (ret, e) \<Rightarrow>
          if ret = DCM_SUCCESS then Some (ret, Some (h\<lparr>parseData := e, startSched := True\<rparr>))
          else Some (DCM_FAILURE, Some (h\<lparr>parseData := e, startSched := False\<rparr>)))))"

definition dcmSchedStopJob :: "dcmScheduler option \<Rightarrow> int \<times> dcmScheduler option" where
  "dcmSchedStopJob pHandle =
     (case pHandle of
        None \<Rightarrow> (DCM_FAILURE, None)
      | Some h \<Rightarrow> (DCM_SUCCESS, Some (h\<lparr>startSched := False\<rparr>)))"

text \<open>The part of \<^verbatim>\<open>dcmSchedRemoveJob\<close> under the mutex; it then joins the thread.\<close>

definition dcmSchedRemoveJob :: "dcmScheduler option \<Rightarrow> dcmScheduler option" where
  "dcmSchedRemoveJob pHandle =
     (case pHandle of None \<Rightarrow> None | Some h \<Rightarrow> Some (h\<lparr>startSched := False, terminated := True\<rparr>))"

definition zero_job :: "cstring \<Rightarrow> bool \<Rightarrow> dcmScheduler" where
  "zero_job pJobName cb = \<lparr>job_name = pJobName, terminated = False, startSched = False,
     parseData = zero_cron_expr, has_callback = cb\<rparr>"

datatype sched_resource = Handle_memory | Handle_mutex | Handle_cond | Handle_thread

text \<open>\<^verbatim>\<open>dcmSchedAddJob\<close>: the results of \<^verbatim>\<open>malloc\<close>, \<^verbatim>\<open>pthread_mutex_init\<close>, \<^verbatim>\<open>pthread_cond_init\<close> and
  \<^verbatim>\<open>pthread_create\<close> are inputs; the result is the new job and the resources held at the return.\<close>

definition dcmSchedAddJob ::
  "cstring option \<Rightarrow> bool \<Rightarrow> bool \<Rightarrow> int \<Rightarrow> int \<Rightarrow> int \<Rightarrow> dcmScheduler option \<times> sched_resource set" where
  "dcmSchedAddJob pJobName cb malloc_ok mutex_ret cond_ret create_ret =
     (case pJobName of
        None \<Rightarrow> (None, {})
      | Some name \<Rightarrow>
          if \<not> malloc_ok then (None, {})
          else let held = {Handle_memory} in
            if mutex_ret \<noteq> 0 then (None, held - {Handle_memory})
            else let held = insert Handle_mutex held in
              if cond_ret \<noteq> 0 then (None, held - {Handle_mutex} - {Handle_memory})
              else let held = insert Handle_cond held in
                if create_ret \<noteq> 0 then (None, held - {Handle_cond} - {Handle_mutex} - {Handle_memory})
                else (Some (zero_job name cb), insert Handle_thread held))"

definition dcmSchedInit :: int where "dcmSchedInit = DCM_SUCCESS"

subsection \<open>The step relation\<close>

datatype sched_event =
  Time_passes int | Set_clock int | Takes_lock | Cond_wait_returns int | Timedwait_returns int | Callback_returns
  | Start_job cstring | Stop_job | Remove_job

inductive sched_step :: "cron_parse \<Rightarrow> cron_next \<Rightarrow> sched_conf \<Rightarrow> sched_event \<Rightarrow> sched_conf \<Rightarrow> bool"
  for parse :: cron_parse and next_run :: cron_next where
  time: "0 \<le> d \<Longrightarrow> sched_step parse next_run c (Time_passes d) (c\<lparr>clock := clock c + d\<rparr>)"
| set_clock: "sched_step parse next_run c (Set_clock t) (c\<lparr>clock := t\<rparr>)"
| lock: "pc c = Loop_top \<Longrightarrow> thread_lock next_run c = Some p \<Longrightarrow>
    sched_step parse next_run c Takes_lock (c\<lparr>pc := p\<rparr>)"
| wake: "pc c = Cond_wait \<Longrightarrow> n \<noteq> ETIMEDOUT \<Longrightarrow> cond_wait_returns next_run n c = Some p \<Longrightarrow>
    sched_step parse next_run c (Cond_wait_returns n) (c\<lparr>pc := p\<rparr>)"
| timed: "pc c = Timed_wait d \<Longrightarrow> (n = ETIMEDOUT \<Longrightarrow> d \<le> clock c) \<Longrightarrow>
    sched_step parse next_run c (Timedwait_returns n)
      (c\<lparr>pc := timedwait_returns d n c,
         fired := (if timedwait_returns d n c = In_callback then fired c @ [clock c] else fired c)\<rparr>)"
| callback: "pc c = In_callback \<Longrightarrow> sched_step parse next_run c Callback_returns (c\<lparr>pc := Loop_top\<rparr>)"
| start: "pc c \<noteq> In_callback \<Longrightarrow> dcmSchedStartJob parse (Some (job c)) (Some s) = Some (ret, Some j) \<Longrightarrow>
    sched_step parse next_run c (Start_job s) (c\<lparr>job := j\<rparr>)"
| stop: "pc c \<noteq> In_callback \<Longrightarrow> dcmSchedStopJob (Some (job c)) = (ret, Some j) \<Longrightarrow>
    sched_step parse next_run c Stop_job (c\<lparr>job := j\<rparr>)"
| remove: "pc c \<noteq> In_callback \<Longrightarrow> dcmSchedRemoveJob (Some (job c)) = Some j \<Longrightarrow>
    sched_step parse next_run c Remove_job (c\<lparr>job := j\<rparr>)"

inductive_cases time_stepE: "sched_step parse next_run c (Time_passes d) c'"
inductive_cases timed_stepE: "sched_step parse next_run c (Timedwait_returns n) c'"
inductive_cases start_stepE: "sched_step parse next_run c (Start_job s) c'"
inductive_cases remove_stepE: "sched_step parse next_run c Remove_job c'"

text \<open>The steps the thread takes, as opposed to its clients and the clock.\<close>

fun thread_event :: "sched_event \<Rightarrow> bool" where
  "thread_event Takes_lock = True"
| "thread_event (Cond_wait_returns n) = True"
| "thread_event (Timedwait_returns n) = True"
| "thread_event Callback_returns = True"
| "thread_event _ = False"

inductive sched_run :: "cron_parse \<Rightarrow> cron_next \<Rightarrow> sched_conf \<Rightarrow> sched_event list \<Rightarrow> sched_conf \<Rightarrow> bool"
  for parse :: cron_parse and next_run :: cron_next where
  run_nil: "sched_run parse next_run c [] c"
| run_step: "sched_run parse next_run c es c1 \<Longrightarrow> sched_step parse next_run c1 e c2 \<Longrightarrow>
    sched_run parse next_run c (es @ [e]) c2"

definition initial_conf :: "cstring \<Rightarrow> bool \<Rightarrow> int \<Rightarrow> sched_conf" where
  "initial_conf name cb t0 = \<lparr>job = zero_job name cb, pc = Loop_top, clock = t0, fired = []\<rparr>"

end
