(* ===== verification/SchedJobProps.thy ===== *)
theory SchedJobProps
  imports SchedJob
begin

text \<open>
  Correctness of the scheduler: the interface to the cron engine as a locale with the
  scheduler's lemmas, its interpretation on the model of the engine, and the claims about
  starting, stopping and removing a job.
\<close>

subsection \<open>The interface to the cron engine\<close>

text \<open>The runs in which every accepted pattern is good, and what the thread has fired.\<close>

definition good_starts :: "cron_parse \<Rightarrow> (dcmCronExpr \<Rightarrow> bool) \<Rightarrow> sched_event list \<Rightarrow> bool" where
  "good_starts parse good es =
     (\<forall>s e e'. Start_job s \<in> set es \<longrightarrow> parse s e = Some (0, e') \<longrightarrow> good e')"

text \<open>The clock is never set, so that it only moves forward.\<close>

definition clock_runs :: "sched_event list \<Rightarrow> bool" where
  "clock_runs es = (\<forall>t. Set_clock t \<notin> set es)"

definition fired_before :: "int list \<Rightarrow> int \<Rightarrow> bool" where
  "fired_before xs t = (\<forall>x \<in> set xs. x div 1000000000 < t)"

definition sched_inv :: "(dcmCronExpr \<Rightarrow> bool) \<Rightarrow> sched_conf \<Rightarrow> bool" where
  "sched_inv good c =
     ((startSched (job c) \<longrightarrow> good (parseData (job c))) \<and> 0 \<le> clock c \<and>
      sorted_wrt (\<lambda>a b. a div 1000000000 < b div 1000000000) (fired c) \<and>
      (\<forall>x \<in> set (fired c). x \<le> clock c) \<and>
      (\<forall>d. pc c = Timed_wait d \<longrightarrow> fired_before (fired c) (d div 1000000000)))"

lemma step_clock: "sched_step parse next_run c e c' \<Longrightarrow> (\<And>t. e \<noteq> Set_clock t) \<Longrightarrow> clock c \<le> clock c'"
  by (induction rule: sched_step.induct) auto

lemma initial_inv: "0 \<le> t0 \<Longrightarrow> sched_inv good (initial_conf name cb t0)"
  by (simp add: sched_inv_def initial_conf_def zero_job_def)

lemma timed_inv:
  assumes inv: "sched_inv good c" and w: "pc c = Timed_wait d" "n = ETIMEDOUT \<Longrightarrow> d \<le> clock c"
  shows "sched_inv good (c\<lparr>pc := timedwait_returns d n c,
     fired := (if timedwait_returns d n c = In_callback then fired c @ [clock c] else fired c)\<rparr>)"
proof (cases "timedwait_returns d n c = In_callback")
  case True
  then have "d \<le> clock c" using w(2) by (auto simp: timedwait_returns_def split: if_splits)
  then have "d div 1000000000 \<le> clock c div 1000000000" by (rule zdiv_mono1) simp
  then have "\<forall>x \<in> set (fired c). x div 1000000000 < clock c div 1000000000"
    using inv w(1) by (fastforce simp: sched_inv_def fired_before_def)
  with True inv show ?thesis by (auto simp: sched_inv_def sorted_wrt_append)
next
  case False
  moreover have "timedwait_returns d n c = Timed_wait d' \<Longrightarrow> d' = d" for d'
    by (auto simp: timedwait_returns_def split: if_splits)
  ultimately show ?thesis using inv w(1) by (auto simp: sched_inv_def)
qed

locale cron_engine =
  fixes parse :: "cstring \<Rightarrow> dcmCronExpr \<Rightarrow> (int \<times> dcmCronExpr) option"
    and next_run :: "dcmCronExpr \<Rightarrow> int \<Rightarrow> int option"
    and good :: "dcmCronExpr \<Rightarrow> bool"
    and horizon :: int
  assumes parse_returns: "\<exists>r e'. parse s e = Some (r, e') \<and> (r = 0 \<or> r = -1)"
    and next_later: "good e \<Longrightarrow> 0 \<le> t \<Longrightarrow> t \<le> horizon \<Longrightarrow> \<exists>T. next_run e t = Some T \<and> t < T"
begin

lemma start_returns:
  "\<exists>ret j. dcmSchedStartJob parse (Some h) (Some s) = Some (ret, Some j) \<and> (ret = 0 \<or> ret = -1) \<and>
     startSched j = (ret = 0) \<and> terminated j = terminated h \<and> has_callback j = has_callback h \<and>
     (\<exists>r. parse s (parseData h) = Some (r, parseData j) \<and> (ret = 0 \<longleftrightarrow> r = 0))"
proof -
  obtain r e' where "parse s (parseData h) = Some (r, e')" "r = 0 \<or> r = -1"
    using parse_returns by blast
  then show ?thesis by (auto simp: dcmSchedStartJob_def)
qed

lemma arm_deadline:
  assumes "good (parseData (job c))" "0 \<le> clock c" "clock c \<le> horizon * 1000000000"
  obtains d where "arm_timer next_run c = Some (Timed_wait d)" "clock c div 1000000000 < d div 1000000000"
proof -
  have "clock c div 1000000000 \<le> horizon" using zdiv_mono1 [OF assms(3), of 1000000000] by simp
  moreover have "0 \<le> clock c div 1000000000" using assms(2) by (simp add: pos_imp_zdiv_nonneg_iff)
  ultimately obtain T where T: "next_run (parseData (job c)) (clock c div 1000000000) = Some T"
    "clock c div 1000000000 < T"
    using next_later [OF assms(1)] by blast
  define d where "d = T * 1000000000 + clock c mod 1000000000"
  have "d div 1000000000 = T"
    unfolding d_def by (intro int_div_pos_eq [of _ _ _ "clock c mod 1000000000"]) simp_all
  with T show thesis by (intro that [of d]) (simp_all add: arm_timer_def d_def)
qed

lemma wait_for_start_inv:
  assumes "sched_inv good c" "clock c \<le> horizon * 1000000000" "wait_for_start next_run c = Some p"
  shows "sched_inv good (c\<lparr>pc := p\<rparr>)"
proof (cases "startSched (job c) \<and> \<not> terminated (job c)")
  case False
  with assms(3) have "p = Cond_wait \<or> p = Thread_exit" by (auto simp: wait_for_start_def split: if_splits)
  with assms(1) show ?thesis by (auto simp: sched_inv_def)
next
  case True
  with assms obtain d where "arm_timer next_run c = Some (Timed_wait d)" "clock c div 1000000000 < d div 1000000000"
    using arm_deadline [of c] by (auto simp: sched_inv_def)
  moreover have "x div 1000000000 \<le> clock c div 1000000000" if "x \<in> set (fired c)" for x
    using assms(1) that by (intro zdiv_mono1) (auto simp: sched_inv_def)
  ultimately show ?thesis using True assms(1,3)
    by (fastforce simp: wait_for_start_def sched_inv_def fired_before_def)
qed

lemma step_inv:
  assumes "sched_step parse next_run c e c'" "sched_inv good c" "clock c \<le> horizon * 1000000000"
    "\<And>t. e \<noteq> Set_clock t" "\<And>s x y. e = Start_job s \<Longrightarrow> parse s x = Some (0, y) \<Longrightarrow> good y"
  shows "sched_inv good c'"
  using assms
proof (induction rule: sched_step.induct)
  case (time d c)
  then show ?case by (fastforce simp: sched_inv_def)
next
  case (set_clock c t)
  then show ?case by blast
next
  case (lock c p)
  then show ?case using wait_for_start_inv [of c p]
    by (auto simp: thread_lock_def sched_inv_def split: if_splits)
next
  case (wake c n p)
  then show ?case using wait_for_start_inv [of c p]
    by (auto simp: cond_wait_returns_def sched_inv_def split: if_splits)
next
  case (timed c d n)
  then show ?case by (intro timed_inv)
next
  case (callback c)
  then show ?case by (auto simp: sched_inv_def)
next
  case (start c s ret j)
  then obtain r where "parse s (parseData (job c)) = Some (r, parseData j)" "startSched j \<longrightarrow> r = 0"
    using start_returns [of "job c" s] by auto
  with start show ?case by (auto simp: sched_inv_def)
next
  case (stop c ret j)
  then show ?case by (auto simp: sched_inv_def dcmSchedStopJob_def)
next
  case (remove c j)
  then show ?case by (auto simp: sched_inv_def dcmSchedRemoveJob_def)
qed

lemma run_inv:
  assumes "sched_run parse next_run c es c'" "sched_inv good c" "clock c' \<le> horizon * 1000000000"
    "good_starts parse good es" "clock_runs es"
  shows "sched_inv good c'"
  using assms
proof (induction rule: sched_run.induct)
  case (run_nil c)
  then show ?case by simp
next
  case (run_step c es c1 e c2)
  then have e: "\<And>t. e \<noteq> Set_clock t" "clock_runs es" by (auto simp: clock_runs_def)
  have le: "clock c1 \<le> horizon * 1000000000" using step_clock [OF run_step.hyps(2) e(1)] run_step.prems(2) by simp
  have "sched_inv good c1" using run_step le e(2) by (auto simp: good_starts_def)
  then show ?case
    using step_inv [OF run_step.hyps(2) _ le e(1)] run_step.prems(3) by (auto simp: good_starts_def)
qed

lemma fires_once_per_second:
  assumes "sched_run parse next_run (initial_conf name cb t0) es c'" "0 \<le> t0"
    "clock c' \<le> horizon * 1000000000" "good_starts parse good es" "clock_runs es"
  shows "sorted_wrt (\<lambda>a b. a div 1000000000 < b div 1000000000) (fired c')"
  using run_inv [OF assms(1) initial_inv [OF assms(2)] assms(3-5)] by (simp add: sched_inv_def)

end

subsection \<open>The engine the scheduler is linked with\<close>

text \<open>\<^verbatim>\<open>dcmCronParseExp\<close> and \<^verbatim>\<open>dcmCronParseGetNext\<close> on the job's own pattern structure.\<close>

definition engine_parse :: "allocator \<Rightarrow> cron_parse" where
  "engine_parse mem s e =
     (case dcmCronParseExp mem (Some s) (Some e) of
        Some (ret, Some e') \<Rightarrow> Some (ret, e')
      | _ \<Rightarrow> None)"

definition engine_next :: "allocator \<Rightarrow> cron_next" where
  "engine_next mem e t = dcmCronParseGetNext mem (Some e) t"

lemma parse_keeps_target:
  "dcmCronParseExp mem (Some s) (Some e) = Some (ret, target') \<Longrightarrow> \<exists>e'. target' = Some e'"
  unfolding dcmCronParseExp_def
  by (auto split: option.splits prod.splits if_splits list.splits simp: Let_def bind_eq_Some_conv)

lemma engine_parse_returns: "\<exists>r e'. engine_parse mem s e = Some (r, e') \<and> (r = 0 \<or> r = -1)"
proof -
  obtain ret target' where r: "dcmCronParseExp mem (Some s) (Some e) = Some (ret, target')" "ret = 0 \<or> ret = -1"
    using dcmCronParseExp_ok by blast
  with parse_keeps_target [OF r(1)] show ?thesis by (auto simp: engine_parse_def)
qed

interpretation engine: cron_engine "engine_parse mem" "engine_next mem" "\<lambda>e. plain_pattern e \<and> mem 28" 999999900000000
  for mem
proof
  show "\<exists>r e'. engine_parse mem s e = Some (r, e') \<and> (r = 0 \<or> r = -1)" for s e
    by (rule engine_parse_returns)
  show "plain_pattern e \<and> mem 28 \<Longrightarrow> 0 \<le> t \<Longrightarrow> t \<le> 999999900000000 \<Longrightarrow>
      \<exists>T. engine_next mem e t = Some T \<and> t < T" for e t
    using GetNext_earliest [of e mem t] by (auto simp: engine_next_def)
qed

subsection \<open>Claims\<close>

text \<open>
  Claim C7.  In every run of a scheduler thread (any interleaving of the thread, its clients, the passage of
  time and spurious wake-ups) in which the clock is not set and every accepted pattern is plain, the
  callback runs at strictly increasing seconds: one due instant never fires twice.
\<close>

theorem job_fires_once_per_instant:
  assumes "sched_run (engine_parse mem) (engine_next mem) (initial_conf name cb t0) es c'" "0 \<le> t0"
    "clock c' \<le> 999999900000000 * 1000000000" "mem 28" "good_starts (engine_parse mem) plain_pattern es" "clock_runs es"
  shows "sorted_wrt (\<lambda>a b. a div 1000000000 < b div 1000000000) (fired c')"
proof -
  have "good_starts (engine_parse mem) (\<lambda>e. plain_pattern e \<and> mem 28) es"
    using assms(4,5) by (simp add: good_starts_def)
  from engine.fires_once_per_second [OF assms(1-3) this assms(6)] show ?thesis .
qed

text \<open>A job that is started with a pattern, waits, fires, and waits and fires again.\<close>

definition nightly_text :: cstring where "nightly_text = ''10 1-3 * * 1/2''"

lemma nightly_parsed:
  "\<exists>e'. engine_parse (\<lambda>_. True) nightly_text e = Some (0, e') \<and> plain_pattern e'"
proof -
  have t: "schedule_text nightly_schedule = nightly_text"
    by (simp add: nightly_text_def schedule_text_def nightly_schedule_def field_text_def nat_dec.simps)
  have ok: "schedule_ok nightly_schedule" by (simp add: schedule_ok_def items_ok_def nightly_schedule_def)
  have m: "mem_ok (\<lambda>_. True)" by (simp add: mem_ok_def)
  have "length (schedule_text nightly_schedule) < 256" by (simp add: t nightly_text_def)
  then obtain e' where e: "dcmCronParseExp (\<lambda>_. True) (Some nightly_text) (Some e) = Some (0, Some e')"
    "denotes e' nightly_schedule"
    using parse_schedule [OF m ok] unfolding t by blast
  have "cron_wf e'"
    using dcmCronParseExp_ok [of "\<lambda>_. True" "Some nightly_text" "Some e"] e(1) by simp
  then have "plain_pattern e'" using e(2) by (rule denotes_plain) (simp_all add: nightly_schedule_def)
  then show ?thesis using e(1) by (simp add: engine_parse_def)
qed

theorem job_fires_once_per_instant_witness:
  "\<exists>es c' a b. sched_run (engine_parse (\<lambda>_. True)) (engine_next (\<lambda>_. True)) (initial_conf ''DCM_FW_UPDATE'' True 0) es c' \<and>
     Start_job nightly_text \<in> set es \<and> fired c' = [a, b] \<and> a div 1000000000 < b div 1000000000"
proof -
  let ?step = "sched_step (engine_parse (\<lambda>_. True)) (engine_next (\<lambda>_. True))"
  let ?run = "sched_run (engine_parse (\<lambda>_. True)) (engine_next (\<lambda>_. True)) (initial_conf ''DCM_FW_UPDATE'' True 0)"
  let ?c0 = "initial_conf ''DCM_FW_UPDATE'' True 0"
  have start: "dcmSchedStartJob (engine_parse (\<lambda>_. True)) (Some (job ?c0)) (Some nightly_text) = Some (0, Some j)"
    if "engine_parse (\<lambda>_. True) nightly_text zero_cron_expr = Some (0, e)" "j = (job ?c0)\<lparr>parseData := e, startSched := True\<rparr>" for e j
    using that by (simp add: dcmSchedStartJob_def initial_conf_def zero_job_def)
  obtain e where e: "engine_parse (\<lambda>_. True) nightly_text zero_cron_expr = Some (0, e)" "plain_pattern e"
    using nightly_parsed by blast
  define j where "j = (job ?c0)\<lparr>parseData := e, startSched := True\<rparr>"
  have j: "startSched j" "\<not> terminated j" "has_callback j" "parseData j = e"
    by (simp_all add: j_def initial_conf_def zero_job_def)
  obtain T where T: "engine_next (\<lambda>_. True) e 0 = Some T" "0 < T" "T \<le> 369 * 86400"
    using GetNext_earliest [OF e(2), of "\<lambda>_. True" 0] by (auto simp: engine_next_def)
  obtain T' where T': "engine_next (\<lambda>_. True) e T = Some T'" "T < T'" "T' \<le> T + 369 * 86400"
    using GetNext_earliest [OF e(2), of "\<lambda>_. True" T] T by (auto simp: engine_next_def)
  let ?at = "\<lambda>p t f. \<lparr>job = j, pc = p, clock = t * 1000000000, fired = f\<rparr>"
  have arm: "?step (?at Loop_top t f) Takes_lock (?at (Timed_wait (u * 1000000000)) t f)"
    if "engine_next (\<lambda>_. True) e t = Some u" for t u f
    using sched_step.lock [of "?at Loop_top t f" "engine_next (\<lambda>_. True)" "Timed_wait (u * 1000000000)"] that j
    by (simp add: thread_lock_def wait_for_start_def arm_timer_def)
  have pass: "?step (?at p t f) (Time_passes ((u - t) * 1000000000)) (?at p u f)" if "t < u" for p t u f
    using sched_step.time [of "(u - t) * 1000000000" _ _ "?at p t f"] that by (simp add: algebra_simps)
  have fire: "?step (?at (Timed_wait (t * 1000000000)) t f) (Timedwait_returns ETIMEDOUT) (?at In_callback t (f @ [t * 1000000000]))" for t f
    using sched_step.timed [of "?at (Timed_wait (t * 1000000000)) t f" "t * 1000000000" ETIMEDOUT] j
    by (simp add: timedwait_returns_def)
  have again: "?step (?at In_callback t f) Callback_returns (?at Loop_top t f)" for t f
    using sched_step.callback [of "?at In_callback t f"] by simp
  have "?step ?c0 (Start_job nightly_text) (?at Loop_top 0 [])"
    using sched_step.start [OF _ start [OF e(1) j_def], of _] by (simp add: initial_conf_def)
  from run_step [OF run_nil this]
  have "?run ([] @ [Start_job nightly_text]) (?at Loop_top 0 [])" .
  note run_step [OF run_step [OF run_step [OF run_step [OF this arm [OF T(1)]] pass [OF T(2)]] fire] again]
  note run_step [OF run_step [OF run_step [OF this arm [OF T'(1)]] pass [OF T'(2)]] fire]
  then have run: "?run [Start_job nightly_text, Takes_lock, Time_passes ((T - 0) * 1000000000), Timedwait_returns ETIMEDOUT,
      Callback_returns, Takes_lock, Time_passes ((T' - T) * 1000000000), Timedwait_returns ETIMEDOUT]
      (?at In_callback T' [T * 1000000000, T' * 1000000000])" by simp
  have good: "good_starts (engine_parse (\<lambda>_. True)) plain_pattern es"
    if "\<forall>s. Start_job s \<in> set es \<longrightarrow> s = nightly_text" for es
    using that nightly_parsed unfolding good_starts_def by (metis Pair_inject option.inject)
  have "sorted_wrt (\<lambda>a b. a div 1000000000 < b div 1000000000) [T * 1000000000, T' * 1000000000]"
    using job_fires_once_per_instant [OF run] T T' good by (simp add: clock_runs_def)
  then show ?thesis using run by fastforce
qed

text \<open>A removed job: what each step and each run from there does.\<close>

lemma terminated_step:
  assumes "sched_step parse next_run c e c'" "terminated (job c)" "pc c \<noteq> In_callback"
  shows "terminated (job c') \<and> pc c' \<noteq> In_callback \<and> fired c' = fired c \<and> (thread_event e \<longrightarrow> pc c' = Thread_exit)"
  using assms
proof (induction rule: sched_step.induct)
  case (timed c d n)
  then show ?case by (auto simp: timedwait_returns_def)
qed (auto simp: thread_lock_def cond_wait_returns_def wait_for_start_def dcmSchedStartJob_def
    dcmSchedStopJob_def dcmSchedRemoveJob_def split: if_splits option.splits prod.splits)

lemma terminated_run:
  "sched_run parse next_run c es c' \<Longrightarrow> terminated (job c) \<Longrightarrow> pc c \<noteq> In_callback \<Longrightarrow>
     terminated (job c') \<and> pc c' \<noteq> In_callback \<and> fired c' = fired c"
  by (induction rule: sched_run.induct) (auto dest: terminated_step)

lemma terminated_moves:
  assumes "terminated (job c)" "pc c \<noteq> In_callback" "pc c \<noteq> Thread_exit"
  shows "\<exists>e c'. thread_event e \<and> sched_step parse next_run c e c'"
proof (cases "pc c")
  case Loop_top
  then show ?thesis
    using sched_step.lock [of c next_run Thread_exit] assms(1) by (intro exI [of _ Takes_lock]) (auto simp: thread_lock_def)
next
  case Cond_wait
  then show ?thesis
    using sched_step.wake [of c 0 next_run Thread_exit] assms(1)
    by (intro exI [of _ "Cond_wait_returns 0"]) (auto simp: cond_wait_returns_def wait_for_start_def ETIMEDOUT_def)
next
  case (Timed_wait d)
  then show ?thesis
    using sched_step.timed [of c d 0] by (intro exI [of _ "Timedwait_returns 0"]) (auto simp: ETIMEDOUT_def)
qed (use assms in simp_all)



text \<open>
  Claim C9.  A new pattern given to a job whose thread already waits for a deadline does not move
  the deadline: the signal wakes the thread, the thread sees \<^verbatim>\<open>startSched\<close> still set and waits again
  for the old deadline, and the callback runs when that one expires.
\<close>

theorem restart_keeps_old_deadline:
  assumes "pc c = Timed_wait d" "\<not> terminated (job c)" "has_callback (job c)"
    "sched_step (engine_parse mem) next_run c (Start_job s) c1" "startSched (job c1)"
  shows "sched_step (engine_parse mem) next_run c1 (Timedwait_returns 0) c1 \<and>
    (clock c1 \<ge> d \<longrightarrow> (\<exists>c2. sched_step (engine_parse mem) next_run c1 (Timedwait_returns ETIMEDOUT) c2 \<and>
       pc c2 = In_callback))"
proof -
  obtain ret j where c1: "c1 = c\<lparr>job := j\<rparr>"
    and st: "dcmSchedStartJob (engine_parse mem) (Some (job c)) (Some s) = Some (ret, Some j)"
    using assms(4) by (auto elim: start_stepE)
  have pcs: "pc c1 = Timed_wait d" and j: "\<not> terminated (job c1)" "has_callback (job c1)"
    using assms(1-3) st c1 engine.start_returns [of mem "job c" s] by auto
  have same: "timedwait_returns d 0 c1 = Timed_wait d"
    using j assms(5) by (simp add: timedwait_returns_def ETIMEDOUT_def)
  have out: "timedwait_returns d ETIMEDOUT c1 = In_callback"
    using j by (simp add: timedwait_returns_def)
  have "c1\<lparr>pc := Timed_wait d, fired := fired c1\<rparr> = c1" using pcs by simp
  with sched_step.timed [of c1 d 0 "engine_parse mem" next_run] pcs same
  have "sched_step (engine_parse mem) next_run c1 (Timedwait_returns 0) c1"
    by (simp add: ETIMEDOUT_def)
  moreover have "\<exists>c2. sched_step (engine_parse mem) next_run c1 (Timedwait_returns ETIMEDOUT) c2 \<and> pc c2 = In_callback"
    if "d \<le> clock c1"
    using sched_step.timed [of c1 d ETIMEDOUT "engine_parse mem" next_run] pcs out that by force
  ultimately show ?thesis by blast
qed

theorem restart_keeps_old_deadline_witness:
  "\<exists>c1. sched_step (engine_parse (\<lambda>_. True)) (engine_next (\<lambda>_. True))
      \<lparr>job = (zero_job ''DCM_LOG_UPLOAD'' True)\<lparr>startSched := True\<rparr>, pc = Timed_wait 86400000000000, clock = 7, fired = []\<rparr>
      (Start_job ''10 1 * * *'') c1 \<and> pc c1 = Timed_wait 86400000000000 \<and>
    sched_step (engine_parse (\<lambda>_. True)) (engine_next (\<lambda>_. True)) c1 (Timedwait_returns 0) c1"
proof -
  let ?c = "\<lparr>job = (zero_job ''DCM_LOG_UPLOAD'' True)\<lparr>startSched := True\<rparr>, pc = Timed_wait 86400000000000, clock = 7, fired = []\<rparr>"
  have "map_option fst (dcmCronParseExp (\<lambda>_. True) (Some ''10 1 * * *'') (Some zero_cron_expr)) = Some 0"
    by code_simp
  then obtain e where "dcmCronParseExp (\<lambda>_. True) (Some ''10 1 * * *'') (Some zero_cron_expr) = Some (0, Some e)"
    using parse_keeps_target by fastforce
  then obtain j where j: "dcmSchedStartJob (engine_parse (\<lambda>_. True)) (Some (job ?c)) (Some ''10 1 * * *'') = Some (0, Some j)"
    "startSched j"
    by (auto simp: dcmSchedStartJob_def engine_parse_def zero_job_def)
  have step: "sched_step (engine_parse (\<lambda>_. True)) (engine_next (\<lambda>_. True)) ?c (Start_job ''10 1 * * *'') (?c\<lparr>job := j\<rparr>)"
    by (rule sched_step.start [OF _ j(1)]) simp
  have "sched_step (engine_parse (\<lambda>_. True)) (engine_next (\<lambda>_. True)) (?c\<lparr>job := j\<rparr>) (Timedwait_returns 0) (?c\<lparr>job := j\<rparr>)"
    using restart_keeps_old_deadline [OF _ _ _ step, of 86400000000000] j(2) by (simp add: zero_job_def)
  with step show ?thesis by auto
qed

text \<open>
  \<^verbatim>\<open>dcmSchedStopJob\<close> returns before the job is quiet: when the deadline has passed and the
  thread has not run yet, the wait returns \<^verbatim>\<open>ETIMEDOUT\<close> and the callback runs although
  \<^verbatim>\<open>startSched\<close> is cleared.
\<close>

lemma stopped_job_may_still_fire:
  assumes "pc c = Timed_wait d" "d \<le> clock c" "\<not> terminated (job c)" "has_callback (job c)"
  shows "\<exists>c1 c2. sched_step parse next_run c Stop_job c1 \<and> \<not> startSched (job c1) \<and>
    sched_step parse next_run c1 (Timedwait_returns ETIMEDOUT) c2 \<and> fired c2 = fired c @ [clock c]"
proof -
  let ?c1 = "c\<lparr>job := (job c)\<lparr>startSched := False\<rparr>\<rparr>"
  have 1: "sched_step parse next_run c Stop_job ?c1"
    by (rule sched_step.stop [where ret = 0]) (simp_all add: assms(1) dcmSchedStopJob_def)
  have t: "timedwait_returns d ETIMEDOUT ?c1 = In_callback"
    using assms(3,4) by (simp add: timedwait_returns_def)
  have "sched_step parse next_run ?c1 (Timedwait_returns ETIMEDOUT)
      (?c1\<lparr>pc := In_callback, fired := fired ?c1 @ [clock ?c1]\<rparr>)"
    using sched_step.timed [of ?c1 d ETIMEDOUT parse next_run] assms(1,2) t by simp
  with 1 show ?thesis by fastforce
qed

lemma stopped_job_example:
  "\<exists>c1 c2. sched_step (engine_parse (\<lambda>_. True)) (engine_next (\<lambda>_. True))
      \<lparr>job = (zero_job ''DCM_LOG_UPLOAD'' True)\<lparr>startSched := True\<rparr>, pc = Timed_wait 5, clock = 7, fired = []\<rparr> Stop_job c1 \<and>
    \<not> startSched (job c1) \<and>
    sched_step (engine_parse (\<lambda>_. True)) (engine_next (\<lambda>_. True)) c1 (Timedwait_returns ETIMEDOUT) c2 \<and> fired c2 = [7]"
  using stopped_job_may_still_fire [of "\<lparr>job = (zero_job ''DCM_LOG_UPLOAD'' True)\<lparr>startSched := True\<rparr>,
      pc = Timed_wait 5, clock = 7, fired = []\<rparr>" 5 "engine_parse (\<lambda>_. True)" "engine_next (\<lambda>_. True)"]
  by (simp add: zero_job_def)

text \<open>
  Claim C10.  \<^verbatim>\<open>dcmSchedAddJob\<close> gives back every resource it took when it fails, and on success holds exactly
  the memory, the mutex, the condition variable and the thread of a job that is neither started nor
  terminated.
\<close>

theorem add_job_releases_on_failure:
  "case dcmSchedAddJob name cb malloc_ok m c t of
     (None, held) \<Rightarrow> held = {}
   | (Some j, held) \<Rightarrow> held = {Handle_memory, Handle_mutex, Handle_cond, Handle_thread} \<and>
       \<not> startSched j \<and> \<not> terminated j \<and> Some (job_name j) = name"
  by (auto simp: dcmSchedAddJob_def zero_job_def Let_def split: option.splits)

end
