(* ===== verification/DcmDaemon.thy ===== *)
theory DcmDaemon
  imports DcmSettings DcmRbus SchedJobProps
begin

text \<open>
  The daemon (\<^verbatim>\<open>dcm.c\<close>): start and end, the callback of the two scheduled jobs, and the main loop,
  which waits for a configuration, processes it and starts the jobs.

  The loop is a step relation.  Its program counter names the points between which the callbacks
  of the bus library and of the scheduler may run: at the top of the loop, before the
  configuration is read, after it has been processed (with the result), and before the request is
  marked as done; before that it waits for the subscription to the events of the telemetry.  Forking into the background, the signal handlers' registration and the log are
  left out.
\<close>

subsection \<open>The handle\<close>

text \<open>The command buffer: a null pointer, allocated but not yet written, or the string written last.\<close>

datatype exec_buffer = Exec_null | Exec_raw | Exec_string cstring

record DCMDHandle =
  isDebugEnabled :: bool
  isDCMRunning :: bool
  pRbus :: "DCMRBusHandle option"
  pDcmSetHandle :: "DCMSettingsHandle option"
  pLogSchedHandle :: "dcmScheduler option"
  pDifdSchedHandle :: "dcmScheduler option"
  pExecBuff :: exec_buffer
  logCron :: cstring
  difdCron :: cstring

definition zero_daemon :: DCMDHandle where
  "zero_daemon = \<lparr>isDebugEnabled = False, isDCMRunning = False, pRbus = None, pDcmSetHandle = None,
     pLogSchedHandle = None, pDifdSchedHandle = None, pExecBuff = Exec_null, logCron = [], difdCron = []\<rparr>"

definition DCM_LOGUPLOAD_SCHED :: cstring where "DCM_LOGUPLOAD_SCHED = ''DCM_LOG_UPLOAD''"
definition DCM_DIFD_SCHED :: cstring where "DCM_DIFD_SCHED = ''DCM_FW_UPDATE''"

definition dcmSettingsGetRDKPath :: "DCMSettingsHandle option \<Rightarrow> cstring option" where
  "dcmSettingsGetRDKPath h = (case h of None \<Rightarrow> None | Some s \<Rightarrow> Some (cRdkPath s))"

definition dcmSettingsGetUploadProtocol :: "DCMSettingsHandle option \<Rightarrow> cstring option" where
  "dcmSettingsGetUploadProtocol h = (case h of None \<Rightarrow> None | Some s \<Rightarrow> Some (cUploadPrtl s))"

definition dcmSettingsGetUploadURL :: "DCMSettingsHandle option \<Rightarrow> cstring option" where
  "dcmSettingsGetUploadURL h = (case h of None \<Rightarrow> None | Some s \<Rightarrow> Some (cUploadURL s))"

subsection \<open>The jobs\<close>

definition get_or :: "cstring \<Rightarrow> cstring option \<Rightarrow> cstring" where
  "get_or dflt v = (case v of None \<Rightarrow> dflt | Some s \<Rightarrow> s)"

definition job_params :: "DCMDHandle \<Rightarrow> UploadSTBLogsParams" where
  "job_params h = \<lparr>p_flag = 0, p_dcm_flag = 1, p_upload_on_reboot = False,
     p_upload_protocol = Some (get_or ''HTTP'' (dcmSettingsGetUploadProtocol (pDcmSetHandle h))),
     p_upload_http_link = Some (get_or ''https://falbackurl'' (dcmSettingsGetUploadURL (pDcmSetHandle h))),
     p_trigger_type = TRIGGER_SCHEDULED, p_rrd_flag = False, p_rrd_file = None\<rparr>"

definition fw_command :: "DCMDHandle \<Rightarrow> cstring" where
  "fw_command h = take 1023 (''/bin/sh '' @ get_or ''/lib/rdk'' (dcmSettingsGetRDKPath (pDcmSetHandle h)) @
     ''/swupdate_utility.sh 0 2 >> /opt/logs/swupdate.log 2>&1'')"

text \<open>The buffer is executed at the end whichever job it is; executing a buffer that was never written
  is \<^const>\<open>None\<close>.\<close>

definition exec_buffered :: "'n dcm_externals \<Rightarrow> exec_buffer \<Rightarrow> 'n world \<Rightarrow> 'n world option" where
  "exec_buffered D b w =
     (case b of Exec_null \<Rightarrow> Some (snd (dcmUtilsSysCmdExec D None w))
      | Exec_raw \<Rightarrow> None
      | Exec_string c \<Rightarrow> Some (snd (dcmUtilsSysCmdExec D (Some c) w)))"

definition dcmRunJobs ::
  "'n externals \<Rightarrow> 'n dcm_externals \<Rightarrow> int \<Rightarrow> cstring \<Rightarrow> DCMDHandle option \<Rightarrow> 'n world \<Rightarrow>
     (DCMDHandle option \<times> 'n world) option" where
  "dcmRunJobs E D g_bMMEnable profileName pHandle w =
     (case pHandle of None \<Rightarrow> Some (None, w)
      | Some h \<Rightarrow>
          if g_bMMEnable \<noteq> 0 then Some (Some h, w)
          else case (if profileName = DCM_LOGUPLOAD_SCHED
                     then map_option (Pair h) (upload_then E (job_params h) w)
                     else if profileName = DCM_DIFD_SCHED
                     then (if pExecBuff h = Exec_null then None
                           else Some (h\<lparr>pExecBuff := Exec_string (fw_command h)\<rparr>, w))
                     else Some (h, w)) of
            None \<Rightarrow> None
          | Some (h1, w1) \<Rightarrow> map_option (Pair (Some h1)) (exec_buffered D (pExecBuff h1) w1))"

subsection \<open>Start and end\<close>

text \<open>The results of the allocation and of the thread functions for a job.\<close>

type_synonym thread_results = "bool \<times> int \<times> int \<times> int"

definition add_job :: "cstring \<Rightarrow> thread_results \<Rightarrow> dcmScheduler option" where
  "add_job name r = (case r of (m, mu, cv, cr) \<Rightarrow> fst (dcmSchedAddJob (Some name) True m mu cv cr))"

text \<open>The part after the bus has been subscribed to.\<close>

definition init_jobs ::
  "'n externals \<Rightarrow> thread_results \<Rightarrow> thread_results \<Rightarrow> DCMDHandle \<Rightarrow> 'n world \<Rightarrow> int \<times> DCMDHandle" where
  "init_jobs E r1 r2 h w =
     (if \<not> alloc_ok E (outer_of w) then (DCM_FAILURE, h)
      else let h1 = h\<lparr>pExecBuff := Exec_raw\<rparr> in
      if dcmSchedInit \<noteq> 0 then (dcmSchedInit, h1)
      else let h2 = h1\<lparr>pLogSchedHandle := add_job DCM_LOGUPLOAD_SCHED r1\<rparr> in
      if pLogSchedHandle h2 = None then (DCM_FAILURE, h2)
      else let h3 = h2\<lparr>pDifdSchedHandle := add_job DCM_DIFD_SCHED r2\<rparr> in
      if pDifdSchedHandle h3 = None then (DCM_FAILURE, h3) else (DCM_SUCCESS, h3))"

text \<open>The result, the handle, the flag of the maintenance manager and the world.\<close>

definition dcmDaemonMainInit ::
  "'n externals \<Rightarrow> 'n dcm_externals \<Rightarrow> thread_results \<Rightarrow> thread_results \<Rightarrow> DCMDHandle \<Rightarrow> 'n world \<Rightarrow>
     (int \<times> DCMDHandle \<times> int \<times> 'n world) option" where
  "dcmDaemonMainInit E D r1 r2 h w =
     (case dcmUtilsCheckDaemonStatus D w of None \<Rightarrow> None
      | Some (ret, w1) \<Rightarrow>
          if ret \<noteq> 0 then Some (ret, h\<lparr>isDCMRunning := True\<rparr>, 0, w1)
          else (case dcmSettingsInit E w1 of None \<Rightarrow> None
          | Some (ret2, s, mm) \<Rightarrow>
              if ret2 \<noteq> 0 then Some (ret2, h, mm, w1)
              else let h1 = h\<lparr>pDcmSetHandle := s\<rparr> in
              (case dcmRbusInit E D w1 of (ret3, r, w2) \<Rightarrow>
                 if ret3 \<noteq> DCM_SUCCESS then Some (ret3, h1, mm, w2)
                 else let h2 = h1\<lparr>pRbus := r\<rparr> in
                 (case dcmRbusGetT2Version D r (Some 32) w2 of None \<Rightarrow> None
                  | Some (vret, t2_ver) \<Rightarrow>
                      (case dcmRbusSubscribeEvents D r w2 of (ret4, w3) \<Rightarrow>
                         if ret4 \<noteq> DCM_SUCCESS then Some (ret4, h2, mm, w3)
                         else (case init_jobs E r1 r2 h2 w3 of (ret5, h3) \<Rightarrow> Some (ret5, h3, mm, w3)))))))"

text \<open>The jobs are stopped and removed last; removing a job waits for its thread, which then works on
  memory that has been freed.  The result is the zeroed handle, the jobs as their threads find them,
  and the world.\<close>

definition dcmDaemonMainUnInit ::
  "'n dcm_externals \<Rightarrow> DCMDHandle \<Rightarrow> 'n world \<Rightarrow> DCMDHandle \<times> dcmScheduler option list \<times> 'n world" where
  "dcmDaemonMainUnInit D h w =
     (let w1 = (if \<not> isDCMRunning h then dcmUtilsRemovePIDfile w else w);
          w2 = dcmRbusUnInit D (pRbus h) w1;
          end_job = (\<lambda>j. dcmSchedRemoveJob (snd (dcmSchedStopJob j))) in
      (zero_daemon, [end_job (pLogSchedHandle h), end_job (pDifdSchedHandle h)], w2))"

subsection \<open>The main loop\<close>

datatype main_pc = Waiting | Polling | Parsing | Parsed int | Resetting

record 'n dcm_conf =
  daemon :: DCMDHandle
  mm_flag :: int
  eventsub :: int
  main_pc :: main_pc
  dcm_world :: "'n world"

datatype dcm_event =
    Set_config cstring | Process_config | Subscribed int | Reload_subscription bool
  | Wait_subscription | Send_reload | Poll_idle | Poll_request | Parse_config | Start_jobs | Reset_request | Run_job cstring

text \<open>The start of \<^verbatim>\<open>main\<close> up to the loop that waits for the subscription: the exit status when the daemon
  cannot start, and otherwise the configuration the loop starts from.\<close>

definition main_start ::
  "'n externals \<Rightarrow> 'n dcm_externals \<Rightarrow> thread_results \<Rightarrow> thread_results \<Rightarrow> 'n world \<Rightarrow>
     (int \<times> 'n world + 'n dcm_conf) option" where
  "main_start E D r1 r2 w =
     (case dcmDaemonMainInit E D r1 r2 (zero_daemon\<lparr>isDebugEnabled := True\<rparr>) w of None \<Rightarrow> None
      | Some (ret, h, mm, w1) \<Rightarrow>
          if ret \<noteq> 0
          then Some (Inl (dcmIARMEvntSend DCM_IARM_ERROR, snd (snd (dcmDaemonMainUnInit D h w1))))
          else (case dcmSettingDefaultBoot E D w1 of None \<Rightarrow> None
                | Some (r, w2) \<Rightarrow>
                    Some (Inr \<lparr>daemon = h, mm_flag = mm, eventsub = 0, main_pc = Waiting, dcm_world = w2\<rparr>)))"

definition start_job :: "allocator \<Rightarrow> dcmScheduler option \<Rightarrow> cstring \<Rightarrow> dcmScheduler option option" where
  "start_job mem j pattern = map_option snd (dcmSchedStartJob (engine_parse mem) j (Some pattern))"

inductive dcm_step ::
  "'n externals \<Rightarrow> 'n dcm_externals \<Rightarrow> allocator \<Rightarrow> 'n dcm_conf \<Rightarrow> dcm_event \<Rightarrow> 'n dcm_conf \<Rightarrow> bool"
  for E :: "'n externals" and D :: "'n dcm_externals" and mem :: allocator where
  set_config: "dcm_step E D mem c (Set_config p)
    (c\<lparr>daemon := (daemon c)\<lparr>pRbus := rbusSetConf True True (pRbus (daemon c)) (Some p)\<rparr>\<rparr>)"
| process_config: "dcm_step E D mem c Process_config
    (c\<lparr>daemon := (daemon c)\<lparr>pRbus := rbusProcConf True True (pRbus (daemon c))\<rparr>\<rparr>)"
| subscribed: "dcm_step E D mem c (Subscribed err)
    (c\<lparr>daemon := (daemon c)\<lparr>pRbus := rbusAsyncSubCB True (pRbus (daemon c)) err\<rparr>\<rparr>)"
| reload_subscription: "dcm_step E D mem c (Reload_subscription b)
    (c\<lparr>eventsub := snd (rbusSendEventCB b (Some DCM_RBUS_RELOAD_EVENT) (eventsub c))\<rparr>)"
| wait_subscription: "main_pc c = Waiting \<Longrightarrow> dcmRbusGetEventSubStatus (pRbus (daemon c)) = 0 \<Longrightarrow>
    dcm_step E D mem c Wait_subscription (c\<lparr>dcm_world := sleep 1 (dcm_world c)\<rparr>)"
| send_reload: "main_pc c = Waiting \<Longrightarrow> dcmRbusGetEventSubStatus (pRbus (daemon c)) \<noteq> 0 \<Longrightarrow>
    dcm_step E D mem c Send_reload
      (c\<lparr>dcm_world := snd (dcmRbusSendEvent D (pRbus (daemon c)) (eventsub c) (dcm_world c)), main_pc := Polling\<rparr>)"
| poll_idle: "main_pc c = Polling \<Longrightarrow> dcmRbusSchedJobStatus (pRbus (daemon c)) = 0 \<Longrightarrow>
    dcm_step E D mem c Poll_idle (c\<lparr>dcm_world := sleep 1 (dcm_world c)\<rparr>)"
| poll_request: "main_pc c = Polling \<Longrightarrow> dcmRbusSchedJobStatus (pRbus (daemon c)) \<noteq> 0 \<Longrightarrow>
    dcm_step E D mem c Poll_request (c\<lparr>main_pc := Parsing\<rparr>)"
| no_config: "main_pc c = Parsing \<Longrightarrow> dcmRbusGetConfPath (pRbus (daemon c)) = None \<Longrightarrow>
    dcm_step E D mem c Parse_config (c\<lparr>dcm_world := sleep 1 (dcm_world c), main_pc := Polling\<rparr>)"
| parse_config: "main_pc c = Parsing \<Longrightarrow> dcmRbusGetConfPath (pRbus (daemon c)) = Some p \<Longrightarrow>
    dcmSettingParseConf E D (mm_flag c) (pDcmSetHandle (daemon c)) p (logCron (daemon c)) (difdCron (daemon c))
      (dcm_world c) = Some (ret, s, lc, dc, w) \<Longrightarrow>
    dcm_step E D mem c Parse_config
      (c\<lparr>daemon := (daemon c)\<lparr>pDcmSetHandle := s, logCron := lc, difdCron := dc\<rparr>,
         dcm_world := w, main_pc := Parsed ret\<rparr>)"
| start_jobs: "main_pc c = Parsed DCM_SUCCESS \<Longrightarrow>
    start_job mem (pLogSchedHandle (daemon c)) (logCron (daemon c)) = Some j1 \<Longrightarrow>
    start_job mem (pDifdSchedHandle (daemon c)) (difdCron (daemon c)) = Some j2 \<Longrightarrow>
    dcm_step E D mem c Start_jobs
      (c\<lparr>daemon := (daemon c)\<lparr>pLogSchedHandle := j1, pDifdSchedHandle := j2\<rparr>, main_pc := Resetting\<rparr>)"
| parse_failed: "main_pc c = Parsed ret \<Longrightarrow> ret \<noteq> DCM_SUCCESS \<Longrightarrow>
    dcm_step E D mem c Start_jobs (c\<lparr>main_pc := Resetting\<rparr>)"
| reset_request: "main_pc c = Resetting \<Longrightarrow>
    dcm_step E D mem c Reset_request
      (c\<lparr>daemon := (daemon c)\<lparr>pRbus := dcmRbusSchedResetStatus (pRbus (daemon c))\<rparr>,
         dcm_world := sleep 1 (dcm_world c), main_pc := Polling\<rparr>)"
| run_job: "dcmRunJobs E D (mm_flag c) profile (Some (daemon c)) (dcm_world c) = Some (Some h, w) \<Longrightarrow>
    dcm_step E D mem c (Run_job profile) (c\<lparr>daemon := h, dcm_world := w\<rparr>)"

inductive_cases start_jobs_stepE: "dcm_step E D mem c Start_jobs c'"
inductive_cases parse_config_stepE: "dcm_step E D mem c Parse_config c'"
inductive_cases run_job_stepE: "dcm_step E D mem c (Run_job profile) c'"

inductive dcm_run ::
  "'n externals \<Rightarrow> 'n dcm_externals \<Rightarrow> allocator \<Rightarrow> 'n dcm_conf \<Rightarrow> dcm_event list \<Rightarrow> 'n dcm_conf \<Rightarrow> bool"
  for E :: "'n externals" and D :: "'n dcm_externals" and mem :: allocator where
  dcm_nil: "dcm_run E D mem c [] c"
| dcm_snoc: "dcm_run E D mem c es c1 \<Longrightarrow> dcm_step E D mem c1 e c2 \<Longrightarrow> dcm_run E D mem c (es @ [e]) c2"

end
