(* ===== verification/DcmProps.thy ===== *)
theory DcmProps
  imports DcmDaemon
begin

text \<open>
  What holds of the daemon: the strings of its handles stay within their arrays, which requests
  are lost, what the jobs execute, and how the configuration reaches the schedules and the files
  other programs read.
\<close>

subsection \<open>The arrays of the handles\<close>

text \<open>The strings that the code cuts to their arrays itself: the path of the configuration, the line of JSON,
  and the command.\<close>

definition conf_path_fits :: "DCMRBusHandle option \<Rightarrow> bool" where
  "conf_path_fits r = (case r of None \<Rightarrow> True | Some h \<Rightarrow> length (confPath h) < 128)"

definition settings_fit :: "DCMSettingsHandle option \<Rightarrow> bool" where
  "settings_fit s = (case s of None \<Rightarrow> True | Some h \<Rightarrow> length (cJsonStr h) < 2048)"

definition exec_fits :: "exec_buffer \<Rightarrow> bool" where
  "exec_fits b = (case b of Exec_null \<Rightarrow> True | Exec_raw \<Rightarrow> True | Exec_string c \<Rightarrow> length c < 1024)"

definition daemon_fits :: "DCMDHandle \<Rightarrow> bool" where
  "daemon_fits h = (conf_path_fits (pRbus h) \<and> settings_fit (pDcmSetHandle h) \<and> exec_fits (pExecBuff h))"

lemma strcpy_fits: "strcpy n s = Some t \<Longrightarrow> t = s \<and> length s < n"
  by (simp add: strcpy_def split: if_splits)

lemma fgets_line_fits: "fgets_all n d = l # ls \<Longrightarrow> 2 \<le> n \<Longrightarrow> length l < n"
  using length_fgets [of l "n - 1" d "[]"] by (auto simp: fgets_all_def)

lemma cut_telemetry_fits: "cut_telemetry s = Some t \<Longrightarrow> length s < n \<Longrightarrow> length t < n"
  using strstr_Some [of s DCM_T2_JSONSTR] by (auto simp: cut_telemetry_def split: option.splits if_splits)

lemma json_init_fits:
  "dcmSettingJsonInit D h f w = Some (r, h', j) \<Longrightarrow> settings_fit (Some h) \<Longrightarrow> settings_fit (Some h')"
  by (auto simp: dcmSettingJsonInit_def settings_fit_def DCM_JSON_STRSIZE_def
      dest!: fgets_line_fits dest: cut_telemetry_fits split: option.splits list.splits)

lemma conf_values_json: "conf_values D h j = Some (h', u, lc, dc, r) \<Longrightarrow> cJsonStr h' = cJsonStr h"
  by (auto simp: conf_values_def split: option.splits)

lemma parse_conf_fits:
  assumes "dcmSettingParseConf E D mm s p lc dc w = Some (r, s', lc', dc', w')" "settings_fit s"
  shows "settings_fit s'"
proof (cases s)
  case None
  then show ?thesis using assms by (simp add: dcmSettingParseConf_def)
next
  case (Some h)
  then obtain r1 h1 j where i: "dcmSettingJsonInit D h (Some p) w = Some (r1, h1, j)"
    using assms(1) by (auto simp: dcmSettingParseConf_def split: option.splits)
  then have h1: "settings_fit (Some h1)" using assms(2) Some json_init_fits by blast
  show ?thesis
  proof (cases "r1 = 0")
    case False
    then show ?thesis using assms Some i h1 by (simp add: dcmSettingParseConf_def)
  next
    case True
    then obtain h2 u lc2 dc2 r2 where v: "conf_values D h1 j = Some (h2, u, lc2, dc2, r2)" "s' = Some h2"
      using assms(1) Some i by (auto simp: dcmSettingParseConf_def split: option.splits)
    then show ?thesis using conf_values_json [OF v(1)] h1 by (simp add: settings_fit_def)
  qed
qed

text \<open>The values that are copied without a bound, with the sizes of their arrays; the value of the flag for
  the upload on reboot goes, when it is a string, into a single character.\<close>

definition value_fits :: "'n dcm_externals \<Rightarrow> cjson \<Rightarrow> cstring \<Rightarrow> nat \<Rightarrow> bool" where
  "value_fits D j item n =
     (case cJSON_GetObjectItem D j item of Some (JString s) \<Rightarrow> length s < n | _ \<Rightarrow> True)"

definition conf_fits :: "'n dcm_externals \<Rightarrow> cjson \<Rightarrow> bool" where
  "conf_fits D j =
     (value_fits D j DCM_LOGUPLOAD_PROTOCOL 8 \<and> value_fits D j DCM_LOGUPLOAD_URL 128 \<and>
      value_fits D j DCM_TIMEZONE 16 \<and> value_fits D j DCM_LOGUPLOAD_REBOOT 1 \<and>
      value_fits D j DCM_LOGUPLOAD_CRON 16 \<and> value_fits D j DCM_DIFD_CRON 16)"

lemma get_val_result: "dcmSettingJsonGetVal D (Some j) item n old \<noteq> None \<longleftrightarrow> value_fits D j item n"
  by (auto simp: dcmSettingJsonGetVal_def value_fits_def strcpy_def split: option.split cjson.split)

lemma string_setting_result: "string_setting D (Some j) item n dflt \<noteq> None \<longleftrightarrow> value_fits D j item n"
  using get_val_result [of D j item n "([], 0, DCM_JSONITEM_NULL)"] by (auto simp: string_setting_def split: option.split)

lemma conf_values_result: "conf_values D h (Some j) \<noteq> None \<longleftrightarrow> conf_fits D j"
proof -
  have "conf_values D h (Some j) \<noteq> None \<longleftrightarrow>
      string_setting D (Some j) DCM_LOGUPLOAD_PROTOCOL 8 ''HTTP'' \<noteq> None \<and>
      string_setting D (Some j) DCM_LOGUPLOAD_URL 128 ''https://falbackurl'' \<noteq> None \<and>
      string_setting D (Some j) DCM_TIMEZONE 16 ''Local Time'' \<noteq> None \<and>
      dcmSettingJsonGetVal D (Some j) DCM_LOGUPLOAD_REBOOT 1 ([], 0, DCM_JSONITEM_NULL) \<noteq> None \<and>
      dcmSettingJsonGetVal D (Some j) DCM_LOGUPLOAD_CRON 16 ([], 0, DCM_JSONITEM_NULL) \<noteq> None \<and>
      dcmSettingJsonGetVal D (Some j) DCM_DIFD_CRON 16 ([], 0, DCM_JSONITEM_NULL) \<noteq> None"
    by (auto simp: conf_values_def split: option.split)
  then show ?thesis unfolding string_setting_result get_val_result conf_fits_def .
qed

lemma overflow_ends:
  assumes "dcmSettingJsonInit D h (Some p) w = Some (0, h1, Some j)" "\<not> conf_fits D j"
  shows "dcmSettingParseConf E D mm (Some h) p lc dc w = None"
proof -
  have "conf_values D h1 (Some j) = None" using assms(2) conf_values_result [of D h1 j] by blast
  then show ?thesis using assms(1) by (simp add: dcmSettingParseConf_def)
qed

lemma run_jobs_fits:
  assumes "dcmRunJobs E D mm n (Some h) w = Some (Some h', w')" "daemon_fits h"
  shows "daemon_fits h'"
  using assms
  by (auto simp: dcmRunJobs_def daemon_fits_def exec_fits_def fw_command_def split: option.splits if_splits)

lemma dcm_step_fits:
  assumes "dcm_step E D mem c e c'" "daemon_fits (daemon c)"
  shows "daemon_fits (daemon c')"
  using assms
proof (induction rule: dcm_step.induct)
  case (parse_config c p ret s lc dc w)
  then show ?case by (auto simp: daemon_fits_def dest: parse_conf_fits)
next
  case (run_job c profile h w)
  then show ?case by (auto dest: run_jobs_fits)
qed (auto simp: daemon_fits_def conf_path_fits_def rbusSetConf_def rbusProcConf_def rbusAsyncSubCB_def
      dcmRbusSchedResetStatus_def split: option.splits)

lemma dcm_run_fits:
  "dcm_run E D mem c es c' \<Longrightarrow> daemon_fits (daemon c) \<Longrightarrow> daemon_fits (daemon c')"
  by (induction rule: dcm_run.induct) (auto dest: dcm_step_fits)

lemma settings_init_fits: "dcmSettingsInit E w = Some (r, s, mm) \<Longrightarrow> settings_fit s"
  by (auto simp: dcmSettingsInit_def settings_fit_def zero_settings_def split: option.splits if_splits)

lemma init_jobs_fits: "init_jobs E r1 r2 h w = (r, h') \<Longrightarrow> daemon_fits h \<Longrightarrow> daemon_fits h'"
  by (auto simp: init_jobs_def Let_def daemon_fits_def exec_fits_def split: if_splits)

lemma daemon_init_fits:
  assumes "dcmDaemonMainInit E D r1 r2 h w = Some (r, h', mm, w')" "daemon_fits h"
  shows "daemon_fits h'"
  using assms
  by (auto simp: dcmDaemonMainInit_def Let_def daemon_fits_def conf_path_fits_def dcmRbusInit_def
      dest!: init_jobs_fits dest: settings_init_fits split: option.splits if_splits prod.splits)

subsection \<open>A concrete surrounding\<close>

text \<open>The library functions for the witnesses: every text is parsed to the same tree, whose members are
  looked up by their exact name, and every bus operation succeeds.\<close>

definition script_popen :: "cstring \<Rightarrow> script outer \<Rightarrow> cstring option \<times> script outer" where
  "script_popen cmd u = (Some [], u)"

definition script_getpid :: "script outer \<Rightarrow> int" where
  "script_getpid u = 7"

definition script_parse :: "cjson \<Rightarrow> cstring \<Rightarrow> cjson option" where
  "script_parse j s = Some j"

definition script_member :: "cjson \<Rightarrow> cstring \<Rightarrow> cjson option" where
  "script_member j n = (case j of JObject xs \<Rightarrow> map_of xs n | JArray xs \<Rightarrow> None | JNull \<Rightarrow> None
     | JBool b \<Rightarrow> None | JNumber i \<Rightarrow> None | JString s \<Rightarrow> None)"

definition script_status :: "script outer \<Rightarrow> int" where
  "script_status u = 0"

definition script_done :: "script outer \<Rightarrow> int \<times> script outer" where
  "script_done u = (0, u)"

definition script_version :: "script outer \<Rightarrow> int \<times> cstring option" where
  "script_version u = (0, Some ''2.0.1'')"

definition script_event :: "cstring \<Rightarrow> script outer \<Rightarrow> int \<times> script outer" where
  "script_event n u = (0, u)"

definition script_publish :: "cstring \<Rightarrow> cstring \<Rightarrow> script outer \<Rightarrow> int \<times> script outer" where
  "script_publish n v u = (0, u)"

definition sample_dcm :: "cjson \<Rightarrow> script dcm_externals" where
  "sample_dcm j = \<lparr>popen = script_popen, getpid = script_getpid, cJSON_Parse = script_parse j,
     cJSON_GetObjectItem = script_member, rbus_checkStatus = script_status,
     rbus_open_receiver = script_done, rbus_close = script_done, rbus_get_t2_version = script_version,
     rbusEvent_SubscribeAsync = script_event, rbusEvent_Unsubscribe = script_event,
     rbus_regDataElements = script_event, rbus_unregDataElements = script_event,
     rbusEvent_Publish = script_publish\<rparr>"

definition dirs :: "cstring list \<Rightarrow> (path \<times> node) list" where
  "dirs ps = map (\<lambda>p. (comps p, Dir 0)) ps"

definition daemon_world :: "(path \<times> node) list \<Rightarrow> script world" where
  "daemon_world ns = sample_world quiet_script (dirs [''/tmp'', ''/opt'', ''/etc''] @ ns)"

definition started :: "cjson \<Rightarrow> (int \<times> DCMDHandle \<times> int \<times> script world) option" where
  "started j = dcmDaemonMainInit script_externals (sample_dcm j) (True, 0, 0, 0) (True, 0, 0, 0) zero_daemon
     (daemon_world [])"

subsection \<open>The arrays\<close>

text \<open>
  Claim C24. In every state the daemon reaches, the strings that the code cuts itself, the path of the
  configuration, the line of JSON and the command, fit their arrays.  The values of a configuration, which
  are copied without a bound, are read without an overflow exactly when each of them fits its array, and
  otherwise processing the configuration overflows.
\<close>

theorem daemon_strings_fit:
  assumes "main_start E D r1 r2 w0 = Some (Inr c0)" "dcm_run E D mem c0 es c"
  shows "daemon_fits (daemon c) \<and>
    (\<forall>h h1 j p. pDcmSetHandle (daemon c) = Some h \<and> dcmSettingJsonInit D h (Some p) (dcm_world c) = Some (0, h1, Some j) \<longrightarrow>
       (conf_values D h1 (Some j) \<noteq> None \<longleftrightarrow> conf_fits D j) \<and>
       (\<not> conf_fits D j \<longrightarrow>
          dcmSettingParseConf E D (mm_flag c) (Some h) p (logCron (daemon c)) (difdCron (daemon c)) (dcm_world c) = None))"
proof -
  obtain h mm w where i: "dcmDaemonMainInit E D r1 r2 (zero_daemon\<lparr>isDebugEnabled := True\<rparr>) w0 = Some (DCM_SUCCESS, h, mm, w)"
    and c0: "daemon c0 = h"
    using assms(1) by (auto simp: main_start_def split: option.splits if_splits)
  have "daemon_fits (zero_daemon\<lparr>isDebugEnabled := True\<rparr>)"
    by (simp add: daemon_fits_def zero_daemon_def conf_path_fits_def settings_fit_def exec_fits_def)
  then have "daemon_fits h" using daemon_init_fits [OF i] by simp
  then have "daemon_fits (daemon c)" using dcm_run_fits [OF assms(2)] by (simp add: c0)
  then show ?thesis unfolding conf_values_result using overflow_ends by blast
qed

lemma started_ok: "case started j of None \<Rightarrow> False | Some (r, h, mm, w) \<Rightarrow> r = DCM_SUCCESS \<and> pExecBuff h = Exec_raw \<and> mm = 0"
  by code_simp

lemma started_handle:
  obtains h w where "started j = Some (DCM_SUCCESS, h, 0, w)" "pExecBuff h = Exec_raw"
  using started_ok [of j] by (auto split: option.splits)

lemma main_started:
  "case main_start script_externals (sample_dcm JNull) (True, 0, 0, 0) (True, 0, 0, 0) (daemon_world []) of
     None \<Rightarrow> False | Some (Inl x) \<Rightarrow> False | Some (Inr c) \<Rightarrow> main_pc c = Waiting"
  by code_simp

definition conf_file :: "(path \<times> node) list" where
  "conf_file = [(comps ''/tmp/conf.json'', Reg ''{}'' 0)]"

definition json_read :: "cjson \<Rightarrow> (int \<times> DCMSettingsHandle \<times> cjson option) option \<Rightarrow> bool" where
  "json_read j r = (case r of None \<Rightarrow> False | Some (ret, h, k) \<Rightarrow> ret = 0 \<and> k = Some j)"

definition long_url :: cjson where
  "long_url = JObject [(DCM_LOGUPLOAD_URL, JString (replicate 128 (CHR ''u'')))]"

definition init_read :: "(int \<times> script world + script dcm_conf) option \<Rightarrow> bool" where
  "init_read r =
     (case r of Some (Inr c) \<Rightarrow>
        (case pDcmSetHandle (daemon c) of None \<Rightarrow> False
         | Some h \<Rightarrow> json_read long_url (dcmSettingJsonInit (sample_dcm long_url) h (Some ''/tmp/conf.json'') (dcm_world c)))
      | _ \<Rightarrow> False)"

lemma long_url_started:
  "init_read (main_start script_externals (sample_dcm long_url) (True, 0, 0, 0) (True, 0, 0, 0) (daemon_world conf_file))"
  by code_simp

text \<open>The bus announces a file with a URL of 128 characters: its path fits, its URL does not.\<close>

theorem daemon_strings_fit_witness:
  "\<exists>c c1. main_start script_externals (sample_dcm long_url) (True, 0, 0, 0) (True, 0, 0, 0) (daemon_world conf_file) = Some (Inr c) \<and>
     dcm_run script_externals (sample_dcm long_url) (\<lambda>n. True) c [Set_config ''/tmp/conf.json''] c1 \<and>
     daemon_fits (daemon c1) \<and>
     (\<exists>h. dcmSettingParseConf script_externals (sample_dcm long_url) (mm_flag c1) (Some h) ''/tmp/conf.json'' (logCron (daemon c1))
        (difdCron (daemon c1)) (dcm_world c1) = None)"
proof -
  let ?D = "sample_dcm long_url"
  obtain c where s: "main_start script_externals ?D (True, 0, 0, 0) (True, 0, 0, 0) (daemon_world conf_file) = Some (Inr c)"
    and c: "init_read (Some (Inr c))"
    using long_url_started by (auto simp: init_read_def split: option.splits sum.splits)
  let ?c1 = "c\<lparr>daemon := (daemon c)\<lparr>pRbus := rbusSetConf True True (pRbus (daemon c)) (Some ''/tmp/conf.json'')\<rparr>\<rparr>"
  have run: "dcm_run script_externals ?D (\<lambda>n. True) c [Set_config ''/tmp/conf.json''] ?c1"
    using dcm_snoc [OF dcm_nil set_config] by simp
  obtain h h1 where h: "pDcmSetHandle (daemon c) = Some h"
    "dcmSettingJsonInit ?D h (Some ''/tmp/conf.json'') (dcm_world c) = Some (0, h1, Some long_url)"
    using c by (auto simp: init_read_def json_read_def split: option.splits)
  have "\<not> conf_fits ?D long_url"
    by (simp add: conf_fits_def value_fits_def sample_dcm_def script_member_def long_url_def)
  with daemon_strings_fit [OF s run] h have "daemon_fits (daemon ?c1)"
    "dcmSettingParseConf script_externals ?D (mm_flag ?c1) (Some h) ''/tmp/conf.json'' (logCron (daemon ?c1))
        (difdCron (daemon ?c1)) (dcm_world ?c1) = None"
    by auto
  with s run show ?thesis by blast
qed

subsection \<open>Requests\<close>

definition idle :: "'n dcm_conf \<Rightarrow> bool" where
  "idle c = (main_pc c = Polling \<and> dcmRbusSchedJobStatus (pRbus (daemon c)) = 0)"

lemma idle_step:
  assumes "dcm_step E D mem c e c'" "idle c" "e \<noteq> Process_config"
  shows "idle c' \<and> e \<noteq> Parse_config"
  using assms
  by (induction rule: dcm_step.induct)
    (auto simp: idle_def rbusSetConf_def rbusAsyncSubCB_def dcmRbusSchedJobStatus_def dcmRunJobs_def
      split: option.splits if_splits)

lemma idle_run:
  "dcm_run E D mem c es c' \<Longrightarrow> idle c \<Longrightarrow> Process_config \<notin> set es \<Longrightarrow> idle c' \<and> Parse_config \<notin> set es"
  by (induction rule: dcm_run.induct) (auto dest: idle_step)

text \<open>
  Claim C25. A configuration announced while the previous one is still being processed is lost: when the
  bus delivers its path and the request before the main thread has reset the request, the daemon
  goes back to waiting, and whatever happens then, no configuration is processed until another
  request arrives.
\<close>

theorem request_during_processing_is_lost:
  assumes "main_pc c = Resetting" "pRbus (daemon c) = Some r" "length p < 128"
  shows "\<exists>c1. dcm_run E D mem c [Set_config p, Process_config, Reset_request] c1 \<and>
    dcmRbusGetConfPath (pRbus (daemon c1)) = Some p \<and>
    (\<forall>es c2. dcm_run E D mem c1 es c2 \<longrightarrow> Process_config \<notin> set es \<longrightarrow> Parse_config \<notin> set es)"
proof -
  let ?r = "r\<lparr>confPath := p, schedJob := 1\<rparr>"
  let ?c = "c\<lparr>daemon := (daemon c)\<lparr>pRbus := Some ?r\<rparr>\<rparr>"
  let ?c1 = "?c\<lparr>daemon := (daemon ?c)\<lparr>pRbus := dcmRbusSchedResetStatus (pRbus (daemon ?c))\<rparr>,
         dcm_world := sleep 1 (dcm_world ?c), main_pc := Polling\<rparr>"
  have "dcm_run E D mem c [Set_config p] (c\<lparr>daemon := (daemon c)\<lparr>pRbus := Some (r\<lparr>confPath := p\<rparr>)\<rparr>\<rparr>)"
    using dcm_snoc [OF dcm_nil set_config, of E D mem c p] assms by (simp add: rbusSetConf_def)
  from dcm_snoc [OF this process_config]
  have "dcm_run E D mem c [Set_config p, Process_config] ?c"
    by (simp add: rbusProcConf_def)
  from dcm_snoc [OF this reset_request] assms(1)
  have run: "dcm_run E D mem c [Set_config p, Process_config, Reset_request] ?c1" by simp
  have "idle ?c1" by (simp add: idle_def dcmRbusSchedJobStatus_def dcmRbusSchedResetStatus_def)
  then have "\<forall>es c2. dcm_run E D mem ?c1 es c2 \<longrightarrow> Process_config \<notin> set es \<longrightarrow> Parse_config \<notin> set es"
    using idle_run by blast
  moreover have "dcmRbusGetConfPath (pRbus (daemon ?c1)) = Some p"
    by (simp add: dcmRbusGetConfPath_def dcmRbusSchedResetStatus_def)
  ultimately show ?thesis using run by blast
qed

definition resetting_conf :: "script dcm_conf" where
  "resetting_conf = \<lparr>daemon = zero_daemon\<lparr>pRbus := Some \<lparr>pRbusHandle = True, schedJob = 1, eventSub = 1, confPath = []\<rparr>\<rparr>,
     mm_flag = 0, eventsub = 1, main_pc = Resetting, dcm_world = daemon_world []\<rparr>"

theorem request_during_processing_is_lost_witness:
  "\<exists>c1. dcm_run script_externals (sample_dcm JNull) (\<lambda>n. True) resetting_conf
      [Set_config ''/tmp/b.json'', Process_config, Reset_request] c1 \<and>
    dcmRbusGetConfPath (pRbus (daemon c1)) = Some ''/tmp/b.json''"
  using request_during_processing_is_lost [of resetting_conf _ "''/tmp/b.json''" script_externals "sample_dcm JNull" "\<lambda>n. True"]
  by (auto simp: resetting_conf_def)

subsection \<open>The jobs\<close>

lemma run_log_job:
  assumes "dcmRunJobs E D 0 DCM_LOGUPLOAD_SCHED (Some h) w = Some (h', w')"
  shows "h' = Some h \<and> (\<exists>v. exec_buffered D (pExecBuff h) v = Some w')"
  using assms by (auto simp: dcmRunJobs_def split: option.splits)

lemma run_fw_job:
  assumes "dcmRunJobs E D 0 DCM_DIFD_SCHED (Some h) w = Some (Some h', w')"
  shows "h' = h\<lparr>pExecBuff := Exec_string (fw_command h)\<rparr>"
  using assms
  by (auto simp: dcmRunJobs_def DCM_LOGUPLOAD_SCHED_def DCM_DIFD_SCHED_def split: option.splits if_splits)

lemma exec_string_trace:
  "exec_buffered D (Exec_string s) v = Some w \<Longrightarrow> trace w = trace v @ [Shell s]"
  by (auto simp: exec_buffered_def dcmUtilsSysCmdExec_def dcmUtilsCopyCommandOutput_def
      split: prod.splits dest!: xcall_statics)

lemma init_exec_raw:
  assumes "dcmDaemonMainInit E D r1 r2 h0 w0 = Some (DCM_SUCCESS, h, mm, w)"
  shows "pExecBuff h = Exec_raw"
  using assms
  by (auto simp: dcmDaemonMainInit_def init_jobs_def Let_def
      split: option.splits prod.splits if_splits)

text \<open>
  Claim C26. A log upload job also executes the command buffer, which it has not written: after the
  start of the daemon that is memory without contents, and once a firmware update job has run, every
  later log upload job ends by starting the firmware update again.
\<close>

theorem log_job_executes_stale_buffer:
  assumes "dcmDaemonMainInit E D r1 r2 zero_daemon w0 = Some (DCM_SUCCESS, h, mm, w)"
  shows "dcmRunJobs E D 0 DCM_LOGUPLOAD_SCHED (Some h) v = None \<and>
    (dcmRunJobs E D 0 DCM_DIFD_SCHED (Some h) v1 = Some (Some h1, v2) \<longrightarrow>
     dcmRunJobs E D 0 DCM_LOGUPLOAD_SCHED (Some h1) v3 = Some (h2, v4) \<longrightarrow>
     (\<exists>t. trace v4 = t @ [Shell (fw_command h)]))"
proof -
  have raw: "pExecBuff h = Exec_raw" by (rule init_exec_raw [OF assms])
  then have "dcmRunJobs E D 0 DCM_LOGUPLOAD_SCHED (Some h) v = None"
    using run_log_job [of E D h v] by (cases "dcmRunJobs E D 0 DCM_LOGUPLOAD_SCHED (Some h) v")
      (auto simp: exec_buffered_def)
  moreover have "\<exists>t. trace v4 = t @ [Shell (fw_command h)]"
    if a: "dcmRunJobs E D 0 DCM_DIFD_SCHED (Some h) v1 = Some (Some h1, v2)"
      and b: "dcmRunJobs E D 0 DCM_LOGUPLOAD_SCHED (Some h1) v3 = Some (h2, v4)"
  proof -
    have "pExecBuff h1 = Exec_string (fw_command h)" using run_fw_job [OF a] by simp
    with run_log_job [OF b] show ?thesis by (auto dest: exec_string_trace)
  qed
  ultimately show ?thesis by blast
qed

text \<open>A world in which another process holds the lock of the upload tool.\<close>

definition locked_world :: "script world" where
  "locked_world = (daemon_world [])\<lparr>flocks := [(LOCK_FILE, 9)]\<rparr>"

lemma locked_upload: "upload_then script_externals p locked_world \<noteq> None"
  by (simp add: upload_then_def uploadstblogs_run_def acquire_lock_def locked_world_def Let_def
      LOCK_FILE_def split: option.splits)

theorem log_job_executes_stale_buffer_witness:
  "\<exists>h h1 v2 h2 v4. started JNull = Some (DCM_SUCCESS, h, 0, v2) \<and>
     dcmRunJobs script_externals (sample_dcm JNull) 0 DCM_LOGUPLOAD_SCHED (Some h1) locked_world = Some (h2, v4) \<and>
     (\<exists>t. trace v4 = t @ [Shell (fw_command h)])"
proof -
  obtain h w where s: "started JNull = Some (DCM_SUCCESS, h, 0, w)" and raw: "pExecBuff h = Exec_raw"
    by (rule started_handle)
  let ?h1 = "h\<lparr>pExecBuff := Exec_string (fw_command h)\<rparr>"
  have f: "\<exists>v2. dcmRunJobs script_externals (sample_dcm JNull) 0 DCM_DIFD_SCHED (Some h) locked_world = Some (Some ?h1, v2)"
    using raw by (simp add: dcmRunJobs_def DCM_LOGUPLOAD_SCHED_def DCM_DIFD_SCHED_def exec_buffered_def)
  obtain u where "upload_then script_externals (job_params ?h1) locked_world = Some u"
    using locked_upload by blast
  then have "\<exists>h2 v4. dcmRunJobs script_externals (sample_dcm JNull) 0 DCM_LOGUPLOAD_SCHED (Some ?h1) locked_world = Some (h2, v4)"
    by (simp add: dcmRunJobs_def exec_buffered_def)
  with f obtain v2 h2 v4 where
    "dcmRunJobs script_externals (sample_dcm JNull) 0 DCM_DIFD_SCHED (Some h) locked_world = Some (Some ?h1, v2)"
    "dcmRunJobs script_externals (sample_dcm JNull) 0 DCM_LOGUPLOAD_SCHED (Some ?h1) locked_world = Some (h2, v4)"
    by blast
  with log_job_executes_stale_buffer [OF s [unfolded started_def], of locked_world locked_world ?h1 v2 locked_world h2 v4] s
  show ?thesis by blast
qed

subsection \<open>The configuration\<close>

lemma conf_values_cron:
  assumes "conf_values D h (Some j) = Some (h', u, lc, dc, r)"
    "cJSON_GetObjectItem D j DCM_LOGUPLOAD_CRON = Some (JString pattern)"
  shows "lc = pattern \<and> length pattern < 16"
  using assms
  by (auto simp: conf_values_def dcmSettingJsonGetVal_def split: option.splits dest!: strcpy_fits)

lemma conf_values_no_fw:
  assumes "conf_values D h (Some j) = Some (h', u, lc, dc, r)" "cJSON_GetObjectItem D j DCM_DIFD_CRON = None"
  shows "r = DCM_FAILURE"
  using assms by (auto simp: conf_values_def dcmSettingJsonGetVal_def split: option.splits)

lemma parse_conf_values:
  assumes "dcmSettingParseConf E D mm (Some h) p lc0 dc0 w = Some (ret, s', lc, dc, w')"
    "dcmSettingJsonInit D h (Some p) w = Some (0, h1, Some j)"
  obtains h2 u where "conf_values D h1 (Some j) = Some (h2, u, lc, dc, ret)" "s' = Some h2"
  using assms by (auto simp: dcmSettingParseConf_def split: option.splits)

text \<open>
  Claim C27. A configuration without a firmware update schedule does not start the log upload schedule
  either, although its pattern has been read: the result of processing a configuration is the
  status of the last look-up.
\<close>

theorem firmware_schedule_required:
  assumes "main_pc c = Parsing" "pRbus (daemon c) = Some r" "pDcmSetHandle (daemon c) = Some h"
    and "dcmSettingJsonInit D h (Some (confPath r)) (dcm_world c) = Some (0, h1, Some j)"
    and "cJSON_GetObjectItem D j DCM_LOGUPLOAD_CRON = Some (JString pattern)"
    and "cJSON_GetObjectItem D j DCM_DIFD_CRON = None"
    and "dcm_step E D mem c Parse_config c1" "dcm_step E D mem c1 Start_jobs c2"
  shows "logCron (daemon c2) = pattern \<and> pLogSchedHandle (daemon c2) = pLogSchedHandle (daemon c) \<and>
    pDifdSchedHandle (daemon c2) = pDifdSchedHandle (daemon c) \<and> main_pc c2 = Resetting"
proof -
  from assms(7) obtain ret s lc dc w where
    p: "dcmSettingParseConf E D (mm_flag c) (Some h) (confPath r) (logCron (daemon c)) (difdCron (daemon c))
          (dcm_world c) = Some (ret, s, lc, dc, w)" and
    c1: "c1 = c\<lparr>daemon := (daemon c)\<lparr>pDcmSetHandle := s, logCron := lc, difdCron := dc\<rparr>,
         dcm_world := w, main_pc := Parsed ret\<rparr>"
    using assms(2,3) by (auto simp: dcmRbusGetConfPath_def elim!: parse_config_stepE)
  obtain h2 u where "conf_values D h1 (Some j) = Some (h2, u, lc, dc, ret)"
    using parse_conf_values [OF p assms(4)] by metis
  then have "lc = pattern" "ret = DCM_FAILURE"
    using conf_values_cron [OF _ assms(5)] conf_values_no_fw [OF _ assms(6)] by auto
  then show ?thesis using assms(8) by (auto simp: c1 elim!: start_jobs_stepE)
qed

text \<open>
  Claim C28. A schedule of sixteen characters or more for the log upload, such as
  \<^verbatim>\<open>0 2,14 1-15 * 1-5\<close>, overflows the array of the daemon when the configuration is processed.
\<close>

theorem long_pattern_overflows:
  assumes "dcmSettingJsonInit D h (Some p) w = Some (0, h1, Some j)"
    "cJSON_GetObjectItem D j DCM_LOGUPLOAD_CRON = Some (JString pattern)" "16 \<le> length pattern"
  shows "dcmSettingParseConf E D mm (Some h) p lc dc w = None"
proof (rule ccontr)
  assume "\<not> ?thesis"
  then obtain ret s' lc' dc' w' where
    q: "dcmSettingParseConf E D mm (Some h) p lc dc w = Some (ret, s', lc', dc', w')" by (metis not_None_eq prod_cases5)
  obtain h2 u where "conf_values D h1 (Some j) = Some (h2, u, lc', dc', ret)"
    using parse_conf_values [OF q assms(1)] by metis
  with conf_values_cron [OF this assms(2)] assms(3) show False by simp
qed

definition log_only_conf :: cjson where
  "log_only_conf = JObject [(DCM_LOGUPLOAD_REBOOT, JNumber 2), (DCM_LOGUPLOAD_CRON, JString ''5 3 * * *'')]"

definition parsing_conf :: "script dcm_conf" where
  "parsing_conf = \<lparr>daemon = zero_daemon\<lparr>pRbus := Some \<lparr>pRbusHandle = True, schedJob = 1, eventSub = 1,
       confPath = ''/tmp/conf.json''\<rparr>, pDcmSetHandle := Some zero_settings\<rparr>,
     mm_flag = 0, eventsub = 1, main_pc = Parsing, dcm_world = daemon_world conf_file\<rparr>"

definition fw_failed :: "(int \<times> DCMSettingsHandle option \<times> cstring \<times> cstring \<times> 'n world) option \<Rightarrow> bool" where
  "fw_failed r = (case r of None \<Rightarrow> False | Some (ret, s, lc, dc, w) \<Rightarrow> ret = -1)"

lemma log_only_processed:
  "fw_failed (dcmSettingParseConf script_externals (sample_dcm log_only_conf) 0 (Some zero_settings)
      ''/tmp/conf.json'' [] [] (daemon_world conf_file))"
  by code_simp

lemma conf_file_read:
  "json_read j (dcmSettingJsonInit (sample_dcm j) zero_settings (Some ''/tmp/conf.json'') (daemon_world conf_file))"
  by code_simp

lemma conf_file_parsed:
  obtains h1 where "dcmSettingJsonInit (sample_dcm j) zero_settings (Some ''/tmp/conf.json'') (daemon_world conf_file)
     = Some (0, h1, Some j)"
  using conf_file_read [of j] by (auto simp: json_read_def split: option.splits)

lemma log_only_members:
  "cJSON_GetObjectItem (sample_dcm log_only_conf) log_only_conf DCM_LOGUPLOAD_CRON = Some (JString ''5 3 * * *'')"
  "cJSON_GetObjectItem (sample_dcm log_only_conf) log_only_conf DCM_DIFD_CRON = None"
  by (simp_all add: sample_dcm_def script_member_def log_only_conf_def DCM_LOGUPLOAD_REBOOT_def
      DCM_LOGUPLOAD_CRON_def DCM_DIFD_CRON_def)

theorem firmware_schedule_required_witness:
  "\<exists>c1 c2. dcm_step script_externals (sample_dcm log_only_conf) (\<lambda>n. True) parsing_conf Parse_config c1 \<and>
     dcm_step script_externals (sample_dcm log_only_conf) (\<lambda>n. True) c1 Start_jobs c2 \<and>
     logCron (daemon c2) = ''5 3 * * *'' \<and> pLogSchedHandle (daemon c2) = None"
proof -
  let ?D = "sample_dcm log_only_conf"
  obtain ret s lc dc w where
    p: "dcmSettingParseConf script_externals ?D 0 (Some zero_settings) ''/tmp/conf.json'' [] []
      (daemon_world conf_file) = Some (ret, s, lc, dc, w)" and ret: "ret = -1"
    using log_only_processed by (auto simp: fw_failed_def split: option.splits)
  let ?c1 = "parsing_conf\<lparr>daemon := (daemon parsing_conf)\<lparr>pDcmSetHandle := s, logCron := lc, difdCron := dc\<rparr>,
         dcm_world := w, main_pc := Parsed ret\<rparr>"
  have f: "main_pc parsing_conf = Parsing" "mm_flag parsing_conf = 0" "logCron (daemon parsing_conf) = []"
    "difdCron (daemon parsing_conf) = []" "dcm_world parsing_conf = daemon_world conf_file"
    "pDcmSetHandle (daemon parsing_conf) = Some zero_settings"
    "pRbus (daemon parsing_conf) = Some \<lparr>pRbusHandle = True, schedJob = 1, eventSub = 1, confPath = ''/tmp/conf.json''\<rparr>"
    "pLogSchedHandle (daemon parsing_conf) = None"
    by (simp_all add: parsing_conf_def zero_daemon_def)
  have s1: "dcm_step script_externals ?D (\<lambda>n. True) parsing_conf Parse_config ?c1"
    by (rule parse_config [where p = "''/tmp/conf.json''"]) (use p in \<open>simp_all add: f dcmRbusGetConfPath_def\<close>)
  have s2: "dcm_step script_externals ?D (\<lambda>n. True) ?c1 Start_jobs (?c1\<lparr>main_pc := Resetting\<rparr>)"
    by (rule parse_failed [where ret = "-1"]) (simp_all add: ret)
  obtain h1 where j: "dcmSettingJsonInit ?D zero_settings (Some ''/tmp/conf.json'') (daemon_world conf_file)
     = Some (0, h1, Some log_only_conf)" by (rule conf_file_parsed)
  let ?c2 = "?c1\<lparr>main_pc := Resetting\<rparr>"
  have "logCron (daemon ?c2) = ''5 3 * * *'' \<and> pLogSchedHandle (daemon ?c2) = pLogSchedHandle (daemon parsing_conf)"
    using firmware_schedule_required [OF f(1,7,6) _ log_only_members s1 s2, of h1] j by (simp add: f)
  with s1 s2 f(8) show ?thesis by metis
qed

theorem long_pattern_overflows_witness:
  "dcmSettingParseConf script_externals
     (sample_dcm (JObject [(DCM_LOGUPLOAD_CRON, JString ''0 2,14 1-15 * 1-5'')])) 0 (Some zero_settings)
     ''/tmp/conf.json'' [] [] (daemon_world conf_file) = None"
proof -
  let ?j = "JObject [(DCM_LOGUPLOAD_CRON, JString ''0 2,14 1-15 * 1-5'')]"
  obtain h1 where j: "dcmSettingJsonInit (sample_dcm ?j) zero_settings (Some ''/tmp/conf.json'')
     (daemon_world conf_file) = Some (0, h1, Some ?j)" by (rule conf_file_parsed)
  show ?thesis
    by (rule long_pattern_overflows [OF j, of "''0 2,14 1-15 * 1-5''"])
      (simp_all add: sample_dcm_def script_member_def)
qed

end
