(* ===== verification/DcmSchedule.thy ===== *)
theory DcmSchedule
  imports DcmProps
begin

text \<open>
  The daemon, the cron parser, the search for the next run and the scheduler together: from a pattern in a
  configuration file to the deadline of the job's thread.
\<close>

lemma conf_values_fw:
  assumes "conf_values D h (Some j) = Some (h', u, lc, dc, r)" "cJSON_GetObjectItem D j DCM_DIFD_CRON = Some (JString p)"
  shows "r = DCM_SUCCESS"
  using assms by (auto simp: conf_values_def dcmSettingJsonGetVal_def split: option.splits)

lemma started_schedule:
  assumes "mem_ok mem" "schedule_ok s" "length (schedule_text s) < 256" "s_months s = [Star]"
    "s_mdays s = [Star] \<or> s_wdays s = [Star]" "start_job mem (Some job0) (schedule_text s) = Some j"
  obtains job' where "j = Some job'" "startSched job'" "terminated job' = terminated job0"
    "\<And>date. 0 \<le> date \<Longrightarrow> date \<le> 999999900000000 \<Longrightarrow>
       \<exists>T. engine_next mem (parseData job') date = Some T \<and> date < T \<and> due s T \<and> (\<forall>u. date < u \<and> u < T \<longrightarrow> \<not> due s u)"
proof -
  obtain e where e: "dcmCronParseExp mem (Some (schedule_text s)) (Some (parseData job0)) = Some (0, Some e)"
    using parse_schedule [OF assms(1-3)] by blast
  have j: "j = Some (job0\<lparr>parseData := e, startSched := True\<rparr>)"
    using assms(6) e by (simp add: start_job_def dcmSchedStartJob_def engine_parse_def)
  have "\<exists>T. engine_next mem e date = Some T \<and> date < T \<and> due s T \<and> (\<forall>u. date < u \<and> u < T \<longrightarrow> \<not> due s u)"
    if "0 \<le> date" "date \<le> 999999900000000" for date
    using schedule_next [OF assms(1-5) that, of "parseData job0"] e by (auto simp: engine_next_def)
  then show ?thesis using that [OF j] by simp
qed

text \<open>
  Claim C2. From the configuration to the deadline.  When the daemon processes a configuration whose firmware
  update pattern is a string, whose log upload pattern is the text of a schedule over minutes, hours and
  days (months \<open>*\<close>, at most one day field restricted), and starts its jobs, then the job of the log
  upload is started with this schedule, and its thread, when it waits for the start or comes to the
  top of its loop, waits exactly for the next instant at which the schedule is due.
\<close>

theorem configured_upload_waits_for_next_due:
  assumes "main_pc c = Parsing" "pRbus (daemon c) = Some r" "pDcmSetHandle (daemon c) = Some h"
    and "dcmSettingJsonInit D h (Some (confPath r)) (dcm_world c) = Some (0, h1, Some j)"
    and "cJSON_GetObjectItem D j DCM_LOGUPLOAD_CRON = Some (JString (schedule_text s))"
    and "cJSON_GetObjectItem D j DCM_DIFD_CRON = Some (JString fw)"
    and "mem_ok mem" "schedule_ok s" "s_months s = [Star]" "s_mdays s = [Star] \<or> s_wdays s = [Star]"
    and "pLogSchedHandle (daemon c) = Some job0" "\<not> terminated job0"
    and "dcm_step E D mem c Parse_config c1" "dcm_step E D mem c1 Start_jobs c2"
  shows "\<exists>job'. pLogSchedHandle (daemon c2) = Some job' \<and> startSched job' \<and>
    (\<forall>t f. 0 \<le> t \<and> t div 1000000000 \<le> 999999900000000 \<longrightarrow>
      (\<exists>T. thread_lock (engine_next mem) \<lparr>job = job', pc = Loop_top, clock = t, fired = f\<rparr> =
          Some (Timed_wait (T * 1000000000 + t mod 1000000000)) \<and>
        cond_wait_returns (engine_next mem) 0 \<lparr>job = job', pc = Cond_wait, clock = t, fired = f\<rparr> =
          Some (Timed_wait (T * 1000000000 + t mod 1000000000)) \<and>
        t div 1000000000 < T \<and> due s T \<and> (\<forall>u. t div 1000000000 < u \<and> u < T \<longrightarrow> \<not> due s u)))"
proof -
  obtain ret st lc dc w where
    p: "dcmSettingParseConf E D (mm_flag c) (Some h) (confPath r) (logCron (daemon c)) (difdCron (daemon c))
          (dcm_world c) = Some (ret, st, lc, dc, w)" and
    c1: "c1 = c\<lparr>daemon := (daemon c)\<lparr>pDcmSetHandle := st, logCron := lc, difdCron := dc\<rparr>,
         dcm_world := w, main_pc := Parsed ret\<rparr>"
    using assms(1-3,13) by (auto simp: dcmRbusGetConfPath_def elim!: parse_config_stepE)
  obtain h2 u where v: "conf_values D h1 (Some j) = Some (h2, u, lc, dc, ret)"
    using parse_conf_values [OF p assms(4)] by metis
  have lc: "lc = schedule_text s" "length (schedule_text s) < 256" using conf_values_cron [OF v assms(5)] by auto
  have ret: "ret = DCM_SUCCESS" by (rule conf_values_fw [OF v assms(6)])
  obtain j1 where s: "start_job mem (Some job0) (schedule_text s) = Some j1" "pLogSchedHandle (daemon c2) = j1"
    using assms(11,14) by (auto simp: c1 ret lc(1) elim!: start_jobs_stepE)
  obtain job' where job: "j1 = Some job'" "startSched job'" "terminated job' = terminated job0"
    and nxt: "\<And>date. 0 \<le> date \<Longrightarrow> date \<le> 999999900000000 \<Longrightarrow>
       \<exists>T. engine_next mem (parseData job') date = Some T \<and> date < T \<and> due s T \<and> (\<forall>u. date < u \<and> u < T \<longrightarrow> \<not> due s u)"
    using started_schedule [OF assms(7,8) lc(2) assms(9,10) s(1)] by metis
  have "\<exists>T. thread_lock (engine_next mem) \<lparr>job = job', pc = Loop_top, clock = t, fired = f\<rparr> =
        Some (Timed_wait (T * 1000000000 + t mod 1000000000)) \<and>
      cond_wait_returns (engine_next mem) 0 \<lparr>job = job', pc = Cond_wait, clock = t, fired = f\<rparr> =
        Some (Timed_wait (T * 1000000000 + t mod 1000000000)) \<and>
      t div 1000000000 < T \<and> due s T \<and> (\<forall>u. t div 1000000000 < u \<and> u < T \<longrightarrow> \<not> due s u)"
    if "0 \<le> t" "t div 1000000000 \<le> 999999900000000" for t f
  proof -
    have "0 \<le> t div 1000000000" using that(1) by simp
    with nxt that(2) obtain T where "engine_next mem (parseData job') (t div 1000000000) = Some T"
      "t div 1000000000 < T \<and> due s T \<and> (\<forall>u. t div 1000000000 < u \<and> u < T \<longrightarrow> \<not> due s u)" by blast
    then show ?thesis using job assms(12)
      by (intro exI [of _ T]) (simp add: thread_lock_def cond_wait_returns_def wait_for_start_def arm_timer_def Let_def)
  qed
  then show ?thesis using s(2) job(1,2) by blast
qed

definition both_conf :: cjson where
  "both_conf = JObject [(DCM_LOGUPLOAD_REBOOT, JNumber 2), (DCM_LOGUPLOAD_CRON, JString ''10 1-3 * * 1/2''),
     (DCM_DIFD_CRON, JString ''0 2 * * *'')]"

definition fw_read :: "(int \<times> DCMSettingsHandle option \<times> cstring \<times> cstring \<times> 'n world) option \<Rightarrow> bool" where
  "fw_read r = (case r of None \<Rightarrow> False | Some (ret, s, lc, dc, w) \<Rightarrow> ret = 0)"

lemma both_processed:
  "fw_read (dcmSettingParseConf script_externals (sample_dcm both_conf) 0 (Some zero_settings)
      ''/tmp/conf.json'' [] [] (daemon_world conf_file))"
  by code_simp

lemma both_members:
  "cJSON_GetObjectItem (sample_dcm both_conf) both_conf DCM_LOGUPLOAD_CRON = Some (JString ''10 1-3 * * 1/2'')"
  "cJSON_GetObjectItem (sample_dcm both_conf) both_conf DCM_DIFD_CRON = Some (JString ''0 2 * * *'')"
  by (simp_all add: sample_dcm_def script_member_def both_conf_def DCM_LOGUPLOAD_REBOOT_def
      DCM_LOGUPLOAD_CRON_def DCM_DIFD_CRON_def)

definition waiting_job :: "cstring \<Rightarrow> dcmScheduler" where
  "waiting_job name = zero_job name True"

definition jobs_conf :: "script dcm_conf" where
  "jobs_conf = parsing_conf\<lparr>daemon := (daemon parsing_conf)\<lparr>pLogSchedHandle := Some (waiting_job DCM_LOGUPLOAD_SCHED),
     pDifdSchedHandle := Some (waiting_job DCM_DIFD_SCHED)\<rparr>\<rparr>"

lemma start_job_starts: "\<exists>j. start_job mem (Some job0) p = Some j"
  using engine_parse_returns [of mem p "parseData job0"] by (auto simp: start_job_def dcmSchedStartJob_def)

theorem configured_upload_waits_for_next_due_witness:
  "\<exists>c1 c2 job' T. dcm_step script_externals (sample_dcm both_conf) (\<lambda>n. True) jobs_conf Parse_config c1 \<and>
     dcm_step script_externals (sample_dcm both_conf) (\<lambda>n. True) c1 Start_jobs c2 \<and>
     pLogSchedHandle (daemon c2) = Some job' \<and> due nightly_schedule T \<and> 1707999000 < T \<and>
     thread_lock (engine_next (\<lambda>n. True)) \<lparr>job = job', pc = Loop_top, clock = 1707999000000000000, fired = []\<rparr> =
       Some (Timed_wait (T * 1000000000))"
proof -
  let ?D = "sample_dcm both_conf"
  have text_eq: "schedule_text nightly_schedule = ''10 1-3 * * 1/2''"
    by (simp add: schedule_text_def nightly_schedule_def field_text_def nat_dec.simps)
  have sch: "schedule_ok nightly_schedule" "s_months nightly_schedule = [Star]" "s_mdays nightly_schedule = [Star]"
    by (simp_all add: schedule_ok_def items_ok_def nightly_schedule_def)
  obtain ret s lc dc w where
    p: "dcmSettingParseConf script_externals ?D 0 (Some zero_settings) ''/tmp/conf.json'' [] []
      (daemon_world conf_file) = Some (ret, s, lc, dc, w)" and ret: "ret = 0"
    using both_processed by (auto simp: fw_read_def split: option.splits)
  have f: "main_pc jobs_conf = Parsing" "mm_flag jobs_conf = 0" "logCron (daemon jobs_conf) = []"
    "difdCron (daemon jobs_conf) = []" "dcm_world jobs_conf = daemon_world conf_file"
    "pDcmSetHandle (daemon jobs_conf) = Some zero_settings"
    "pRbus (daemon jobs_conf) = Some \<lparr>pRbusHandle = True, schedJob = 1, eventSub = 1, confPath = ''/tmp/conf.json''\<rparr>"
    "pLogSchedHandle (daemon jobs_conf) = Some (waiting_job DCM_LOGUPLOAD_SCHED)"
    "pDifdSchedHandle (daemon jobs_conf) = Some (waiting_job DCM_DIFD_SCHED)"
    by (simp_all add: jobs_conf_def parsing_conf_def zero_daemon_def)
  let ?c1 = "jobs_conf\<lparr>daemon := (daemon jobs_conf)\<lparr>pDcmSetHandle := s, logCron := lc, difdCron := dc\<rparr>,
         dcm_world := w, main_pc := Parsed ret\<rparr>"
  have s1: "dcm_step script_externals ?D (\<lambda>n. True) jobs_conf Parse_config ?c1"
    by (rule dcm_step.parse_config [of jobs_conf "''/tmp/conf.json''"]) (simp_all add: f p dcmRbusGetConfPath_def)
  obtain j1 j2 where j: "start_job (\<lambda>n. True) (Some (waiting_job DCM_LOGUPLOAD_SCHED)) lc = Some j1"
    "start_job (\<lambda>n. True) (Some (waiting_job DCM_DIFD_SCHED)) dc = Some j2" using start_job_starts by metis
  let ?c2 = "?c1\<lparr>daemon := (daemon ?c1)\<lparr>pLogSchedHandle := j1, pDifdSchedHandle := j2\<rparr>, main_pc := Resetting\<rparr>"
  have s2: "dcm_step script_externals ?D (\<lambda>n. True) ?c1 Start_jobs ?c2"
    by (rule dcm_step.start_jobs) (simp_all add: ret j f)
  obtain h1 where i: "dcmSettingJsonInit ?D zero_settings (Some ''/tmp/conf.json'') (daemon_world conf_file)
     = Some (0, h1, Some both_conf)" by (rule conf_file_parsed)
  have i': "dcmSettingJsonInit ?D zero_settings (Some (confPath \<lparr>pRbusHandle = True, schedJob = 1, eventSub = 1,
      confPath = ''/tmp/conf.json''\<rparr>)) (dcm_world jobs_conf) = Some (0, h1, Some both_conf)" using i by (simp add: f)
  have m: "mem_ok (\<lambda>n. True)" "\<not> terminated (waiting_job DCM_LOGUPLOAD_SCHED)"
    by (simp_all add: mem_ok_def waiting_job_def zero_job_def)
  from configured_upload_waits_for_next_due [OF f(1,7,6) i' _ both_members(2) m(1) sch(1,2) _ f(8) m(2) s1 s2]
  obtain job' where job: "pLogSchedHandle (daemon ?c2) = Some job'" and
    n: "\<And>t fl. 0 \<le> t \<and> t div 1000000000 \<le> 999999900000000 \<Longrightarrow>
      \<exists>T. thread_lock (engine_next (\<lambda>n. True)) \<lparr>job = job', pc = Loop_top, clock = t, fired = fl\<rparr> =
          Some (Timed_wait (T * 1000000000 + t mod 1000000000)) \<and>
        t div 1000000000 < T \<and> due nightly_schedule T"
    unfolding text_eq using both_members(1) sch(3) by blast
  from n [of 1707999000000000000 "[]"] job s1 s2 show ?thesis by fastforce
qed

end
