(* ===== verification/FileSysProps.thy ===== *)
theory FileSysProps
  imports FileSys
begin

text \<open>
  What writing a file does to later calls: the file is read back, other files keep their contents,
  every path still resolves to the same node, and what could be written can be written again.
\<close>

lemma follow_final: "follow k f q = Some p \<Longrightarrow> lookup f p \<noteq> Some (Lnk t m)"
  by (induction k f q rule: follow.induct) (auto split: option.splits node.splits if_splits)

lemma follow_put:
  "(\<And>t m. lookup f p \<noteq> Some (Lnk t m)) \<Longrightarrow> follow k (put f p (Reg d t)) a = follow k f a"
proof (induction k f a rule: follow.induct)
  case (2 k f a)
  show ?case
  proof (cases "\<exists>r m. lookup f a = Some (Lnk r m)")
    case True
    then obtain r m where l: "lookup f a = Some (Lnk r m)" by blast
    then have "a \<noteq> p" using "2.prems" by auto
    with l show ?thesis using 2 by simp
  next
    case False
    then show ?thesis by (auto split: option.splits node.splits)
  qed
qed simp

text \<open>The conditions under which a node can be written.\<close>

definition writable :: "fsys \<Rightarrow> path \<Rightarrow> bool" where
  "writable f p = (p \<noteq> [] \<and> \<not> List.member (denied f) p \<and> is_dir_at f (butlast p) \<and> \<not> is_dir_at f p)"

lemma os_write_at_eq: "os_write_at f p d t = (if writable f p then Some (put f p (Reg d t)) else None)"
  by (auto simp: os_write_at_def writable_def)

lemma os_write_Some:
  "os_write f s d t = Some g \<longleftrightarrow> (\<exists>p. resolve f s = Some p \<and> writable f p \<and> g = put f p (Reg d t))"
  by (auto simp: os_write_def os_write_at_eq split: option.splits)

lemma is_dir_at_put_reg: "is_dir_at (put f p (Reg d t)) q = (q = [] \<or> (q \<noteq> p \<and> is_dir_at f q))"
  by (simp add: is_dir_at_def is_dir_def)

lemma writable_put: "writable f p \<Longrightarrow> writable f q \<Longrightarrow> writable (put f q (Reg d t)) p"
  by (auto simp: writable_def is_dir_at_put_reg)

lemma resolve_put: "resolve f s = Some p \<Longrightarrow> resolve (put f p (Reg d t)) r = resolve f r"
  using follow_put [of f p 41 d t "comps r"] follow_final [of 41 f "comps s" p] by (auto simp: resolve_def)

lemma os_read_put: "resolve f s = Some p \<Longrightarrow> writable f p \<Longrightarrow> os_read (put f p (Reg d t)) s = Some d"
  by (auto simp: os_read_def writable_def resolve_put)

lemma os_read_put_other:
  "resolve f s = Some p \<Longrightarrow> resolve f r \<noteq> Some p \<Longrightarrow> os_read (put f p (Reg d t)) r = os_read f r"
  by (auto simp: os_read_def resolve_put split: option.splits)

lemma os_read_after_write: "os_write f s d t = Some g \<Longrightarrow> os_read g s = Some d"
  by (auto simp: os_write_Some os_read_put)

end
