(* ===== verification/ConfFileProps.thy ===== *)
theory ConfFileProps
  imports DcmProps FileSysProps
begin

text \<open>
  The configuration on its way between two programs: the daemon writes it to
  \<^verbatim>\<open>/tmp/DCMSettings.conf\<close> (\<^verbatim>\<open>dcm_parseconf.c\<close>), and the upload tool looks up a flag in that file
  (\<^verbatim>\<open>strategies.c\<close>).
\<close>

subsection \<open>The written file\<close>

lemma write_over_put:
  "resolve (fs w) p = Some q \<Longrightarrow> writable (fs w) q \<Longrightarrow>
    write_over p txt w = w\<lparr>fs := put (fs w) q (Reg txt (outer.clock w))\<rparr>"
  by (simp add: write_over_def os_write_def os_write_at_eq)

lemma store_writes:
  assumes "dcmSettingStoreTempConf E D conf tmp pers w = Some (DCM_SUCCESS, w')"
    and "resolve (fs w) tmp \<noteq> resolve (fs w) pers" "resolve (fs w) conf \<noteq> resolve (fs w) tmp"
    and "resolve (fs w) conf \<noteq> resolve (fs w) pers"
  obtains d j t opt where "os_read (fs w) conf = Some d" "cJSON_Parse D d = Some j" "conf_text j = Some (t, opt)"
    "os_read (fs w') tmp = Some t" "os_read (fs w') pers = Some opt"
proof -
  from assms(1) obtain f1 f2 d j t opt where
    f1: "os_write (fs w) tmp [] (outer.clock w) = Some f1" and f2: "os_write f1 pers [] (outer.clock w) = Some f2" and
    j: "os_read f2 conf = Some d" "cJSON_Parse D d = Some j" "conf_text j = Some (t, opt)" and
    w': "w' = write_over pers opt (write_over tmp t (w\<lparr>fs := f2\<rparr>))"
    by (auto simp: dcmSettingStoreTempConf_def Let_def split: option.splits if_splits)
  obtain p where p: "resolve (fs w) tmp = Some p" "writable (fs w) p" and f1e: "f1 = put (fs w) p (Reg [] (outer.clock w))"
    using f1 by (auto simp: os_write_Some)
  obtain q where q: "resolve f1 pers = Some q" "writable f1 q" and f2e: "f2 = put f1 q (Reg [] (outer.clock w))"
    using f2 by (auto simp: os_write_Some)
  have qp: "resolve (fs w) pers = Some q" "q \<noteq> p"
    using q(1) assms(2) p(1) resolve_put [OF p(1)] by (auto simp: f1e)
  have "os_read f2 conf = os_read f1 conf"
    unfolding f2e using q(1) qp(1) assms(4) resolve_put [OF p(1)] by (intro os_read_put_other) (auto simp: f1e)
  also have "\<dots> = os_read (fs w) conf"
    unfolding f1e using p(1) assms(3) by (intro os_read_put_other) auto
  finally have d: "os_read (fs w) conf = Some d" using j(1) by simp
  have r2: "resolve f2 r = resolve (fs w) r" for r
    using resolve_put [OF q(1)] resolve_put [OF p(1)] by (simp add: f1e f2e)
  have wr2: "writable f2 p" "writable f2 q"
    using p(2) q(2) by (simp_all add: f1e f2e writable_put)
  let ?f3 = "put f2 p (Reg t (outer.clock w))"
  have r3: "resolve ?f3 r = resolve (fs w) r" for r
    using resolve_put [of f2 tmp p] r2 p(1) by simp
  have w4: "fs w' = put ?f3 q (Reg opt (outer.clock w))"
    using r2 r3 wr2 p(1) qp(1) by (simp add: w' write_over_put writable_put)
  have "os_read (fs w') tmp = Some t"
    using os_read_put_other [of ?f3 pers q tmp] os_read_put [of f2 tmp p] r2 r3 wr2 p(1) qp
    by (simp add: w4)
  moreover have "os_read (fs w') pers = Some opt"
    using os_read_put [of ?f3 pers q] r3 wr2 qp(1) by (simp add: w4 writable_put)
  ultimately show thesis using that d j(2,3) by blast
qed

subsection \<open>The upload flag\<close>

definition upload_key :: cstring where
  "upload_key = ''urn:settings:LogUploadSettings:upload''"

text \<open>A member that is written as one line short enough for the reader's buffer, without the key in it.\<close>

definition plain_member :: "cstring \<times> cjson \<Rightarrow> bool" where
  "plain_member x =
     (\<exists>line. json_item_text (fst x) (snd x) = Some (line @ [CHR 0x0A], []) \<and> CHR 0x0A \<notin> set line \<and>
       length line < 511 \<and> strstr (line @ [CHR 0x0A]) upload_key = None)"

lemma plain_members_text:
  assumes "list_all plain_member pre" "items_text (pre @ xs) = Some (t, opt)"
  shows "\<exists>rest opt'. items_text xs = Some (rest, opt') \<and>
    upload_flag_loop (fgets_all 512 t) = upload_flag_loop (fgets_all 512 rest)"
  using assms
proof (induction pre arbitrary: t opt)
  case (Cons x pre)
  obtain n v where x: "x = (n, v)" by (cases x)
  from Cons.prems(1) obtain line where
    l: "json_item_text n v = Some (line @ [CHR 0x0A], [])" "CHR 0x0A \<notin> set line" "length line < 511"
      "strstr (line @ [CHR 0x0A]) upload_key = None"
    by (auto simp: x plain_member_def)
  from Cons.prems(2) l(1) obtain t' opt' where
    t: "items_text (pre @ xs) = Some (t', opt')" "t = line @ CHR 0x0A # t'"
    by (auto simp: x split: option.splits)
  have "upload_flag_loop (fgets_all 512 t) = upload_flag_loop (fgets_all 512 t')"
    using l fgets_line [OF l(2), of "[]" 511 t'] by (simp add: t(2) fgets_all_def upload_key_def)
  with Cons.IH [OF _ t(1)] Cons.prems(1) show ?case by simp
qed auto

lemma upload_line_true: "upload_flag_loop ((upload_key @ ''=true'' @ [CHR 0x0A]) # ls) = True"
  by code_simp

lemma upload_line_false: "upload_flag_loop ((upload_key @ ''=false'' @ [CHR 0x0A]) # ls) = False"
  by code_simp

lemma upload_line:
  "upload_flag_loop ((upload_key @ ''='' @ (if b then ''true'' else ''false'') @ [CHR 0x0A]) # ls) = b"
  using upload_line_true [of ls] upload_line_false [of ls] by (cases b) simp_all

lemma upload_flag_text:
  assumes "items_text ((upload_key, JBool b) # post) = Some (t, opt)"
  shows "upload_flag_loop (fgets_all 512 t) = b"
proof -
  let ?line = "upload_key @ ''='' @ (if b then ''true'' else ''false'')"
  from assms obtain t' opt' where t: "t = ?line @ CHR 0x0A # t'"
    by (auto simp: json_item_text_def split: option.splits)
  have "CHR 0x0A \<notin> set ?line" "length ?line < 511"
    by (simp_all add: upload_key_def)
  then have "fgets_all 512 t = (?line @ [CHR 0x0A]) # fgets_acc 511 t' []"
    using fgets_line [of ?line "[]" 511 t'] by (simp add: t fgets_all_def)
  then show ?thesis using upload_line [of b] by simp
qed

text \<open>
  Claim C29. The flag \<^verbatim>\<open>urn:settings:LogUploadSettings:upload\<close> of a configuration reaches the upload tool:
  after the daemon has stored a configuration file whose text is an object with this flag, the tool
  reads the value of the flag from the stored file, when each member before the flag is written as a
  single line without the flag's name that fits the tool's buffer, and the configuration file and the two
  stored files are different files.
\<close>

theorem upload_flag_reaches_the_tool:
  assumes "dcmSettingStoreTempConf E D conf DCM_TMP_CONF DCM_OPT_CONF w = Some (DCM_SUCCESS, w')"
    and "resolve (fs w) DCM_TMP_CONF \<noteq> resolve (fs w) DCM_OPT_CONF" "resolve (fs w) conf \<noteq> resolve (fs w) DCM_TMP_CONF"
    and "resolve (fs w) conf \<noteq> resolve (fs w) DCM_OPT_CONF"
    and "os_read (fs w) conf = Some d" "cJSON_Parse D d = Some (JObject (pre @ (upload_key, JBool b) # post))"
    and "list_all plain_member pre"
  shows "read_dcm_upload_flag w' = b"
proof -
  obtain t opt where "conf_text (JObject (pre @ (upload_key, JBool b) # post)) = Some (t, opt)" "os_read (fs w') DCM_TMP_CONF = Some t"
    using store_writes [OF assms(1-4)] assms(5,6) by (metis option.inject)
  then have t: "items_text (pre @ (upload_key, JBool b) # post) = Some (t, opt)"
    "os_read (fs w') ''/tmp/DCMSettings.conf'' = Some t"
    by (auto simp: conf_text_def DCM_TMP_CONF_def)
  obtain rest opt' where "items_text ((upload_key, JBool b) # post) = Some (rest, opt')"
    "upload_flag_loop (fgets_all 512 t) = upload_flag_loop (fgets_all 512 rest)"
    using plain_members_text [OF assms(7) t(1)] by auto
  then show ?thesis using upload_flag_text [of b post] t(2) by (simp add: read_dcm_upload_flag_def)
qed

text \<open>A configuration file, and a library that parses its text.\<close>

definition flag_conf :: cjson where
  "flag_conf = JObject [(''urn:settings:TimeZoneMode'', JString ''UTC''), (upload_key, JBool False)]"

definition flag_text :: cstring where
  "flag_text = ''{'' @ quoted ''urn:settings:TimeZoneMode'' @ '':'' @ quoted ''UTC'' @ '','' @ quoted upload_key @ '':false}''"

definition flag_world :: "script world" where
  "flag_world = daemon_world [(comps ''/tmp/conf.json'', Reg flag_text 0)]"

definition flag_dcm :: "script dcm_externals" where
  "flag_dcm = (sample_dcm flag_conf)\<lparr>cJSON_Parse := (\<lambda>d. if d = flag_text then Some flag_conf else None)\<rparr>"

lemma flag_stored:
  "case dcmSettingStoreTempConf script_externals flag_dcm ''/tmp/conf.json'' DCM_TMP_CONF DCM_OPT_CONF
     flag_world of None \<Rightarrow> False | Some (r, w) \<Rightarrow> r = 0"
  by code_simp

lemma flag_paths:
  "resolve (fs flag_world) DCM_TMP_CONF \<noteq> resolve (fs flag_world) DCM_OPT_CONF"
  "resolve (fs flag_world) ''/tmp/conf.json'' \<noteq> resolve (fs flag_world) DCM_TMP_CONF"
  "resolve (fs flag_world) ''/tmp/conf.json'' \<noteq> resolve (fs flag_world) DCM_OPT_CONF"
  "os_read (fs flag_world) ''/tmp/conf.json'' = Some flag_text"
  by code_simp+

theorem upload_flag_reaches_the_tool_witness:
  "\<exists>w'. dcmSettingStoreTempConf script_externals flag_dcm ''/tmp/conf.json'' DCM_TMP_CONF DCM_OPT_CONF
     flag_world = Some (DCM_SUCCESS, w') \<and> \<not> read_dcm_upload_flag w'"
proof -
  obtain w' where s: "dcmSettingStoreTempConf script_externals flag_dcm ''/tmp/conf.json''
      DCM_TMP_CONF DCM_OPT_CONF flag_world = Some (DCM_SUCCESS, w')"
    using flag_stored by (auto split: option.splits)
  have p: "list_all plain_member [(''urn:settings:TimeZoneMode'', JString ''UTC'')]"
    by (auto simp: plain_member_def json_item_text_def upload_key_def intro!: exI [of _ "''urn:settings:TimeZoneMode=UTC''"])
  have j: "cJSON_Parse flag_dcm flag_text = Some (JObject ([(''urn:settings:TimeZoneMode'', JString ''UTC'')] @ (upload_key, JBool False) # []))"
    by (simp add: flag_dcm_def flag_conf_def)
  have "read_dcm_upload_flag w' = False"
    by (rule upload_flag_reaches_the_tool [OF s flag_paths j p])
  with s show ?thesis by simp
qed

end
