(* ===== verification/BackupLogs.thy ===== *)
theory BackupLogs
  imports CleanupHandler Environment
begin

text \<open>
  The backup of the logs at boot (\<^verbatim>\<open>backup_logs/src\<close>): the configuration, the special files, the
  two strategies, which move the logs of the last boot into the directory of previous logs, and
  the program that runs them.

  The log is left out, and with it \<^verbatim>\<open>special_files_init\<close> and \<^verbatim>\<open>special_files_cleanup\<close>, which only write
  to it.  A loop over \<^verbatim>\<open>readdir\<close> runs over the names in the directory when it is opened.  The
  notification of systemd is a parameter; the functions are only called with non-null pointers,
  except for the configuration of \<open>special_files_execute_entry\<close>.
\<close>

subsection \<open>Data\<close>

definition PATH_MAX :: nat where "PATH_MAX = 4096"
definition MAX_SPECIAL_FILES :: nat where "MAX_SPECIAL_FILES = 32"
definition MAX_CONDITIONAL_LEN :: nat where "MAX_CONDITIONAL_LEN = 64"

datatype backup_operation_type_t = BACKUP_OP_MOVE | BACKUP_OP_COPY | BACKUP_OP_DELETE

datatype special_file_operation_t = SPECIAL_FILE_COPY | SPECIAL_FILE_MOVE

text \<open>\<^verbatim>\<open>backup_config_t\<close>; the fields have a prefix to keep them apart from those of the upload tool.\<close>

record backup_config_t =
  bk_log_path :: cstring
  bk_prev_log_path :: cstring
  bk_prev_log_backup_path :: cstring
  bk_persistent_path :: cstring
  bk_hdd_enabled :: bool

record special_file_entry_t =
  source_path :: cstring
  destination_path :: cstring
  operation :: special_file_operation_t
  conditional_check :: cstring

record special_files_config_t =
  entries :: "special_file_entry_t list"
  config_loaded :: bool

text \<open>\<^verbatim>\<open>backup_result_t\<close>.\<close>

definition BACKUP_SUCCESS :: int where "BACKUP_SUCCESS = 0"
definition BACKUP_ERROR_CONFIG :: int where "BACKUP_ERROR_CONFIG = -1"
definition BACKUP_ERROR_FILESYSTEM :: int where "BACKUP_ERROR_FILESYSTEM = -2"
definition BACKUP_ERROR_INVALID_PARAM :: int where "BACKUP_ERROR_INVALID_PARAM = -5"
definition BACKUP_ERROR_SYSTEM :: int where "BACKUP_ERROR_SYSTEM = -8"

definition BACKUP_LOGS_DONE_FLAG :: cstring where "BACKUP_LOGS_DONE_FLAG = ''/tmp/.backup_logs_done''"

type_synonym 'n notifier = "cstring \<Rightarrow> 'n outer \<Rightarrow> int \<times> 'n outer"

text \<open>Opening a file for appending, or with \<^verbatim>\<open>O_CREAT\<close>, and closing it: an existing file keeps its
  contents and its time.\<close>

definition touch :: "cstring \<Rightarrow> 'n world \<Rightarrow> 'n world" where
  "touch p w =
     (if os_stat (fs w) p \<noteq> None then w
      else case os_write (fs w) p [] (clock w) of None \<Rightarrow> w | Some g \<Rightarrow> w\<lparr>fs := g\<rparr>)"

text \<open>\<^verbatim>\<open>remove\<close> of the C library.\<close>

definition remove_path :: "cstring \<Rightarrow> 'n world \<Rightarrow> bool \<times> 'n world" where
  "remove_path p w = on_fs (\<lambda>f. os_remove f p) w"

subsection \<open>Configuration\<close>

definition property_or :: "cstring \<Rightarrow> cstring option \<Rightarrow> cstring" where
  "property_or dflt v = (case v of None \<Rightarrow> dflt | Some s \<Rightarrow> if s = [] then dflt else s)"

text \<open>The structure is zero before; on an error the later fields keep that value.\<close>

definition config_load :: "'n externals \<Rightarrow> 'n world \<Rightarrow> int \<times> backup_config_t" where
  "config_load E w =
     (let log = take (PATH_MAX - 1) (property_or ''/opt/logs'' (getIncludePropertyData E (outer_of w) ''LOG_PATH'' 32));
          prev = slashed log ''PreviousLogs'';
          backup = slashed log ''PreviousLogs_backup'';
          c0 = \<lparr>bk_log_path = log, bk_prev_log_path = take (PATH_MAX - 1) prev, bk_prev_log_backup_path = [],
                bk_persistent_path = [], bk_hdd_enabled = False\<rparr>;
          c1 = c0\<lparr>bk_prev_log_backup_path := take (PATH_MAX - 1) backup\<rparr> in
      if PATH_MAX \<le> length prev then (BACKUP_ERROR_CONFIG, c0)
      else if PATH_MAX \<le> length backup then (BACKUP_ERROR_CONFIG, c1)
      else (BACKUP_SUCCESS,
            c1\<lparr>bk_persistent_path := take (PATH_MAX - 1)
                 (property_or ''/opt/persistent'' (getDevicePropertyData E (outer_of w) ''APP_PERSISTENT_PATH'' 32)),
               bk_hdd_enabled := (case getDevicePropertyData E (outer_of w) ''HDD_ENABLED'' 32 of
                   None \<Rightarrow> False | Some v \<Rightarrow> v \<noteq> ''false'')\<rparr>))"

subsection \<open>Special files\<close>

definition is_blank :: "char \<Rightarrow> bool" where
  "is_blank c = (c = CHR '' '' \<or> c = CHR 0x09 \<or> c = CHR 0x0D \<or> c = CHR 0x0A)"

definition trim_line :: "cstring \<Rightarrow> cstring" where
  "trim_line l = rev (dropWhile is_blank (rev (dropWhile is_blank l)))"

text \<open>The part after the last slash.\<close>

definition file_name_of :: "cstring \<Rightarrow> cstring" where
  "file_name_of s = rev (takeWhile (\<lambda>c. c \<noteq> CHR ''/'') (rev s))"

definition special_entry :: "cstring \<Rightarrow> special_file_entry_t" where
  "special_entry trimmed = \<lparr>source_path = take (PATH_MAX - 1) trimmed,
     destination_path = take (PATH_MAX - 1) (file_name_of trimmed),
     operation = SPECIAL_FILE_COPY, conditional_check = []\<rparr>"

fun load_lines :: "cstring list \<Rightarrow> special_file_entry_t list \<Rightarrow> special_file_entry_t list" where
  "load_lines [] es = es"
| "load_lines (l # ls) es =
     (if MAX_SPECIAL_FILES \<le> length es then es
      else let t = trim_line l in
        if t = [] \<or> hd t = CHR ''#'' then load_lines ls es
        else load_lines ls (es @ [special_entry t]))"

definition special_files_load_config :: "cstring \<Rightarrow> 'n world \<Rightarrow> int \<times> special_files_config_t" where
  "special_files_load_config config_file w =
     (case os_read (fs w) config_file of
        None \<Rightarrow> (BACKUP_ERROR_CONFIG, \<lparr>entries = [], config_loaded = False\<rparr>)
      | Some d \<Rightarrow> (BACKUP_SUCCESS, \<lparr>entries = load_lines (fgets_all 512 d) [], config_loaded = True\<rparr>))"

definition special_files_validate_entry :: "special_file_entry_t \<Rightarrow> int" where
  "special_files_validate_entry e =
     (if source_path e = [] \<or> destination_path e = [] then BACKUP_ERROR_CONFIG else BACKUP_SUCCESS)"

definition should_move :: "cstring \<Rightarrow> bool" where
  "should_move s = (s = ''/tmp/disk_cleanup.log'' \<or> s = ''/tmp/mount_log.txt'' \<or> s = ''/tmp/mount-ta_log.txt'')"

definition special_dest :: "backup_config_t option \<Rightarrow> cstring \<Rightarrow> cstring option" where
  "special_dest c dest =
     (case c of
        None \<Rightarrow> Some (take (PATH_MAX - 1) dest)
      | Some cfg \<Rightarrow>
          if bk_log_path cfg = [] then Some (take (PATH_MAX - 1) dest)
          else if PATH_MAX \<le> length (slashed (bk_log_path cfg) dest) then None
          else Some (slashed (bk_log_path cfg) dest))"

definition special_files_execute_entry ::
  "'n externals \<Rightarrow> special_file_entry_t \<Rightarrow> backup_config_t option \<Rightarrow> 'n world \<Rightarrow> int \<times> 'n world" where
  "special_files_execute_entry E e backup_config w =
     (if special_files_validate_entry e \<noteq> BACKUP_SUCCESS then (special_files_validate_entry e, w)
      else case special_dest backup_config (destination_path e) of
        None \<Rightarrow> (BACKUP_ERROR_CONFIG, w)
      | Some full_dest_path \<Rightarrow>
          if filePresentCheck E (outer_of w) (source_path e) \<noteq> 0 then (BACKUP_SUCCESS, w)
          else case xcall (copyFiles E (source_path e) full_dest_path) w of (r, w1) \<Rightarrow>
            if should_move (source_path e) \<and> r = 0
            then case remove_path (source_path e) w1 of (ok, w2) \<Rightarrow>
                   (if ok then BACKUP_SUCCESS else BACKUP_ERROR_FILESYSTEM, w2)
            else (if r = 0 then BACKUP_SUCCESS else BACKUP_ERROR_FILESYSTEM, w1))"

fun special_files_loop ::
  "'n externals \<Rightarrow> backup_config_t option \<Rightarrow> special_file_entry_t list \<Rightarrow> 'n world \<Rightarrow> 'n world" where
  "special_files_loop E c [] w = w"
| "special_files_loop E c (e # es) w = special_files_loop E c es (snd (special_files_execute_entry E e c w))"

definition special_files_execute_all ::
  "'n externals \<Rightarrow> special_files_config_t \<Rightarrow> backup_config_t option \<Rightarrow> 'n world \<Rightarrow> int \<times> 'n world" where
  "special_files_execute_all E config c w = (BACKUP_SUCCESS, special_files_loop E c (entries config) w)"

subsection \<open>Moving logs\<close>

definition log_pattern :: "string \<Rightarrow> bool" where
  "log_pattern n =
     (\<not> is_prefix ''backup_logs.log'' n \<and>
      (n = ''bootlog'' \<or> strstr n ''.txt'' \<noteq> None \<or> strstr n ''.log'' \<noteq> None))"

fun move_pattern_loop ::
  "'n externals \<Rightarrow> cstring \<Rightarrow> cstring \<Rightarrow> string list \<Rightarrow> nat \<Rightarrow> 'n world \<Rightarrow> nat \<times> 'n world" where
  "move_pattern_loop E src dest [] moved_count w = (moved_count, w)"
| "move_pattern_loop E src dest (n # ns) moved_count w =
     (let source_file = slashed src n; dest_file = slashed dest n in
      if n = ''.'' \<or> n = ''..'' \<or> PATH_MAX \<le> length source_file \<or>
         filePresentCheck E (outer_of w) source_file \<noteq> 0 \<or> \<not> log_pattern n \<or> PATH_MAX \<le> length dest_file
      then move_pattern_loop E src dest ns moved_count w
      else case xcall (copyFiles E source_file dest_file) w of (r, w1) \<Rightarrow>
        if r = 0 then move_pattern_loop E src dest ns (Suc moved_count) (snd (remove_path source_file w1))
        else move_pattern_loop E src dest ns moved_count w1)"

definition move_log_files_by_pattern ::
  "'n externals \<Rightarrow> cstring \<Rightarrow> cstring \<Rightarrow> 'n world \<Rightarrow> int \<times> 'n world" where
  "move_log_files_by_pattern E source_dir dest_dir w =
     (case os_readdir (fs w) source_dir of None \<Rightarrow> (BACKUP_ERROR_FILESYSTEM, w)
      | Some ns \<Rightarrow>
          (case move_pattern_loop E source_dir dest_dir ns 0 w of (k, w1) \<Rightarrow>
             (if 0 < k then BACKUP_SUCCESS else BACKUP_ERROR_FILESYSTEM, w1)))"

text \<open>A regular file, or a symbolic link to one.\<close>

definition regular_entry :: "fsys \<Rightarrow> cstring \<Rightarrow> bool" where
  "regular_entry f p =
     (case os_lstat f p of None \<Rightarrow> False
      | Some n \<Rightarrow>
          (case n of Reg d m \<Rightarrow> True | Dir m \<Rightarrow> False
           | Lnk t m \<Rightarrow> (case os_stat f p of None \<Rightarrow> False | Some n2 \<Rightarrow> is_reg n2)))"

definition active_log :: "string \<Rightarrow> bool" where
  "active_log n = (n = ''backup_logs.log'' \<or> n = ''backup_logs.log.0'')"

text \<open>The name of an entry after the prefix of the source and its extension.\<close>

definition remaining_path :: "cstring \<Rightarrow> cstring \<Rightarrow> string \<Rightarrow> cstring" where
  "remaining_path source s_ext n =
     (if source @ s_ext \<noteq> [] \<and> is_prefix (source @ s_ext) (source @ n)
      then drop (length (source @ s_ext)) (source @ n) else n)"

definition recover_one ::
  "'n externals \<Rightarrow> backup_operation_type_t \<Rightarrow> cstring \<Rightarrow> cstring \<Rightarrow> 'n world \<Rightarrow> bool \<times> 'n world" where
  "recover_one E op source_file dest_file w =
     (case op of
        BACKUP_OP_MOVE \<Rightarrow>
          (case xcall (copyFiles E source_file dest_file) w of (r, w1) \<Rightarrow>
             if r = 0 then remove_path source_file w1 else (False, w1))
      | BACKUP_OP_COPY \<Rightarrow> (case xcall (copyFiles E source_file dest_file) w of (r, w1) \<Rightarrow> (r = 0, w1))
      | BACKUP_OP_DELETE \<Rightarrow> (False, w))"

fun recover_loop ::
  "'n externals \<Rightarrow> cstring \<Rightarrow> cstring \<Rightarrow> backup_operation_type_t \<Rightarrow> cstring \<Rightarrow> cstring \<Rightarrow> string list \<Rightarrow>
     nat \<Rightarrow> nat \<Rightarrow> 'n world \<Rightarrow> nat \<times> nat \<times> 'n world" where
  "recover_loop E source dest op s_ext d_ext [] file_count success_count w = (file_count, success_count, w)"
| "recover_loop E source dest op s_ext d_ext (n # ns) file_count success_count w =
     (let source_file = source @ n; dest_file = dest @ d_ext @ remaining_path source s_ext n in
      if n = ''.'' \<or> n = ''..'' \<or> active_log n \<or> PATH_MAX \<le> length source_file \<or>
         \<not> regular_entry (fs w) source_file \<or> \<not> is_prefix s_ext n
      then recover_loop E source dest op s_ext d_ext ns file_count success_count w
      else if PATH_MAX \<le> length dest_file
      then recover_loop E source dest op s_ext d_ext ns (Suc file_count) success_count w
      else case recover_one E op source_file dest_file w of (ok, w1) \<Rightarrow>
        recover_loop E source dest op s_ext d_ext ns (Suc file_count)
          (if ok then Suc success_count else success_count) w1)"

definition backup_and_recover_logs ::
  "'n externals \<Rightarrow> cstring \<Rightarrow> cstring \<Rightarrow> backup_operation_type_t \<Rightarrow> cstring \<Rightarrow> cstring \<Rightarrow> 'n world \<Rightarrow> int \<times> 'n world" where
  "backup_and_recover_logs E source dest op s_ext d_ext w =
     (if PATH_MAX \<le> length (source @ s_ext) then (BACKUP_ERROR_INVALID_PARAM, w)
      else case os_readdir (fs w) source of None \<Rightarrow> (BACKUP_ERROR_FILESYSTEM, w)
      | Some ns \<Rightarrow>
          (case recover_loop E source dest op s_ext d_ext ns 0 0 w of (files, done, w1) \<Rightarrow>
             (if files = 0 \<or> 0 < done then BACKUP_SUCCESS else BACKUP_ERROR_FILESYSTEM, w1)))"

subsection \<open>With a hard disk\<close>

fun remove_markers :: "cstring \<Rightarrow> string list \<Rightarrow> 'n world \<Rightarrow> 'n world" where
  "remove_markers dir [] w = w"
| "remove_markers dir (n # ns) w =
     remove_markers dir ns
       (if n = ''last_reboot'' \<and> length (slashed dir n) < PATH_MAX then snd (remove_path (slashed dir n) w) else w)"

text \<open>\<^verbatim>\<open>strftime(..., "%m-%d-%y-%I-%M-%S%p", tm)\<close>.\<close>

definition stamp_seconds :: "tm \<Rightarrow> cstring" where
  "stamp_seconds t =
     dec2 (tm_mon t + 1) @ ''-'' @ dec2 (tm_mday t) @ ''-'' @ dec2 (tm_year t mod 100) @ ''-'' @
     dec2 (if tm_hour t mod 12 = 0 then 12 else tm_hour t mod 12) @ ''-'' @ dec2 (tm_min t) @ ''-'' @
     dec2 (tm_sec t) @ (if tm_hour t < 12 then ''AM'' else ''PM'')"

definition boot_stamp :: "int \<Rightarrow> cstring" where
  "boot_stamp now = (case gmtime_r now of None \<Rightarrow> take 31 (int_dec now) | Some t \<Rightarrow> stamp_seconds t)"

definition first_hdd_backup :: "'n externals \<Rightarrow> backup_config_t \<Rightarrow> 'n world \<Rightarrow> int \<times> 'n world" where
  "first_hdd_backup E c w =
     (let w1 = snd (move_log_files_by_pattern E (bk_log_path c) (bk_prev_log_path c) w) in
      if PATH_MAX \<le> length (bk_prev_log_path c) + 13 then (BACKUP_ERROR_FILESYSTEM, w1)
      else (BACKUP_SUCCESS, touch (slashed (bk_prev_log_path c) ''last_reboot'') w1))"

definition later_hdd_backup :: "'n externals \<Rightarrow> backup_config_t \<Rightarrow> 'n world \<Rightarrow> int \<times> 'n world" where
  "later_hdd_backup E c w =
     (let prev = bk_prev_log_path c;
          w1 = (case os_readdir (fs w) prev of None \<Rightarrow> w | Some ns \<Rightarrow> remove_markers prev ns w);
          timestamped_path = prev @ ''/logbackup-'' @ boot_stamp (clock w1) in
      if PATH_MAX \<le> length timestamped_path then (BACKUP_ERROR_FILESYSTEM, w1)
      else case xcall (createDir E timestamped_path) w1 of (r, w2) \<Rightarrow>
        if r \<noteq> 0 then (BACKUP_ERROR_FILESYSTEM, w2)
        else let w3 = snd (move_log_files_by_pattern E (bk_log_path c) timestamped_path w2) in
          if PATH_MAX \<le> length timestamped_path + 13 then (BACKUP_ERROR_FILESYSTEM, w3)
          else (BACKUP_SUCCESS, touch (slashed timestamped_path ''last_reboot'') w3))"

definition backup_execute_hdd_enabled_strategy ::
  "'n externals \<Rightarrow> backup_config_t \<Rightarrow> 'n world \<Rightarrow> int \<times> 'n world" where
  "backup_execute_hdd_enabled_strategy E c w =
     (let syslog_path = slashed (bk_prev_log_path c) ''messages.txt'' in
      if PATH_MAX \<le> length syslog_path then (BACKUP_ERROR_FILESYSTEM, w)
      else if filePresentCheck E (outer_of w) syslog_path \<noteq> 0 then first_hdd_backup E c w
      else later_hdd_backup E c w)"

subsection \<open>Without a hard disk\<close>

text \<open>The rotation of the four generations of logs.  The results of the moves are ignored.\<close>

definition rotate_logs :: "'n externals \<Rightarrow> backup_config_t \<Rightarrow> 'n world \<Rightarrow> 'n world" where
  "rotate_logs E c w =
     (let prev = bk_prev_log_path c; log_slash = bk_log_path c @ ''/''; prev_slash = prev @ ''/'';
          move = (\<lambda>src s_ext d_ext v. snd (backup_and_recover_logs E src prev_slash BACKUP_OP_MOVE s_ext d_ext v)) in
      if filePresentCheck E (outer_of w) (slashed prev ''messages.txt'') \<noteq> 0 then move log_slash '''' '''' w
      else if filePresentCheck E (outer_of w) (slashed prev ''bak1_messages.txt'') \<noteq> 0 then move log_slash '''' ''bak1_'' w
      else if filePresentCheck E (outer_of w) (slashed prev ''bak2_messages.txt'') \<noteq> 0 then move log_slash '''' ''bak2_'' w
      else if filePresentCheck E (outer_of w) (slashed prev ''bak3_messages.txt'') \<noteq> 0 then move log_slash '''' ''bak3_'' w
      else move log_slash '''' ''bak3_''
             (move prev_slash ''bak3_'' ''bak2_''
               (move prev_slash ''bak2_'' ''bak1_''
                 (move prev_slash ''bak1_'' '''' w))))"

fun clean_log_path :: "cstring \<Rightarrow> string list \<Rightarrow> 'n world \<Rightarrow> 'n world" where
  "clean_log_path dir [] w = w"
| "clean_log_path dir (n # ns) w =
     (if n = ''.'' \<or> n = ''..'' \<or> PATH_MAX \<le> length (slashed dir n) then clean_log_path dir ns w
      else clean_log_path dir ns (snd (remove_path (slashed dir n) w)))"

definition backup_execute_hdd_disabled_strategy ::
  "'n externals \<Rightarrow> backup_config_t \<Rightarrow> 'n world \<Rightarrow> int \<times> 'n world" where
  "backup_execute_hdd_disabled_strategy E c w =
     (let prev = bk_prev_log_path c in
      if PATH_MAX \<le> length prev + 19 then (BACKUP_ERROR_FILESYSTEM, w)
      else if PATH_MAX \<le> length (bk_log_path c) + 2 \<or> PATH_MAX \<le> length prev + 2 then (BACKUP_ERROR_FILESYSTEM, w)
      else let w1 = rotate_logs E c w in
        if PATH_MAX \<le> length prev + 13 then (BACKUP_ERROR_FILESYSTEM, w1)
        else let w2 = touch (slashed prev ''last_reboot'') w1 in
          (BACKUP_SUCCESS,
           case os_readdir (fs w2) (bk_log_path c) of None \<Rightarrow> w2
           | Some ns \<Rightarrow> clean_log_path (bk_log_path c) ns w2))"

subsection \<open>The program\<close>

definition sys_send_systemd_notification :: "'n notifier \<Rightarrow> cstring \<Rightarrow> 'n world \<Rightarrow> int \<times> 'n world" where
  "sys_send_systemd_notification sd_notify message w =
     (case xcall (sd_notify (take 511 (''READY=1'' @ [CHR 0x0A] @ ''STATUS='' @ message))) w of (r, w1) \<Rightarrow>
        (if r < 0 then BACKUP_ERROR_SYSTEM else BACKUP_SUCCESS, w1))"

definition backup_execute_common_operations ::
  "'n externals \<Rightarrow> 'n notifier \<Rightarrow> backup_config_t \<Rightarrow> 'n world \<Rightarrow> int \<times> 'n world" where
  "backup_execute_common_operations E sd_notify c w =
     (case special_files_load_config ''/etc/backup_logs/special_files.conf'' w of (r, special_config) \<Rightarrow>
        let w1 = (if r = BACKUP_SUCCESS \<and> entries special_config \<noteq> []
                  then snd (special_files_execute_all E special_config (Some c) w) else w) in
        (BACKUP_SUCCESS, snd (sys_send_systemd_notification sd_notify ''Logs Backup Done..!'' w1)))"

definition disk_check :: "'n externals \<Rightarrow> 'n world \<Rightarrow> 'n world" where
  "disk_check E w =
     (if filePresentCheck E (outer_of w) ''/lib/rdk/disk_threshold_check.sh'' \<noteq> 0 then w
      else snd (xcall (v_secure_system E ''/lib/rdk/disk_threshold_check.sh 0'')
                  (emit (Shell ''/lib/rdk/disk_threshold_check.sh 0'') w)))"

definition backup_logs_init :: "'n externals \<Rightarrow> 'n world \<Rightarrow> int \<times> backup_config_t \<times> 'n world" where
  "backup_logs_init E w =
     (case config_load E w of (r0, c) \<Rightarrow>
        if r0 \<noteq> BACKUP_SUCCESS then (r0, c, w)
        else case xcall (createDir E (bk_log_path c)) w of (r1, w1) \<Rightarrow>
          if r1 \<noteq> 0 then (BACKUP_ERROR_FILESYSTEM, c, w1)
          else case xcall (createDir E (bk_prev_log_path c)) w1 of (r2, w2) \<Rightarrow>
            if r2 \<noteq> 0 then (BACKUP_ERROR_FILESYSTEM, c, w2)
            else case xcall (createDir E (bk_prev_log_backup_path c)) w2 of (r3, w3) \<Rightarrow>
              if r3 \<noteq> 0 then (BACKUP_ERROR_FILESYSTEM, c, w3)
              else let w4 = snd (xcall (emptyFolder E (bk_prev_log_backup_path c)) w3) in
                if PATH_MAX \<le> length (bk_persistent_path c) + 15 then (BACKUP_ERROR_FILESYSTEM, c, w4)
                else let w5 = snd (xcall (createDir E (bk_persistent_path c)) w4) in
                  (BACKUP_SUCCESS, c, disk_check E (touch (slashed (bk_persistent_path c) ''logFileBackup'') w5)))"

definition backup_logs_execute ::
  "'n externals \<Rightarrow> 'n notifier \<Rightarrow> backup_config_t \<Rightarrow> 'n world \<Rightarrow> int \<times> 'n world" where
  "backup_logs_execute E sd_notify c w =
     (let last_bootfile = slashed (bk_prev_log_path c) ''last_reboot'' in
      if PATH_MAX \<le> length (bk_prev_log_path c) + 13 then (BACKUP_ERROR_FILESYSTEM, w)
      else let w1 = (if filePresentCheck E (outer_of w) last_bootfile = 0
                     then snd (xcall (removeFile E last_bootfile) w) else w) in
        case (if bk_hdd_enabled c then backup_execute_hdd_enabled_strategy E c w1
              else backup_execute_hdd_disabled_strategy E c w1) of (r, w2) \<Rightarrow>
          if r \<noteq> BACKUP_SUCCESS then (r, w2)
          else (BACKUP_SUCCESS, snd (backup_execute_common_operations E sd_notify c w2)))"

text \<open>\<^verbatim>\<open>backup_logs_cleanup\<close> only calls \<^verbatim>\<open>special_files_cleanup\<close>.\<close>

definition backup_logs_main :: "'n externals \<Rightarrow> 'n notifier \<Rightarrow> 'n world \<Rightarrow> int \<times> 'n world" where
  "backup_logs_main E sd_notify w =
     (case backup_logs_init E w of (r, c, w1) \<Rightarrow>
        if r \<noteq> BACKUP_SUCCESS then (1, w1)
        else case backup_logs_execute E sd_notify c w1 of (r2, w2) \<Rightarrow>
          if r2 \<noteq> BACKUP_SUCCESS then (1, w2) else (0, touch BACKUP_LOGS_DONE_FLAG w2))"

end
