(* ===== verification/CleanupProps.thy ===== *)
theory CleanupProps
  imports CleanupHandler FileSysProps Environment
begin

text \<open>
  What the clean-up of the upload tool does to the files: privacy enforcement, the removal of old
  archives, the names of the backups, and the block markers.
\<close>

subsection \<open>Names\<close>

definition real_name :: "string \<Rightarrow> bool" where
  "real_name n = (n \<noteq> [] \<and> CHR ''/'' \<notin> set n \<and> n \<noteq> ''.'' \<and> n \<noteq> ''..'')"

definition names_ok :: "fsys \<Rightarrow> bool" where
  "names_ok f = list_all (\<lambda>e. list_all real_name (fst e)) (nodes f)"

lemma comps_real [simp]: "real_name n \<Longrightarrow> comps n = [n]"
  by (simp add: real_name_def)

lemma names_ok_lookup: "names_ok f = (\<forall>p. lookup f p \<noteq> None \<longrightarrow> list_all real_name p)"
proof
  assume "names_ok f"
  then show "\<forall>p. lookup f p \<noteq> None \<longrightarrow> list_all real_name p"
    by (auto simp: names_ok_def lookup_def list_all_iff dest!: map_of_SomeD)
next
  assume a: "\<forall>p. lookup f p \<noteq> None \<longrightarrow> list_all real_name p"
  have "list_all real_name (fst e)" if "e \<in> set (nodes f)" for e
    using that a by (metis lookup_def map_of_eq_None_iff image_eqI set_map)
  then show "names_ok f" by (simp add: names_ok_def list_all_iff)
qed

definition entry_ok :: "string \<Rightarrow> bool" where
  "entry_ok n = (n = ''.'' \<or> n = ''..'' \<or> real_name n)"

lemma readdir_entry_ok:
  assumes "names_ok f" "os_readdir f s = Some ns"
  shows "list_all entry_ok ns"
proof -
  have "real_name n" if "n \<in> set (children f p)" for n p
    using that assms(1) unfolding set_children names_ok_lookup by fastforce
  with assms(2) show ?thesis
    by (auto simp: os_readdir_def entry_ok_def list_all_iff split: option.splits if_splits)
qed

lemma readdir_names:
  assumes "os_readdir f s = Some ns" "resolve f s = Some p"
  shows "real_name n \<Longrightarrow> n \<in> set ns \<longleftrightarrow> lookup f (p @ [n]) \<noteq> None"
  using assms by (auto simp: os_readdir_def set_children real_name_def split: if_splits)

subsection \<open>Privacy\<close>

text \<open>The files that privacy enforcement empties.\<close>

definition exposed_log :: "fsys \<Rightarrow> path \<Rightarrow> path \<Rightarrow> bool" where
  "exposed_log f d p =
     (\<exists>n t m. p = d @ [n] \<and> hd n \<noteq> CHR ''.'' \<and> lookup f p = Some (Reg t m) \<and> \<not> List.member (denied f) p)"

lemma truncate_nofollow:
  "os_truncate_nofollow f s t =
     (if (\<exists>d m. lookup f (comps s) = Some (Reg d m)) \<and> \<not> List.member (denied f) (comps s) \<and> comps s \<noteq> []
      then Some (put f (comps s) (Reg [] t)) else None)"
  by (auto simp: os_truncate_nofollow_def os_open_nofollow_def os_lstat_def is_reg_def
      split: option.splits node.splits)

lemma privacy_loop_trace: "trace (privacy_loop log ns w) = trace w"
  by (induction log ns w rule: privacy_loop.induct) (auto split: option.splits)

lemma privacy_loop_files:
  fixes w :: "'n world"
  assumes "list_all entry_ok ns" "\<And>n. n \<in> set ns \<Longrightarrow> \<not> too_long (slashed log n)"
  shows "lookup (fs (privacy_loop log ns w)) p =
    (if exposed_log (fs w) (comps log) p \<and> last p \<in> set ns then Some (Reg [] (clock w)) else lookup (fs w) p) \<and>
    denied (fs (privacy_loop log ns w)) = denied (fs w)"
  using assms
proof (induction ns arbitrary: w)
  case Nil
  then show ?case by simp
next
  case (Cons n ns)
  have IH: "lookup (fs (privacy_loop log ns v)) p =
    (if exposed_log (fs v) (comps log) p \<and> last p \<in> set ns then Some (Reg [] (clock v)) else lookup (fs v) p) \<and>
    denied (fs (privacy_loop log ns v)) = denied (fs v)" for v :: "'n world"
    using Cons.IH [of v] Cons.prems by simp
  show ?case
  proof (cases "hd n = CHR ''.''")
    case True
    then have "privacy_loop log (n # ns) w = privacy_loop log ns w"
      using Cons.prems(1) by (auto simp: entry_ok_def real_name_def)
    moreover have "\<not> (exposed_log (fs w) (comps log) p \<and> last p = n)"
      using True by (auto simp: exposed_log_def)
    ultimately show ?thesis using IH [of w] by auto
  next
    case False
    then have n: "real_name n" using Cons.prems(1) by (auto simp: entry_ok_def)
    have cut: "take 511 (slashed log n) = slashed log n"
      using Cons.prems(2) [of n] by (simp add: too_long_def MAX_PATH_LENGTH_def)
    let ?q = "comps log @ [n]"
    show ?thesis
    proof (cases "exposed_log (fs w) (comps log) ?q")
      case True
      let ?v = "w\<lparr>fs := put (fs w) ?q (Reg [] (clock w))\<rparr>"
      have "privacy_loop log (n # ns) w = privacy_loop log ns ?v"
        using True False n cut by (auto simp: truncate_nofollow exposed_log_def real_name_def)
      moreover have "exposed_log (fs ?v) (comps log) p = exposed_log (fs w) (comps log) p"
        using True by (auto simp: exposed_log_def)
      ultimately show ?thesis using IH [of ?v] True by (auto simp: exposed_log_def)
    next
      case ne: False
      then have "privacy_loop log (n # ns) w = privacy_loop log ns w"
        using False n cut by (auto simp: truncate_nofollow exposed_log_def)
      moreover have "\<not> (exposed_log (fs w) (comps log) p \<and> last p = n)"
        using ne by (auto simp: exposed_log_def)
      ultimately show ?thesis using IH [of w] by auto
    qed
  qed
qed

text \<open>
  Claim C30. Privacy enforcement empties exactly the regular files directly in the log directory that are
  not hidden and can be opened; every other file, the names of the files, and everything below
  sub-directories stay as they are, and nothing is reported or sent.
\<close>

theorem privacy_empties_the_logs:
  assumes "names_ok (fs w)" "dir_exists E w log" "os_readdir (fs w) log = Some ns"
    and "resolve (fs w) log = Some (comps log)"
    and "\<And>n. n \<in> set ns \<Longrightarrow> \<not> too_long (slashed log n)"
  shows "lookup (fs (enforce_privacy E log w)) p =
      (if exposed_log (fs w) (comps log) p then Some (Reg [] (clock w)) else lookup (fs w) p) \<and>
    trace (enforce_privacy E log w) = trace w"
proof -
  have e: "enforce_privacy E log w = privacy_loop log ns w"
    using assms(2,3) by (simp add: enforce_privacy_def)
  have "last p \<in> set ns" if "exposed_log (fs w) (comps log) p"
  proof -
    from that obtain n t m where p: "p = comps log @ [n]" "lookup (fs w) p = Some (Reg t m)"
      by (auto simp: exposed_log_def)
    then have "real_name n" using assms(1) by (auto simp: names_ok_lookup)
    with p show ?thesis using readdir_names [OF assms(3,4)] by simp
  qed
  then show ?thesis
    using privacy_loop_files [OF readdir_entry_ok [OF assms(1,3)] assms(5), where p = p and w = w]
    by (auto simp: e privacy_loop_trace)
qed

definition log_tree :: "(path \<times> node) list" where
  "log_tree = [([''opt''], Dir 0), ([''opt'', ''logs''], Dir 0), ([''opt'', ''logs'', ''a.log''], Reg ''secret'' 0),
     ([''opt'', ''logs'', ''.b''], Reg ''kept'' 0), ([''opt'', ''logs'', ''c.tgz''], Reg ''old'' 0)]"

definition log_world :: "script world" where
  "log_world = sample_world quiet_script log_tree"

lemma log_world_facts:
  "names_ok (fs log_world)" "dir_exists script_externals log_world ''/opt/logs''"
  "os_readdir (fs log_world) ''/opt/logs'' = Some [''.'', ''..'', ''a.log'', ''.b'', ''c.tgz'']"
  "resolve (fs log_world) ''/opt/logs'' = Some (comps ''/opt/logs'')"
  "comps ''/opt/logs'' = [''opt'', ''logs'']"
  "list_all (\<lambda>n. \<not> too_long (slashed ''/opt/logs'' n)) [''.'', ''..'', ''a.log'', ''.b'', ''c.tgz'']"
  by code_simp+

lemma log_world_lookup:
  "lookup (fs log_world) [''opt'', ''logs'', ''a.log''] = Some (Reg ''secret'' 0)"
  "lookup (fs log_world) [''opt'', ''logs'', ''.b''] = Some (Reg ''kept'' 0)"
  "lookup (fs log_world) [''opt'', ''logs'', ''c.tgz''] = Some (Reg ''old'' 0)"
  "denied (fs log_world) = []"
  by (simp_all add: log_world_def sample_world_def log_tree_def lookup_def)

theorem privacy_empties_the_logs_witness:
  "lookup (fs (enforce_privacy script_externals ''/opt/logs'' log_world)) [''opt'', ''logs'', ''a.log''] =
     Some (Reg [] (clock log_world)) \<and>
   lookup (fs (enforce_privacy script_externals ''/opt/logs'' log_world)) [''opt'', ''logs'', ''.b''] =
     Some (Reg ''kept'' 0)"
proof -
  have l: "n \<in> set [''.'', ''..'', ''a.log'', ''.b'', ''c.tgz''] \<Longrightarrow> \<not> too_long (slashed ''/opt/logs'' n)" for n
    using log_world_facts(6) unfolding list_all_iff by blast
  have "exposed_log (fs log_world) (comps ''/opt/logs'') [''opt'', ''logs'', ''a.log'']"
    "\<not> exposed_log (fs log_world) (comps ''/opt/logs'') [''opt'', ''logs'', ''.b'']"
    by (auto simp: exposed_log_def log_world_lookup log_world_facts(5))
  then show ?thesis
    using privacy_empties_the_logs [OF log_world_facts(1-4) l] by (simp add: log_world_lookup)
qed

subsection \<open>Old archives\<close>

definition archives_gone :: "'n world \<Rightarrow> 'n world \<Rightarrow> bool" where
  "archives_gone w w' =
     ((\<forall>p. lookup (fs w') p = lookup (fs w) p \<or>
        (lookup (fs w') p = None \<and> (\<exists>d t. lookup (fs w) p = Some (Reg d t)) \<and> has_suffix ''.tgz'' (last p))) \<and>
      denied (fs w') = denied (fs w) \<and> trace w' = trace w)"

lemma archives_gone_refl [simp]: "archives_gone w w"
  by (simp add: archives_gone_def)

lemma archives_gone_trans: "archives_gone u v \<Longrightarrow> archives_gone v w \<Longrightarrow> archives_gone u w"
  unfolding archives_gone_def by (metis option.distinct(1))

lemma archives_gone_names: "archives_gone w w' \<Longrightarrow> names_ok (fs w) \<Longrightarrow> names_ok (fs w')"
  unfolding archives_gone_def names_ok_lookup by metis

lemma unlink_archive:
  assumes "lookup (fs w) (comps log @ [n]) = Some (Reg d t)" "real_name n" "has_suffix ''.tgz'' n"
    "on_fs (\<lambda>f. os_unlink f (slashed log n)) w = (r, w')"
  shows "archives_gone w w' \<and>
    (\<not> List.member (denied (fs w)) (comps log @ [n]) \<longrightarrow> lookup (fs w') (comps log @ [n]) = None)"
  using assms
  by (auto simp: on_fs_def os_unlink_def archives_gone_def is_dir_def Let_def split: if_splits)

text \<open>An old archive that the clean-up has to remove.\<close>

definition old_archive :: "fsys \<Rightarrow> cstring \<Rightarrow> string \<Rightarrow> bool" where
  "old_archive f log n =
     ((\<exists>d t. lookup f (comps log @ [n]) = Some (Reg d t)) \<and> has_suffix ''.tgz'' n \<and> \<not> too_long (slashed log n) \<and>
      \<not> List.member (denied f) (comps log @ [n]))"

lemma old_archive_later:
  assumes "archives_gone w w1" "old_archive (fs w) log n"
  shows "lookup (fs w1) (comps log @ [n]) = None \<or> old_archive (fs w1) log n"
  using assms unfolding archives_gone_def old_archive_def by metis

lemma old_archives_step:
  assumes sub: "\<forall>p v r v'. names_ok (fs v) \<longrightarrow> sub p v = Some (r, v') \<longrightarrow> archives_gone v v'"
    and "names_ok (fs w)" "entry_ok n" "old_archives_loop sub log (n # ns) k w = Some (r, w')"
  obtains k1 w1 where "archives_gone w w1" "old_archive (fs w) log n \<longrightarrow> lookup (fs w1) (comps log @ [n]) = None"
    "old_archives_loop sub log ns k1 w1 = Some (r, w')"
proof (cases "real_name n")
  case False
  then have "n = ''.'' \<or> n = ''..''" using assms(3) by (simp add: entry_ok_def)
  moreover from this have "\<not> has_suffix ''.tgz'' n" by (auto simp: has_suffix_def)
  ultimately show thesis using assms(4) by (intro that [of w k]) (auto simp: old_archive_def)
next
  case n: True
  then have lstat: "n \<noteq> ''.''" "n \<noteq> ''..''" "os_lstat (fs w) (slashed log n) = lookup (fs w) (comps log @ [n])"
    by (simp_all add: os_lstat_def real_name_def)
  consider (arch) d t where "lookup (fs w) (comps log @ [n]) = Some (Reg d t)" "has_suffix ''.tgz'' n" "\<not> too_long (slashed log n)"
    | (sub) t where "lookup (fs w) (comps log @ [n]) = Some (Dir t)"
    | (skip) "\<not> old_archive (fs w) log n" "old_archives_loop sub log (n # ns) k w = old_archives_loop sub log ns k w"
  proof (cases "lookup (fs w) (comps log @ [n])")
    case None
    then show thesis using lstat by (intro skip) (simp_all add: old_archive_def)
  next
    case (Some nd)
    show thesis
    proof (cases nd)
      case (Reg d t)
      show thesis
      proof (cases "has_suffix ''.tgz'' n \<and> \<not> too_long (slashed log n)")
        case True
        then show thesis using Some Reg by (intro arch) simp_all
      next
        case False
        then show thesis using Some Reg lstat by (intro skip) (auto simp: old_archive_def)
      qed
    qed (use Some lstat in \<open>auto simp: old_archive_def intro: sub skip\<close>)
  qed
  then show thesis
  proof cases
    case arch
    obtain b w1 where u: "on_fs (\<lambda>f. os_unlink f (slashed log n)) w = (b, w1)" by fastforce
    from unlink_archive [OF arch(1) n arch(2) u] lstat arch u assms(4) show thesis
      by (intro that [of w1 "if b then k + 1 else k"]) (auto simp: old_archive_def)
  next
    case sub
    with lstat assms(4) obtain c w1 where "sub (take 511 (slashed log n)) w = Some (c, w1)"
      "old_archives_loop sub log ns (if 0 < c then k + c else k) w1 = Some (r, w')"
      by (auto split: option.splits)
    with assms(1,2) sub show thesis
      by (intro that [of w1 "if 0 < c then k + c else k"]) (auto simp: old_archive_def)
  next
    case skip
    with assms(4) show thesis by (intro that [of w k]) auto
  qed
qed

lemma old_archives_loop_gone:
  assumes sub: "\<forall>p v r v'. names_ok (fs v) \<longrightarrow> sub p v = Some (r, v') \<longrightarrow> archives_gone v v'"
    and "names_ok (fs w)" "list_all entry_ok ns" "old_archives_loop sub log ns k w = Some (r, w')"
  shows "archives_gone w w' \<and>
    (\<forall>n. n \<in> set ns \<longrightarrow> old_archive (fs w) log n \<longrightarrow> lookup (fs w') (comps log @ [n]) = None)"
  using assms(2-4)
proof (induction ns arbitrary: k w)
  case Nil
  then show ?case by simp
next
  case (Cons n ns)
  obtain k1 w1 where step: "archives_gone w w1" "old_archive (fs w) log n \<longrightarrow> lookup (fs w1) (comps log @ [n]) = None"
    and rest: "old_archives_loop sub log ns k1 w1 = Some (r, w')"
  proof -
    have "entry_ok n" using Cons.prems(2) by simp
    from that old_archives_step [OF sub Cons.prems(1) this Cons.prems(3)] show thesis by blast
  qed
  have IH: "archives_gone w1 w' \<and>
    (\<forall>n. n \<in> set ns \<longrightarrow> old_archive (fs w1) log n \<longrightarrow> lookup (fs w') (comps log @ [n]) = None)"
    using Cons.IH [OF _ _ rest] Cons.prems(1,2) archives_gone_names [OF step(1)] by simp
  have none: "lookup (fs w1) p = None \<Longrightarrow> lookup (fs w') p = None" for p
    using IH unfolding archives_gone_def by metis
  have "lookup (fs w') (comps log @ [m]) = None" if "m \<in> set (n # ns)" "old_archive (fs w) log m" for m
    using old_archive_later [OF step(1) that(2)] none IH that step(2) by (auto simp: old_archive_def)
  then show ?case using IH archives_gone_trans [OF step(1)] by blast
qed

lemma old_archives_gone:
  "names_ok (fs w) \<Longrightarrow> old_archives k log w = Some (r, w') \<Longrightarrow> archives_gone w w'"
proof (induction k arbitrary: log w r w')
  case (Suc k)
  show ?case
  proof (cases "os_readdir (fs w) log")
    case None
    with Suc.prems(2) show ?thesis by simp
  next
    case (Some ns)
    then show ?thesis
      using Suc.prems(2) old_archives_loop_gone [where sub = "old_archives k", OF _ Suc.prems(1) readdir_entry_ok [OF Suc.prems(1) Some]]
        Suc.IH by simp
  qed
qed simp

text \<open>The paths of all directories below the log directory fit the buffer of 512 bytes.\<close>

definition dirs_fit :: "cstring \<Rightarrow> fsys \<Rightarrow> bool" where
  "dirs_fit log f =
     (\<forall>ns m. ns \<noteq> [] \<longrightarrow> lookup f (comps log @ ns) = Some (Dir m) \<longrightarrow>
        length log + length (concat (map (\<lambda>n. CHR ''/'' # n) ns)) < 512)"

lemma dirs_fit_child:
  assumes "dirs_fit log f" "lookup f (comps log @ [n]) = Some (Dir m)" "real_name n"
  shows "take 511 (slashed log n) = slashed log n" "length log + 2 \<le> length (slashed log n)" "length (slashed log n) < 512"
    "dirs_fit (slashed log n) f"
proof -
  have f: "ns \<noteq> [] \<Longrightarrow> lookup f (comps log @ ns) = Some (Dir m) \<Longrightarrow>
      length log + length (concat (map (\<lambda>n. CHR ''/'' # n) ns)) < 512" for ns m
    using assms(1) by (simp add: dirs_fit_def)
  have "length log + length (CHR ''/'' # n) < 512" using f [of "[n]"] assms(2) by simp
  moreover have "n \<noteq> []" using assms(3) by (simp add: real_name_def)
  ultimately show "length (slashed log n) < 512" "length log + 2 \<le> length (slashed log n)"
    by (simp_all add: slashed_def Suc_le_eq)
  then show "take 511 (slashed log n) = slashed log n" by simp
  have "length (slashed log n) + length (concat (map (\<lambda>n. CHR ''/'' # n) ns)) < 512"
    if "lookup f (comps log @ n # ns) = Some (Dir k)" for ns k
    using f [OF _ that] by (simp add: slashed_def)
  then show "dirs_fit (slashed log n) f" using assms(3) by (simp add: dirs_fit_def)
qed

lemma dirs_fit_later: "archives_gone w w' \<Longrightarrow> dirs_fit log (fs w) \<Longrightarrow> dirs_fit log (fs w')"
  unfolding archives_gone_def dirs_fit_def by (metis option.distinct(1))

text \<open>The recursion ends: the path grows by at least two characters on each level.\<close>

lemma old_archives_loop_total:
  assumes sub: "\<forall>n m v. names_ok (fs v) \<longrightarrow> dirs_fit log (fs v) \<longrightarrow> real_name n \<longrightarrow> lookup (fs v) (comps log @ [n]) = Some (Dir m) \<longrightarrow>
      (\<exists>c v'. sub (take 511 (slashed log n)) v = Some (c, v') \<and> archives_gone v v')"
    and "names_ok (fs w)" "dirs_fit log (fs w)" "list_all entry_ok ns"
  shows "\<exists>x. old_archives_loop sub log ns k w = Some x"
  using assms(2-4)
proof (induction ns arbitrary: k w)
  case (Cons n ns)
  have IH: "\<exists>x. old_archives_loop sub log ns k' w' = Some x" if "archives_gone w w'" for k' w'
    using Cons.IH [OF archives_gone_names [OF that Cons.prems(1)] dirs_fit_later [OF that Cons.prems(2)]] Cons.prems(3) by simp
  show ?case
  proof (cases "real_name n")
    case False
    then show ?thesis using Cons.prems(3) IH by (auto simp: entry_ok_def)
  next
    case True
    then have n: "n \<noteq> ''.''" "n \<noteq> ''..''" "os_lstat (fs w) (slashed log n) = lookup (fs w) (comps log @ [n])"
      by (simp_all add: os_lstat_def real_name_def)
    show ?thesis
    proof (cases "lookup (fs w) (comps log @ [n])")
      case None
      then show ?thesis using n IH by simp
    next
      case (Some nd)
      show ?thesis
      proof (cases nd)
        case (Reg d t)
        obtain ok w1 where u: "on_fs (\<lambda>f. os_unlink f (slashed log n)) w = (ok, w1)" by fastforce
        show ?thesis
        proof (cases "has_suffix ''.tgz'' n")
          case True
          then have "archives_gone w w1" using unlink_archive [OF _ \<open>real_name n\<close> True u] Some Reg by simp
          then show ?thesis using n IH Some Reg u by simp
        qed (use n IH Some Reg in simp)
      next
        case (Dir m)
        then obtain c w1 where "sub (take 511 (slashed log n)) w = Some (c, w1)" "archives_gone w w1"
          using sub Cons.prems(1,2) True Some by blast
        then show ?thesis using n IH Some Dir by simp
      qed (use n IH Some in simp)
    qed
  qed
qed simp

lemma old_archives_total:
  assumes "names_ok (fs w)" "dirs_fit log (fs w)" "511 < length log + 2 * Suc k"
  shows "\<exists>x. old_archives (Suc k) log w = Some x"
  using assms
proof (induction k arbitrary: log w)
  case 0
  have no: "lookup (fs v) (comps log @ [n]) \<noteq> Some (Dir m)" if "dirs_fit log (fs v)" "real_name n" for n m and v :: "'a world"
    using dirs_fit_child(2,3) [OF that(1) _ that(2)] 0(3) by force
  show ?case
  proof (cases "os_readdir (fs w) log")
    case (Some ns)
    then show ?thesis
      using old_archives_loop_total [of log "old_archives 0" w ns 0] no 0(1,2) readdir_entry_ok [OF 0(1) Some] by auto
  qed simp
next
  case (Suc k)
  have sub: "\<exists>c v'. old_archives (Suc k) (take 511 (slashed log n)) v = Some (c, v') \<and> archives_gone v v'"
    if "names_ok (fs v)" "dirs_fit log (fs v)" "real_name n" "lookup (fs v) (comps log @ [n]) = Some (Dir m)" for n m and v :: "'a world"
  proof -
    note c = dirs_fit_child [OF that(2,4,3)]
    have "511 < length (slashed log n) + 2 * Suc k" using c(2) Suc.prems(3) by simp
    from Suc.IH [OF that(1) c(4) this] obtain x where "old_archives (Suc k) (slashed log n) v = Some x" by blast
    then show ?thesis using old_archives_gone [OF that(1)] unfolding c(1) by (metis prod.exhaust)
  qed
  show ?case
  proof (cases "os_readdir (fs w) log")
    case (Some ns)
    have "\<exists>x. old_archives_loop (old_archives (Suc k)) log ns 0 w = Some x"
      using sub Suc.prems(1,2) readdir_entry_ok [OF Suc.prems(1) Some] by (intro old_archives_loop_total) blast+
    then show ?thesis using Some by (simp only: old_archives.simps(2) [of "Suc k"] option.case)
  qed simp
qed

text \<open>
  Claim C31. The clean-up before every strategy, when the paths of the directories below the log directory fit
  the buffer of 512 bytes.  It returns.  It removes nothing but regular files with the suffix
  \<^verbatim>\<open>.tgz\<close>, in the log directory and below.  Of those directly in the log directory it removes all that
  can be unlinked and have a path that fits the buffer, when the log directory is not a symbolic link
  and can be read.
\<close>

theorem only_old_archives_removed:
  fixes w :: "'n world"
  assumes "names_ok (fs w)" "dirs_fit log (fs w)"
  shows "\<exists>r w'. cleanup_old_archives log w = Some (r, w') \<and>
    (\<forall>p. lookup (fs w') p = lookup (fs w) p \<or>
      (lookup (fs w') p = None \<and> (\<exists>d t. lookup (fs w) p = Some (Reg d t)) \<and> has_suffix ''.tgz'' (last p))) \<and>
    (\<forall>n d t. resolve (fs w) log = Some (comps log) \<longrightarrow> os_readdir (fs w) log \<noteq> None \<longrightarrow>
       lookup (fs w) (comps log @ [n]) = Some (Reg d t) \<longrightarrow> has_suffix ''.tgz'' n \<longrightarrow>
       \<not> too_long (slashed log n) \<longrightarrow> \<not> List.member (denied (fs w)) (comps log @ [n]) \<longrightarrow>
       lookup (fs w') (comps log @ [n]) = None)"
proof -
  obtain r w' where a: "old_archives (Suc 299) log w = Some (r, w')"
    using old_archives_total [OF assms, of 299] by force
  have "archives_gone w w'" by (rule old_archives_gone [OF assms(1) a])
  moreover have "lookup (fs w') (comps log @ [n]) = None"
    if h: "resolve (fs w) log = Some (comps log)" "os_readdir (fs w) log \<noteq> None"
      "lookup (fs w) (comps log @ [n]) = Some (Reg d t)" "has_suffix ''.tgz'' n"
      "\<not> too_long (slashed log n)" "\<not> List.member (denied (fs w)) (comps log @ [n])" for n d t
  proof -
    obtain ns where ns: "os_readdir (fs w) log = Some ns" using h(2) by blast
    have "real_name n" using assms(1) h(3) by (auto simp: names_ok_lookup)
    then have "n \<in> set ns" using readdir_names [OF ns h(1)] h(3) by simp
    moreover have "old_archives_loop (old_archives 299) log ns 0 w = Some (r, w')"
      using a ns by (simp only: old_archives.simps option.case)
    moreover have "old_archive (fs w) log n" using h(3-6) by (simp add: old_archive_def)
    moreover have "\<forall>p v r v'. names_ok (fs v) \<longrightarrow> old_archives 299 p v = Some (r, v') \<longrightarrow> archives_gone v (v' :: 'n world)"
      using old_archives_gone by blast
    ultimately show ?thesis
      using old_archives_loop_gone [OF _ assms(1) readdir_entry_ok [OF assms(1) ns]] by blast
  qed
  moreover have "cleanup_old_archives log w = Some (r, w')" using a by (simp add: cleanup_old_archives_def)
  ultimately show ?thesis unfolding archives_gone_def by blast
qed

lemma log_world_dirs_fit: "dirs_fit ''/opt/logs'' (fs log_world)"
  by (auto simp: dirs_fit_def log_world_facts(5) log_world_def sample_world_def log_tree_def lookup_def split: if_splits)

theorem only_old_archives_removed_witness:
  "\<exists>r w'. cleanup_old_archives ''/opt/logs'' log_world = Some (r, w') \<and>
     lookup (fs w') [''opt'', ''logs'', ''c.tgz''] = None \<and>
     lookup (fs w') [''opt'', ''logs'', ''.b''] = Some (Reg ''kept'' 0)"
proof -
  have t: "has_suffix ''.tgz'' ''c.tgz''" "\<not> has_suffix ''.tgz'' ''.b''" "\<not> too_long (slashed ''/opt/logs'' ''c.tgz'')"
    by code_simp+
  obtain r w' where c: "cleanup_old_archives ''/opt/logs'' log_world = Some (r, w')"
    and e1: "\<forall>p. lookup (fs w') p = lookup (fs log_world) p \<or>
      (lookup (fs w') p = None \<and> (\<exists>d t. lookup (fs log_world) p = Some (Reg d t)) \<and> has_suffix ''.tgz'' (last p))"
    and e2: "\<forall>n d t. resolve (fs log_world) ''/opt/logs'' = Some (comps ''/opt/logs'') \<longrightarrow> os_readdir (fs log_world) ''/opt/logs'' \<noteq> None \<longrightarrow>
       lookup (fs log_world) (comps ''/opt/logs'' @ [n]) = Some (Reg d t) \<longrightarrow> has_suffix ''.tgz'' n \<longrightarrow>
       \<not> too_long (slashed ''/opt/logs'' n) \<longrightarrow> \<not> List.member (denied (fs log_world)) (comps ''/opt/logs'' @ [n]) \<longrightarrow>
       lookup (fs w') (comps ''/opt/logs'' @ [n]) = None"
    using only_old_archives_removed [OF log_world_facts(1) log_world_dirs_fit] by blast
  have "lookup (fs w') (comps ''/opt/logs'' @ [''c.tgz'']) = None"
    using e2 log_world_facts(3-5) t log_world_lookup by simp
  moreover have "lookup (fs w') [''opt'', ''logs'', ''.b''] = Some (Reg ''kept'' 0)"
    using spec [OF e1, of "[''opt'', ''logs'', ''.b'']"] t log_world_lookup by simp
  ultimately show ?thesis using c log_world_facts(5) by auto
qed

subsection \<open>Backups\<close>

lemma dec2_digits:
  assumes "0 \<le> n" "n < 100"
  shows "\<exists>a b. dec2 n = [a, b] \<and> isdigit a \<and> isdigit b"
proof -
  have "isdigit (char_of (48 + k) :: char)" if "0 \<le> k" "k < 10" for k :: int
  proof -
    from that have "k = 0 \<or> k = 1 \<or> k = 2 \<or> k = 3 \<or> k = 4 \<or> k = 5 \<or> k = 6 \<or> k = 7 \<or> k = 8 \<or> k = 9" by presburger
    then show ?thesis by (elim disjE) (simp_all add: char_of_def isdigit_def)
  qed
  moreover have "0 \<le> n div 10" "n div 10 < 10" "0 \<le> n mod 10" "n mod 10 < 10"
    using assms by (simp_all add: div_less_iff_less_mult)
  ultimately show ?thesis by (simp add: dec2_def)
qed

lemma stamp_form:
  assumes "gmtime_r s = Some t"
  obtains a b c d e f g h i j x where
    "stamp t = [a, b] @ ''-'' @ [c, d] @ ''-'' @ [e, f] @ ''-'' @ [g, h] @ ''-'' @ [i, j] @ x"
    "list_all isdigit [a, b, c, d, e, f, g, h, i, j]" "x = ''AM'' \<or> x = ''PM''"
proof -
  have t: "t = civil s" using assms by (simp add: gmtime_r_def Let_def split: if_splits)
  have m: "0 \<le> tm_mon t + 1" "tm_mon t + 1 < 100" and d: "0 \<le> tm_mday t" "tm_mday t < 100"
    using day_mon_bounds [of "day_number s"] day_mday_bounds [of "day_number s"] by (simp_all add: t)
  have y: "0 \<le> tm_year t mod 100" "tm_year t mod 100 < 100" by simp_all
  have h: "0 \<le> (if tm_hour t mod 12 = 0 then 12 else tm_hour t mod 12)"
    "(if tm_hour t mod 12 = 0 then 12 else tm_hour t mod 12) < 100"
    using pos_mod_bound [of 12 "tm_hour t"] pos_mod_sign [of 12 "tm_hour t"] by auto
  have n: "0 \<le> tm_min t" "tm_min t < 100"
    using pos_mod_bound [of 60 "s div 60"] by (simp_all add: t)
  obtain a b where 1: "dec2 (tm_mon t + 1) = [a, b]" "isdigit a" "isdigit b" using dec2_digits [OF m] by auto
  obtain c d' where 2: "dec2 (tm_mday t) = [c, d']" "isdigit c" "isdigit d'" using dec2_digits [OF d] by auto
  obtain e f where 3: "dec2 (tm_year t mod 100) = [e, f]" "isdigit e" "isdigit f" using dec2_digits [OF y] by auto
  obtain g h' where 4: "dec2 (if tm_hour t mod 12 = 0 then 12 else tm_hour t mod 12) = [g, h']" "isdigit g" "isdigit h'"
    using dec2_digits [OF h] by auto
  obtain i j where 5: "dec2 (tm_min t) = [i, j]" "isdigit i" "isdigit j" using dec2_digits [OF n] by auto
  show thesis
    by (rule that [of a b c d' e f g h' i j "if tm_hour t < 12 then ''AM'' else ''PM''"])
      (use 1 2 3 4 5 in \<open>simp_all add: stamp_def\<close>)
qed

lemma match_groups_two:
  "isdigit a \<Longrightarrow> isdigit b \<Longrightarrow> match_groups (Suc k) (a # b # CHR ''-'' # r) = match_groups k r"
  by (simp add: isdigit_def)

lemma match_groups_last:
  "isdigit a \<Longrightarrow> isdigit b \<Longrightarrow> \<not> isdigit c \<Longrightarrow> match_groups 0 (a # b # c # r) = Some (c # r)"
  by simp

text \<open>
  Every name the tool gives to a backup directory, the time stamp in UTC followed by
  \<^verbatim>\<open>-logbackup\<close>, is one that the later removal of old backups recognises, for every time at which the
  C library can make the stamp.
\<close>

lemma backup_name_recognised:
  assumes "gmtime_r s = Some t"
  shows "is_timestamped_backup (stamp t @ ''-logbackup'')"
proof -
  obtain a b c d e f g h i j x where
    f: "stamp t = [a, b] @ ''-'' @ [c, d] @ ''-'' @ [e, f] @ ''-'' @ [g, h] @ ''-'' @ [i, j] @ x"
    "list_all isdigit [a, b, c, d, e, f, g, h, i, j]" "x = ''AM'' \<or> x = ''PM''"
    by (rule stamp_form [OF assms])
  have nd: "\<not> isdigit (CHR ''A'')" "\<not> isdigit (CHR ''P'')" by (simp_all add: isdigit_def)
  have d: "isdigit a" "isdigit b" "isdigit c" "isdigit d" "isdigit e" "isdigit f" "isdigit g" "isdigit h"
    "isdigit i" "isdigit j" using f(2) by simp_all
  have "match_groups (Suc (Suc (Suc (Suc 0)))) (stamp t @ ''-logbackup'') = match_groups 0 (i # j # x @ ''-logbackup'')"
    by (simp only: f(1) append_Cons append_Nil append_assoc match_groups_two d)
  moreover have "match_groups 0 (i # j # x @ ''-logbackup'') = Some (x @ ''-logbackup'')"
    using f(3) by (rule disjE) (simp_all only: append_Cons append_Nil match_groups_last d nd not_False_eq_True)
  ultimately have "match_groups (Suc (Suc (Suc (Suc 0)))) (stamp t @ ''-logbackup'') = Some (x @ ''-logbackup'')"
    by (rule trans)
  moreover have "4 = Suc (Suc (Suc (Suc 0)))" by simp
  ultimately have "match_here (stamp t @ ''-logbackup'')"
    using f(3) by (simp only: match_here_def option.case) (auto simp: match_tail_def)
  then show ?thesis
    by (simp add: is_timestamped_backup_def f(1))
qed

subsection \<open>Block markers\<close>

text \<open>
  Claim C33. After an upload that succeeded through CodeBig or the fallback, the direct path counts as
  blocked until the block time that the reader uses has passed since the marker was written, and the
  marker is then removed; the duration written into the marker plays no part.
\<close>

theorem codebig_success_blocks_direct:
  assumes "success s" "used_fallback s \<or> 0 < codebig_attempts s"
    and "resolve (fs w) direct_block_file = Some (comps direct_block_file)" "writable (fs w) (comps direct_block_file)"
    and "fs v = fs (update_block_markers s w)"
  shows "if clock v - clock w \<le> block_secs then is_direct_blocked block_secs v = (True, v)
    else fst (is_direct_blocked block_secs v) = False \<and>
      lookup (fs (snd (is_direct_blocked block_secs v))) (comps direct_block_file) = None"
proof -
  let ?p = "comps direct_block_file"
  have np: "?p \<noteq> []" using assms(4) by (simp add: writable_def)
  obtain body where f: "fs v = put (fs w) ?p (Reg body (clock w))"
    using assms by (auto simp: update_block_markers_def create_block_marker_def Let_def os_write_def
        os_write_at_eq direct_block_file_def)
  have nd: "\<not> List.member (denied (fs v)) ?p" using assms(4) by (simp add: writable_def f)
  have l: "lookup (fs v) ?p = Some (Reg body (clock w))" by (simp add: f)
  have o: "os_open_nofollow (fs v) direct_block_file = Some (Reg body (clock w))"
    using nd l np by (simp add: os_open_nofollow_def os_lstat_def)
  have u: "os_unlink (fs v) direct_block_file = Inr (del (fs v) ?p)"
    using nd l np by (simp add: os_unlink_def Let_def is_dir_def)
  show ?thesis by (simp add: is_direct_blocked_def is_blocked_def o u)
qed

definition marker_world :: "script world" where
  "marker_world = sample_world quiet_script [([''tmp''], Dir 0)]"

theorem codebig_success_blocks_direct_witness:
  "fst (is_direct_blocked 86400 ((update_block_markers (zero_session\<lparr>success := True, codebig_attempts := 1\<rparr>)
     marker_world)\<lparr>clock := 1700086400\<rparr>)) = True"
proof -
  have "resolve (fs marker_world) direct_block_file = Some (comps direct_block_file)"
    "writable (fs marker_world) (comps direct_block_file)"
    unfolding writable_def by code_simp+
  moreover have "clock marker_world = 1700000000" by (simp add: marker_world_def sample_world_def)
  ultimately show ?thesis
    using codebig_success_blocks_direct [of "zero_session\<lparr>success := True, codebig_attempts := 1\<rparr>" marker_world
        "(update_block_markers (zero_session\<lparr>success := True, codebig_attempts := 1\<rparr>) marker_world)\<lparr>clock := 1700086400\<rparr>" 86400]
    by (simp add: zero_session_def)
qed

end
