(* ===== verification/BackupProps.thy ===== *)
theory BackupProps
  imports BackupLogs CleanupProps
begin

text \<open>
  The backup without a hard disk keeps four generations of logs in one directory, told apart by
  the prefixes of their names.  This theory states the rotation of the generations abstractly and
  proves that the moves of files implement it.
\<close>

subsection \<open>Generations\<close>

text \<open>The prefix of a generation; the logs of the boot that has just begun to end, number 4, are in a
  directory of their own.\<close>

definition bak :: "nat \<Rightarrow> string" where
  "bak g = (if g = 1 then ''bak1_'' else if g = 2 then ''bak2_'' else if g = 3 then ''bak3_'' else [])"

definition tracked :: "string \<Rightarrow> bool" where
  "tracked n = (real_name n \<and> \<not> is_prefix ''bak1_'' n \<and> \<not> is_prefix ''bak2_'' n \<and> \<not> is_prefix ''bak3_'' n \<and>
     n \<noteq> ''last_reboot'' \<and> \<not> active_log n)"

type_synonym generations = "nat \<Rightarrow> string \<Rightarrow> cstring option"

text \<open>All logs of one generation join another and replace those of the same name there.\<close>

definition shift :: "nat \<Rightarrow> nat \<Rightarrow> generations \<Rightarrow> generations" where
  "shift a b G = G(b := G b ++ G a, a := Map.empty)"

text \<open>The first generation that has no system log receives the new logs; when there is none, every
  generation moves up by one.\<close>

definition rotate_with ::
  "(nat \<Rightarrow> nat \<Rightarrow> 'w \<Rightarrow> 'w) \<Rightarrow> (nat \<Rightarrow> 'w \<Rightarrow> bool) \<Rightarrow> 'w \<Rightarrow> 'w" where
  "rotate_with move present w =
     (if \<not> present 0 w then move 4 0 w
      else if \<not> present 1 w then move 4 1 w
      else if \<not> present 2 w then move 4 2 w
      else if \<not> present 3 w then move 4 3 w
      else move 4 3 (move 3 2 (move 2 1 (move 1 0 w))))"

definition has_system_log :: "nat \<Rightarrow> generations \<Rightarrow> bool" where
  "has_system_log g G = (G g ''messages.txt'' \<noteq> None)"

definition rotate_gens :: "generations \<Rightarrow> generations" where
  "rotate_gens G = rotate_with shift has_system_log G"

text \<open>What a store of generations has to provide for the rotation.\<close>

locale generation_store =
  fixes inv :: "'w \<Rightarrow> bool"
    and gens :: "'w \<Rightarrow> generations"
    and move :: "nat \<Rightarrow> nat \<Rightarrow> 'w \<Rightarrow> 'w"
    and present :: "nat \<Rightarrow> 'w \<Rightarrow> bool"
  assumes move_ok: "inv w \<Longrightarrow> b < 4 \<Longrightarrow> b < a \<Longrightarrow> a \<le> 4 \<Longrightarrow> inv (move a b w) \<and> gens (move a b w) = shift a b (gens w)"
    and present_ok: "inv w \<Longrightarrow> g < 4 \<Longrightarrow> present g w = has_system_log g (gens w)"
begin

lemma rotation:
  assumes "inv w"
  shows "inv (rotate_with move present w) \<and> gens (rotate_with move present w) = rotate_gens (gens w)"
proof -
  note m = move_ok [THEN conjunct1] move_ok [THEN conjunct2]
  have "inv (move 1 0 w)" "inv (move 2 1 (move 1 0 w))" "inv (move 3 2 (move 2 1 (move 1 0 w)))"
    using assms by (simp_all add: m)
  then show ?thesis
    using assms by (simp add: rotate_with_def rotate_gens_def present_ok m)
qed

end

subsection \<open>The directories\<close>

definition file_text :: "fsys \<Rightarrow> path \<Rightarrow> cstring option" where
  "file_text f p = (case lookup f p of None \<Rightarrow> None
     | Some n \<Rightarrow> (case n of Reg d m \<Rightarrow> Some d | Dir m \<Rightarrow> None | Lnk t m \<Rightarrow> None))"

definition slot_path :: "cstring \<Rightarrow> cstring \<Rightarrow> nat \<Rightarrow> string \<Rightarrow> path" where
  "slot_path log prev g n = (if g = 4 then comps log @ [n] else comps prev @ [bak g @ n])"

definition disk_gens :: "cstring \<Rightarrow> cstring \<Rightarrow> 'n world \<Rightarrow> generations" where
  "disk_gens log prev w g n = (if tracked n \<and> g \<le> 4 then file_text (fs w) (slot_path log prev g n) else None)"

text \<open>The log directory has logs and sub-directories, the directory of previous logs only logs of the
  four generations and the marker of the last boot; no path reaches the limit of the buffers.\<close>

definition log_entry_ok :: "cstring \<Rightarrow> cstring \<Rightarrow> string \<Rightarrow> node \<Rightarrow> bool" where
  "log_entry_ok log prev n x =
     (case x of Reg d m \<Rightarrow> (tracked n \<or> active_log n) \<and> length log + length n + 8 < PATH_MAX \<and>
                           length prev + length n + 8 < PATH_MAX
      | Dir m \<Rightarrow> True | Lnk t m \<Rightarrow> False)"

definition prev_entry_ok :: "cstring \<Rightarrow> string \<Rightarrow> node \<Rightarrow> bool" where
  "prev_entry_ok prev n x =
     (is_reg x \<and> (n = ''last_reboot'' \<or> (\<exists>g<4. \<exists>m. n = bak g @ m \<and> tracked m)) \<and> length prev + length n + 2 < PATH_MAX)"

definition store_ok :: "cstring \<Rightarrow> cstring \<Rightarrow> fsys \<Rightarrow> bool" where
  "store_ok log prev f =
     (denied f = [] \<and> names_ok f \<and> comps log \<noteq> [] \<and> comps prev \<noteq> [] \<and> comps log \<noteq> comps prev \<and>
      is_dir_at f (comps log) \<and> is_dir_at f (comps prev) \<and>
      length log + 8 < PATH_MAX \<and> length prev + 20 < PATH_MAX \<and>
      (\<forall>n x. lookup f (comps log @ [n]) = Some x \<longrightarrow> log_entry_ok log prev n x) \<and>
      (\<forall>n x. lookup f (comps prev @ [n]) = Some x \<longrightarrow> prev_entry_ok prev n x))"

definition store_inv :: "'n externals \<Rightarrow> cstring \<Rightarrow> cstring \<Rightarrow> 'n world \<Rightarrow> bool" where
  "store_inv E log prev w = (copy_utility E \<and> file_utilities E \<and> store_ok log prev (fs w))"

definition slot_dir :: "cstring \<Rightarrow> cstring \<Rightarrow> nat \<Rightarrow> cstring" where
  "slot_dir log prev g = (if g = 4 then log else prev)"

definition disk_move :: "'n externals \<Rightarrow> cstring \<Rightarrow> cstring \<Rightarrow> nat \<Rightarrow> nat \<Rightarrow> 'n world \<Rightarrow> 'n world" where
  "disk_move E log prev a b w =
     snd (backup_and_recover_logs E (slot_dir log prev a @ ''/'') (prev @ ''/'') BACKUP_OP_MOVE (bak a) (bak b) w)"

definition disk_present :: "'n externals \<Rightarrow> cstring \<Rightarrow> nat \<Rightarrow> 'n world \<Rightarrow> bool" where
  "disk_present E prev g w = (filePresentCheck E (outer_of w) (slashed prev (bak g @ ''messages.txt'')) = 0)"

lemma rotate_logs_moves:
  "rotate_logs E c w =
     rotate_with (disk_move E (bk_log_path c) (bk_prev_log_path c)) (disk_present E (bk_prev_log_path c)) w"
  by (simp add: rotate_logs_def rotate_with_def disk_move_def disk_present_def slot_dir_def bak_def Let_def)

lemma tracked_messages: "tracked ''messages.txt''"
  by (simp add: tracked_def real_name_def active_log_def)

lemma bak_eq:
  assumes "tracked n" "tracked m" "a \<le> 4" "b \<le> 4" "bak a @ n = bak b @ m"
  shows "n = m \<and> (a = b \<or> {a, b} = {0, 4})"
proof -
  have "a \<in> {0, 1, 2, 3, 4}" "b \<in> {0, 1, 2, 3, 4}" using assms(3,4) by auto
  then show ?thesis using assms(1,2,5) by (auto simp: bak_def tracked_def is_prefix_iff)
qed

lemma slot_path_eq:
  assumes "comps log \<noteq> comps prev" "tracked n" "tracked m" "a \<le> 4" "b \<le> 4"
  shows "slot_path log prev a n = slot_path log prev b m \<longleftrightarrow> a = b \<and> n = m"
proof (cases "a = 4 \<or> b = 4")
  case True
  then show ?thesis using assms(1) by (auto simp: slot_path_def)
next
  case False
  then show ?thesis using bak_eq [OF assms(2-5)] by (auto simp: slot_path_def)
qed

subsection \<open>Moving one log\<close>

lemma set_outer_fs [simp]: "set_outer ((outer_of w)\<lparr>fs := g\<rparr>) w = w\<lparr>fs := g\<rparr>"
  by (simp add: set_outer_def outer_of_def)

lemma set_outer_same [simp]: "set_outer (outer_of w) w = w"
  by (simp add: set_outer_def outer_of_def)

lemma is_dir_at_del: "is_dir_at (del f p) q = (q = [] \<or> (q \<noteq> p \<and> is_dir_at f q))"
  by (simp add: is_dir_at_def)

lemma is_dir_at_lookup: "is_dir_at f p \<Longrightarrow> p \<noteq> [] \<Longrightarrow> \<exists>m. lookup f p = Some (Dir m)"
  by (auto simp: is_dir_at_def is_dir_def split: option.splits node.splits)

lemma move_file:
  assumes "copy_utility E" "lookup (fs w) (comps s) = Some (Reg d m)" "denied (fs w) = []"
    and "resolve (fs w) t = Some q" "writable (fs w) q" "comps s \<noteq> q" "comps s \<noteq> []"
  shows "recover_one E BACKUP_OP_MOVE s t w =
    (True, w\<lparr>fs := del (put (fs w) q (Reg d (clock w))) (comps s)\<rparr>)"
proof -
  have "resolve (fs w) s = Some (comps s)" by (rule resolve_plain) (simp add: assms(2))
  then have "os_read (fs w) s = Some d" using assms(2,3,7) by (simp add: os_read_def)
  moreover have "os_write (fs w) t d (clock w) = Some (put (fs w) q (Reg d (clock w)))"
    using assms(4,5) by (simp add: os_write_Some)
  ultimately have "xcall (copyFiles E s t) w = (0, w\<lparr>fs := put (fs w) q (Reg d (clock w))\<rparr>)"
    using assms(1) by (simp add: xcall_def copy_utility_def)
  then show ?thesis
    using assms(2,3,6,7)
    by (simp add: recover_one_def remove_path_def on_fs_def os_remove_def os_lstat_def os_unlink_def is_dir_def)
qed

lemma real_bak: "tracked n \<Longrightarrow> g < 4 \<Longrightarrow> real_name (bak g @ n)"
  by (auto simp: tracked_def real_name_def bak_def)

lemma bak_length: "length (bak g) \<le> 5"
  by (simp add: bak_def)

lemma store_entry:
  assumes "store_ok log prev f"
  shows "lookup f (comps log @ [n]) = Some x \<Longrightarrow> log_entry_ok log prev n x"
    "lookup f (comps prev @ [n]) = Some x \<Longrightarrow> prev_entry_ok prev n x"
    "is_dir_at f (comps log)" "is_dir_at f (comps prev)" "comps log \<noteq> []" "comps prev \<noteq> []" "comps log \<noteq> comps prev"
  using assms by (simp_all add: store_ok_def)

lemma store_no_link:
  assumes "store_ok log prev f"
  shows "lookup f (comps log @ [n]) \<noteq> Some (Lnk t m)" "lookup f (comps prev @ [n]) \<noteq> Some (Lnk t m)"
    "lookup f (comps prev @ [n]) \<noteq> Some (Dir m)"
  using store_entry(1) [OF assms, of n "Lnk t m"] store_entry(2) [OF assms, of n]
  by (auto simp: log_entry_ok_def prev_entry_ok_def is_reg_def)

lemma slot_name:
  assumes "tracked n" "g \<le> 4"
  shows "comps (slashed (slot_dir log prev g) (bak g @ n)) = slot_path log prev g n"
  using assms real_bak [of n g] by (cases "g = 4") (auto simp: slot_dir_def slot_path_def bak_def tracked_def)

lemma store_ok_move:
  assumes ok: "store_ok log prev f" and ab: "b < a" "a \<le> 4" and n: "tracked n"
    and p: "lookup f (slot_path log prev a n) = Some (Reg d m)"
  shows "store_ok log prev (del (put f (slot_path log prev b n) (Reg d t)) (slot_path log prev a n))"
    (is "store_ok log prev ?g")
proof -
  let ?q = "comps prev @ [bak b @ n]"
  have q: "slot_path log prev b n = ?q" using ab by (simp add: slot_path_def)
  obtain ml mp where d: "lookup f (comps log) = Some (Dir ml)" "lookup f (comps prev) = Some (Dir mp)"
    using is_dir_at_lookup [OF store_entry(3) [OF ok] store_entry(5) [OF ok]]
      is_dir_at_lookup [OF store_entry(4) [OF ok] store_entry(6) [OF ok]] by blast
  have nq: "comps log \<noteq> ?q" "comps prev \<noteq> ?q" using d store_no_link(3) [OF ok] by auto
  have np: "comps log \<noteq> slot_path log prev a n" "comps prev \<noteq> slot_path log prev a n" using d p by auto
  have real: "list_all real_name ?q"
    using ok d(2) real_bak [OF n, of b] ab by (auto simp: store_ok_def names_ok_lookup)
  have "length prev + length (bak b @ n) + 2 < PATH_MAX"
  proof (cases "a = 4")
    case True
    then have "log_entry_ok log prev n (Reg d m)" using ok p by (auto simp: store_ok_def slot_path_def)
    then show ?thesis using bak_length [of b] by (simp add: log_entry_ok_def)
  next
    case False
    then have "prev_entry_ok prev (bak a @ n) (Reg d m)" using ok p ab by (auto simp: store_ok_def slot_path_def)
    moreover have "length (bak b) \<le> length (bak a)" using ab False by (auto simp: bak_def)
    ultimately show ?thesis by (simp add: prev_entry_ok_def)
  qed
  then have "prev_entry_ok prev (bak b @ n) (Reg d t)"
    using n ab by (auto simp: prev_entry_ok_def is_reg_def intro!: exI [of _ b])
  moreover have "names_ok ?g"
    using ok real unfolding q store_ok_def names_ok_lookup by auto
  ultimately show ?thesis
    using ok nq np unfolding q by (auto simp: store_ok_def is_dir_at_del is_dir_at_put_reg)
qed

lemma move_slot:
  fixes w :: "'n world"
  assumes inv: "store_inv E log prev w" and ab: "b < a" "a \<le> 4" and n: "tracked n"
    and p: "lookup (fs w) (slot_path log prev a n) = Some (Reg d m)"
  shows "\<exists>v. recover_one E BACKUP_OP_MOVE (slashed (slot_dir log prev a) (bak a @ n)) (slashed prev (bak b @ n)) w = (True, v) \<and>
    store_inv E log prev v \<and>
    (\<forall>g k. disk_gens log prev v g k =
       (if k = n \<and> g = a then None else if k = n \<and> g = b then Some d else disk_gens log prev w g k))"
proof -
  let ?p = "slot_path log prev a n" and ?q = "slot_path log prev b n"
  let ?v = "w\<lparr>fs := del (put (fs w) ?q (Reg d (clock w))) ?p\<rparr>"
  have ok: "store_ok log prev (fs w)" and E: "copy_utility E" "file_utilities E"
    using inv by (simp_all add: store_inv_def)
  have q: "comps (slashed prev (bak b @ n)) = ?q" using slot_name [OF n, of b log prev] ab by (simp add: slot_dir_def)
  have "resolve (fs w) (slashed prev (bak b @ n)) = Some ?q"
    unfolding q [symmetric] by (rule resolve_plain) (use q store_no_link(2) [OF ok] ab in \<open>auto simp: slot_path_def\<close>)
  moreover have "writable (fs w) ?q"
    using ok store_no_link(3) [OF ok] ab
    by (auto simp: writable_def slot_path_def store_ok_def is_dir_at_def [of _ "_ @ _"] is_dir_def split: option.splits node.splits)
  moreover have ne: "?p \<noteq> ?q" using slot_path_eq [of log prev n n a b] ok n ab by (auto simp: store_ok_def)
  moreover have "?p \<noteq> []" by (simp add: slot_path_def)
  moreover have s: "comps (slashed (slot_dir log prev a) (bak a @ n)) = ?p" by (rule slot_name [OF n ab(2)])
  moreover have "denied (fs w) = []" using ok by (simp add: store_ok_def)
  ultimately have "recover_one E BACKUP_OP_MOVE (slashed (slot_dir log prev a) (bak a @ n)) (slashed prev (bak b @ n)) w = (True, ?v)"
    using move_file [OF E(1), of w "slashed (slot_dir log prev a) (bak a @ n)" d m "slashed prev (bak b @ n)" ?q, unfolded s] p
    by blast
  moreover have "store_inv E log prev ?v"
    using store_ok_move [OF ok ab n p] E by (simp add: store_inv_def)
  moreover have "disk_gens log prev ?v g k =
       (if k = n \<and> g = a then None else if k = n \<and> g = b then Some d else disk_gens log prev w g k)" for g k
  proof (cases "tracked k \<and> g \<le> 4")
    case False
    then show ?thesis using n ab by (auto simp: disk_gens_def)
  next
    case True
    then have "slot_path log prev g k = ?p \<longleftrightarrow> g = a \<and> k = n" "slot_path log prev g k = ?q \<longleftrightarrow> g = b \<and> k = n"
      using slot_path_eq [of log prev k n g] ok n ab by (auto simp: store_ok_def)
    then show ?thesis using True by (auto simp: disk_gens_def file_text_def)
  qed
  ultimately show ?thesis by blast
qed

subsection \<open>Moving a generation\<close>

definition selected :: "cstring \<Rightarrow> string \<Rightarrow> string \<Rightarrow> fsys \<Rightarrow> bool" where
  "selected dir ext x f =
     (x \<noteq> ''.'' \<and> x \<noteq> ''..'' \<and> \<not> active_log x \<and> length (slashed dir x) < PATH_MAX \<and>
      regular_entry f (slashed dir x) \<and> is_prefix ext x)"

lemma bak_decode:
  assumes "is_prefix (bak a) (bak g @ m)" "tracked m" "g < 4" "0 < a" "a < 4"
  shows "g = a"
proof -
  have "a \<in> {1, 2, 3}" "g \<in> {0, 1, 2, 3}" using assms(3-5) by auto
  then show ?thesis using assms(1,2) by (auto simp: bak_def tracked_def)
qed

lemma disk_gens_Some:
  "disk_gens log prev w g n = Some d \<longleftrightarrow>
     tracked n \<and> g \<le> 4 \<and> (\<exists>m. lookup (fs w) (slot_path log prev g n) = Some (Reg d m))"
  by (auto simp: disk_gens_def file_text_def split: option.splits node.splits)

lemma entry_selected:
  assumes ok: "store_ok log prev (fs w)" and a: "0 < a" "a \<le> 4" and x: "entry_ok x"
  shows "selected (slot_dir log prev a) (bak a) x (fs w) \<longleftrightarrow>
    (\<exists>n. tracked n \<and> x = bak a @ n \<and> disk_gens log prev w a n \<noteq> None)"
proof
  assume sel: "selected (slot_dir log prev a) (bak a) x (fs w)"
  then have rx: "real_name x" using x by (auto simp: selected_def entry_ok_def)
  have nl: "lookup (fs w) (comps (slot_dir log prev a) @ [x]) \<noteq> Some (Lnk t m)" for t m
    using store_no_link [OF ok] by (auto simp: slot_dir_def)
  have "\<exists>d m. lookup (fs w) (comps (slot_dir log prev a) @ [x]) = Some (Reg d m)"
    using sel rx nl by (auto simp: selected_def regular_entry_def os_lstat_def split: option.splits node.splits)
  then obtain d m where l: "lookup (fs w) (comps (slot_dir log prev a) @ [x]) = Some (Reg d m)" by blast
  show "\<exists>n. tracked n \<and> x = bak a @ n \<and> disk_gens log prev w a n \<noteq> None"
  proof (cases "a = 4")
    case True
    with l store_entry(1) [OF ok, of x] sel have "tracked x"
      by (auto simp: slot_dir_def log_entry_ok_def selected_def)
    with l True show ?thesis by (auto simp: disk_gens_def file_text_def slot_path_def slot_dir_def bak_def)
  next
    case False
    with l store_entry(2) [OF ok, of x] have "x = ''last_reboot'' \<or> (\<exists>g<4. \<exists>m. x = bak g @ m \<and> tracked m)"
      by (auto simp: slot_dir_def prev_entry_ok_def)
    moreover have "x \<noteq> ''last_reboot''" using sel a False by (auto simp: selected_def bak_def split: if_splits)
    ultimately obtain g n where g: "g < 4" "x = bak g @ n" "tracked n" by blast
    then have "g = a" using sel a False bak_decode [of a g n] by (simp add: selected_def)
    with l False g show ?thesis by (auto simp: disk_gens_def file_text_def slot_path_def slot_dir_def)
  qed
next
  assume "\<exists>n. tracked n \<and> x = bak a @ n \<and> disk_gens log prev w a n \<noteq> None"
  then obtain n where n: "tracked n" "x = bak a @ n" "disk_gens log prev w a n \<noteq> None" by blast
  then obtain d m where l: "lookup (fs w) (slot_path log prev a n) = Some (Reg d m)"
    by (auto simp: disk_gens_Some)
  have rx: "real_name x" using n(1,2) real_bak [of n a] a by (cases "a = 4") (auto simp: bak_def tracked_def)
  have "comps (slashed (slot_dir log prev a) x) = slot_path log prev a n"
    unfolding n(2) by (rule slot_name [OF n(1) a(2)])
  then have "regular_entry (fs w) (slashed (slot_dir log prev a) x)"
    using l by (auto simp: regular_entry_def os_lstat_def slot_path_def)
  moreover have "length (slashed (slot_dir log prev a) x) < PATH_MAX"
    using l store_entry(1) [OF ok, of n "Reg d m"] store_entry(2) [OF ok, of x "Reg d m"] n(2)
    by (cases "a = 4") (auto simp: slot_path_def slot_dir_def slashed_def log_entry_ok_def prev_entry_ok_def bak_def)
  moreover have "\<not> active_log x" using n(1,2) a by (auto simp: bak_def tracked_def active_log_def)
  ultimately show "selected (slot_dir log prev a) (bak a) x (fs w)"
    using rx n(2) by (auto simp: selected_def real_name_def is_prefix_iff)
qed

lemma remaining_slot: "remaining_path (dir @ ''/'') (bak a) (bak a @ n) = n"
  by (simp add: remaining_path_def is_prefix_iff)

lemma recover_loop_step:
  "recover_loop E (dir @ ''/'') dest op ext d_ext (x # ns) i j w =
     (if \<not> selected dir ext x (fs w) then recover_loop E (dir @ ''/'') dest op ext d_ext ns i j w
      else let dest_file = dest @ d_ext @ remaining_path (dir @ ''/'') ext x in
        if PATH_MAX \<le> length dest_file then recover_loop E (dir @ ''/'') dest op ext d_ext ns (Suc i) j w
        else case recover_one E op (slashed dir x) dest_file w of (ok, w1) \<Rightarrow>
          recover_loop E (dir @ ''/'') dest op ext d_ext ns (Suc i) (if ok then Suc j else j) w1)"
  by (auto simp: selected_def slashed_def Let_def split: prod.splits)

lemma dest_fits:
  assumes ok: "store_ok log prev f" and ab: "b < a" "a \<le> 4" and l: "lookup f (slot_path log prev a n) = Some (Reg d m)"
  shows "length (slashed prev (bak b @ n)) < PATH_MAX"
proof (cases "a = 4")
  case True
  then show ?thesis using store_entry(1) [OF ok, of n "Reg d m"] l bak_length [of b]
    by (simp add: slot_path_def log_entry_ok_def slashed_def)
next
  case False
  have "length (bak b) \<le> length (bak a)" using ab False by (auto simp: bak_def)
  then show ?thesis using store_entry(2) [OF ok, of "bak a @ n" "Reg d m"] l False
    by (simp add: slot_path_def prev_entry_ok_def slashed_def)
qed

lemma recover_loop_gens:
  fixes w :: "'n world"
  assumes "store_inv E log prev w" "b < a" "a \<le> 4" "list_all entry_ok ns"
  shows "store_inv E log prev (snd (snd (recover_loop E (slot_dir log prev a @ ''/'') (prev @ ''/'') BACKUP_OP_MOVE (bak a) (bak b) ns i j w))) \<and>
    (\<forall>g n. disk_gens log prev (snd (snd (recover_loop E (slot_dir log prev a @ ''/'') (prev @ ''/'') BACKUP_OP_MOVE (bak a) (bak b) ns i j w))) g n =
      (if bak a @ n \<in> set ns \<and> disk_gens log prev w a n \<noteq> None \<and> g = a then None
       else if bak a @ n \<in> set ns \<and> disk_gens log prev w a n \<noteq> None \<and> g = b then disk_gens log prev w a n
       else disk_gens log prev w g n))"
  using assms
proof (induction ns arbitrary: w i j)
  case Nil
  then show ?case by simp
next
  case (Cons x ns)
  let ?sel = "\<lambda>n. tracked n \<and> x = bak a @ n \<and> disk_gens log prev w a n \<noteq> None"
  have ok: "store_ok log prev (fs w)" using Cons.prems(1) by (simp add: store_inv_def)
  have sel: "selected (slot_dir log prev a) (bak a) x (fs w) \<longleftrightarrow> (\<exists>n. ?sel n)"
    using entry_selected [OF ok _ Cons.prems(3)] Cons.prems(2,4) by simp
  show ?case
  proof (cases "\<exists>n. ?sel n")
    case False
    then have "disk_gens log prev w a n = None" if "x = bak a @ n" for n
      using that by (auto simp: disk_gens_def)
    with False Cons.IH [OF Cons.prems(1-3), of i j] Cons.prems(4) sel show ?thesis
      by (auto simp: recover_loop_step simp del: recover_loop.simps)
  next
    case True
    then obtain n where n: "tracked n" "x = bak a @ n" "disk_gens log prev w a n \<noteq> None" by blast
    then obtain d m where l: "lookup (fs w) (slot_path log prev a n) = Some (Reg d m)"
      by (auto simp: disk_gens_Some)
    have d: "disk_gens log prev w a n = Some d" using n(1) l Cons.prems(3) by (auto simp: disk_gens_Some)
    obtain v where v: "recover_one E BACKUP_OP_MOVE (slashed (slot_dir log prev a) (bak a @ n)) (slashed prev (bak b @ n)) w = (True, v)"
      "store_inv E log prev v"
      "\<And>g k. disk_gens log prev v g k =
         (if k = n \<and> g = a then None else if k = n \<and> g = b then Some d else disk_gens log prev w g k)"
      using move_slot [OF Cons.prems(1-3) n(1) l] by blast
    have "(prev @ ''/'') @ bak b @ n = slashed prev (bak b @ n)" by (simp add: slashed_def)
    then have step: "recover_loop E (slot_dir log prev a @ ''/'') (prev @ ''/'') BACKUP_OP_MOVE (bak a) (bak b) (x # ns) i j w =
        recover_loop E (slot_dir log prev a @ ''/'') (prev @ ''/'') BACKUP_OP_MOVE (bak a) (bak b) ns (Suc i) (Suc j) v"
      using sel True v(1) dest_fits [OF ok Cons.prems(2,3) l]
      by (simp add: recover_loop_step n(2) remaining_slot Let_def del: recover_loop.simps append_assoc)
    have "bak a @ k = x \<longleftrightarrow> k = n" for k using n(2) by auto
    then show ?thesis
      unfolding step using Cons.IH [OF v(2) Cons.prems(2,3), of "Suc i" "Suc j"] Cons.prems(2,4) d by (auto simp: v(3) n(2))
  qed
qed

lemma comps_trailing [simp]: "comps (d @ ''/'') = comps d"
proof -
  have "comps (slashed d []) = comps d @ comps []" by (rule comps_slashed)
  then show ?thesis by (simp add: slashed_def comps_def)
qed

lemma readdir_plain:
  assumes "is_dir_at f (comps d)" "comps d \<noteq> []" "denied f = []" "comps s = comps d"
  shows "os_readdir f s = Some (''.'' # ''..'' # children f (comps d))" "resolve f s = Some (comps d)"
proof -
  have "\<exists>m. lookup f (comps d) = Some (Dir m)" using is_dir_at_lookup assms(1,2) by blast
  then show r: "resolve f s = Some (comps d)" using resolve_plain [of f s] assms(4) by auto
  show "os_readdir f s = Some (''.'' # ''..'' # children f (comps d))"
    using assms(1,3) by (simp add: os_readdir_def r)
qed

lemma disk_move_ok:
  fixes w :: "'n world"
  assumes inv: "store_inv E log prev w" and ab: "b < 4" "b < a" "a \<le> 4"
  shows "store_inv E log prev (disk_move E log prev a b w) \<and>
    disk_gens log prev (disk_move E log prev a b w) = shift a b (disk_gens log prev w)"
proof -
  let ?d = "slot_dir log prev a"
  have ok: "store_ok log prev (fs w)" using inv by (simp add: store_inv_def)
  have d: "is_dir_at (fs w) (comps ?d)" "comps ?d \<noteq> []" using store_entry [OF ok] by (simp_all add: slot_dir_def)
  have den: "denied (fs w) = []" and short: "length ((?d @ ''/'') @ bak a) < PATH_MAX"
    using ok bak_length [of a] by (auto simp: store_ok_def slot_dir_def bak_def)
  note rd = readdir_plain [OF d den comps_trailing]
  let ?ns = "''.'' # ''..'' # children (fs w) (comps ?d)"
  have eok: "list_all entry_ok ?ns" using readdir_entry_ok [OF _ rd(1)] ok by (simp add: store_ok_def)
  have mv: "disk_move E log prev a b w = snd (snd (recover_loop E (?d @ ''/'') (prev @ ''/'') BACKUP_OP_MOVE (bak a) (bak b) ?ns 0 0 w))"
    using short by (simp add: disk_move_def backup_and_recover_logs_def rd(1) del: recover_loop.simps split: prod.splits)
  note L = recover_loop_gens [OF inv ab(2,3) eok, of 0 0, folded mv]
  have "bak a @ n \<in> set ?ns" if "disk_gens log prev w a n = Some x" for n x
  proof -
    have "lookup (fs w) (comps ?d @ [bak a @ n]) \<noteq> None"
      using that ab by (cases "a = 4") (auto simp: disk_gens_Some slot_path_def slot_dir_def bak_def)
    then show ?thesis by (simp add: set_children)
  qed
  moreover have "disk_gens log prev (disk_move E log prev a b w) g n =
      (if bak a @ n \<in> set ?ns \<and> disk_gens log prev w a n \<noteq> None \<and> g = a then None
       else if bak a @ n \<in> set ?ns \<and> disk_gens log prev w a n \<noteq> None \<and> g = b then disk_gens log prev w a n
       else disk_gens log prev w g n)" for g n
    using L by blast
  ultimately have "disk_gens log prev (disk_move E log prev a b w) g n = shift a b (disk_gens log prev w) g n" for g n
    using ab by (cases "disk_gens log prev w a n") (auto simp: shift_def map_add_def)
  then show ?thesis using L by (simp add: fun_eq_iff)
qed

lemma disk_present_ok:
  assumes "store_inv E log prev w" "g < 4"
  shows "disk_present E prev g w = has_system_log g (disk_gens log prev w)"
proof -
  let ?s = "slashed prev (bak g @ ''messages.txt'')" and ?p = "slot_path log prev g ''messages.txt''"
  have ok: "store_ok log prev (fs w)" and E: "file_utilities E" using assms(1) by (simp_all add: store_inv_def)
  have c: "comps ?s = ?p" using slot_name [OF tracked_messages, of g log prev] assms(2) by (simp add: slot_dir_def)
  have p: "?p = comps prev @ [bak g @ ''messages.txt'']" using assms(2) by (simp add: slot_path_def)
  have "resolve (fs w) ?s = Some ?p"
    using resolve_plain [of "fs w" ?s] store_no_link(2) [OF ok] by (simp only: c) (simp add: p)
  then have "disk_present E prev g w = (lookup (fs w) ?p \<noteq> None)"
    using E by (simp add: disk_present_def file_utilities_def os_stat_def p)
  moreover have "lookup (fs w) ?p \<noteq> None \<longleftrightarrow> (\<exists>d m. lookup (fs w) ?p = Some (Reg d m))"
    unfolding p using store_no_link(2,3) [OF ok, of "bak g @ ''messages.txt''"]
    by (auto, metis node.exhaust)
  ultimately show ?thesis
    using assms(2) tracked_messages by (auto simp: has_system_log_def disk_gens_def file_text_def)
qed

interpretation disk: generation_store "store_inv E log prev" "disk_gens log prev" "disk_move E log prev" "disk_present E prev"
  for E :: "'n externals" and log prev :: cstring
  by unfold_locales (simp_all add: disk_move_ok disk_present_ok)

subsection \<open>The log directory is emptied\<close>

definition removable :: "fsys \<Rightarrow> path \<Rightarrow> bool" where
  "removable f p = (case lookup f p of None \<Rightarrow> False
     | Some n \<Rightarrow> (case n of Reg d m \<Rightarrow> True | Dir m \<Rightarrow> children f p = [] | Lnk t m \<Rightarrow> True))"

lemma remove_path_eq:
  assumes "denied (fs w) = []" "comps s = p" "p \<noteq> []"
  shows "snd (remove_path s w) = (if removable (fs w) p then w\<lparr>fs := del (fs w) p\<rparr> else w)"
  using assms
  by (auto simp: remove_path_def on_fs_def os_remove_def os_lstat_def os_unlink_def os_rmdir_def removable_def is_dir_def Let_def
      split: option.splits node.splits)

lemma removable_sibling:
  assumes "q = d @ [n]" "p = d @ [m]" "n \<noteq> m"
  shows "removable (del f q) p = removable f p"
proof -
  have "children (del f q) p = [] \<longleftrightarrow> children f p = []"
    using assms by (simp flip: set_empty add: set_children)
  then show ?thesis using assms by (simp add: removable_def split: option.splits node.splits)
qed

definition cleared :: "cstring \<Rightarrow> string list \<Rightarrow> fsys \<Rightarrow> path \<Rightarrow> bool" where
  "cleared dir ns f p =
     (\<exists>n \<in> set ns. real_name n \<and> length (slashed dir n) < PATH_MAX \<and> p = comps dir @ [n] \<and> removable f p)"

lemma clean_log_path_lookup:
  assumes "denied (fs w) = []" "list_all entry_ok ns"
  shows "lookup (fs (clean_log_path dir ns w)) p = (if cleared dir ns (fs w) p then None else lookup (fs w) p) \<and>
    denied (fs (clean_log_path dir ns w)) = []"
  using assms
proof (induction ns arbitrary: w)
  case Nil
  then show ?case by (simp add: cleared_def)
next
  case (Cons n ns)
  show ?case
  proof (cases "real_name n \<and> length (slashed dir n) < PATH_MAX")
    case False
    then have "clean_log_path dir (n # ns) w = clean_log_path dir ns w"
      using Cons.prems(2) by (auto simp: entry_ok_def)
    moreover have "cleared dir (n # ns) (fs w) p = cleared dir ns (fs w) p" using False by (auto simp: cleared_def)
    ultimately show ?thesis using Cons by simp
  next
    case True
    let ?q = "comps dir @ [n]"
    let ?v = "if removable (fs w) ?q then w\<lparr>fs := del (fs w) ?q\<rparr> else w"
    have "snd (remove_path (slashed dir n) w) = ?v"
      using True Cons.prems(1) by (intro remove_path_eq) simp_all
    then have "clean_log_path dir (n # ns) w = clean_log_path dir ns ?v"
      using True by (simp add: real_name_def)
    moreover have "cleared dir (n # ns) (fs w) p \<longleftrightarrow>
        (removable (fs w) ?q \<and> p = ?q) \<or> cleared dir ns (fs ?v) p"
    proof (cases "p = ?q")
      case p: True
      have "removable (fs ?v) ?q \<longrightarrow> removable (fs w) ?q" by simp
      then show ?thesis using True p by (auto simp: cleared_def)
    next
      case False
      have "removable (fs ?v) (comps dir @ [m]) = removable (fs w) (comps dir @ [m])" if "m \<noteq> n" for m
        using removable_sibling [of ?q "comps dir" n _ m "fs w"] that by auto
      then have "removable (fs ?v) p = removable (fs w) p" if "p = comps dir @ [m]" for m
        using that False by auto
      then show ?thesis using False by (auto simp: cleared_def)
    qed
    ultimately show ?thesis using Cons.IH [of ?v] Cons.prems by auto
  qed
qed

subsection \<open>The end of the strategy\<close>

definition finish_backup :: "backup_config_t \<Rightarrow> 'n world \<Rightarrow> 'n world" where
  "finish_backup c w =
     (let v = touch (slashed (bk_prev_log_path c) ''last_reboot'') w in
      case os_readdir (fs v) (bk_log_path c) of None \<Rightarrow> v | Some ns \<Rightarrow> clean_log_path (bk_log_path c) ns v)"

lemma hdd_disabled_finish:
  assumes "store_ok (bk_log_path c) (bk_prev_log_path c) f"
  shows "backup_execute_hdd_disabled_strategy E c w = (BACKUP_SUCCESS, finish_backup c (rotate_logs E c w))"
  using assms by (simp add: backup_execute_hdd_disabled_strategy_def finish_backup_def store_ok_def Let_def)

lemma touch_marker:
  fixes w :: "'n world"
  assumes ok: "store_ok log prev (fs w)"
  defines "v \<equiv> touch (slashed prev ''last_reboot'') w"
  shows "store_ok log prev (fs v)" "disk_gens log prev v = disk_gens log prev w"
    "lookup (fs v) (comps prev @ [''last_reboot'']) \<noteq> None"
    "\<And>p. p \<noteq> comps prev @ [''last_reboot''] \<Longrightarrow> lookup (fs v) p = lookup (fs w) p"
proof -
  let ?q = "comps prev @ [''last_reboot'']"
  have r: "resolve (fs w) (slashed prev ''last_reboot'') = Some ?q"
    using resolve_plain [of "fs w" "slashed prev ''last_reboot''"] store_no_link(2) [OF ok] by simp
  have "writable (fs w) ?q"
    using store_no_link(3) [OF ok, of "''last_reboot''"] ok
    by (auto simp: writable_def store_ok_def is_dir_at_def [of _ "_ @ _"] is_dir_def split: option.splits node.splits)
  then have v: "v = (if lookup (fs w) ?q \<noteq> None then w else w\<lparr>fs := put (fs w) ?q (Reg [] (clock w))\<rparr>)"
    by (simp add: v_def touch_def os_stat_def r os_write_def os_write_at_eq)
  have other: "slot_path log prev g n \<noteq> ?q" if "tracked n" "g \<le> 4" for g n
    using that store_entry(7) [OF ok] by (auto simp: slot_path_def bak_def tracked_def split: if_splits)
  show "lookup (fs v) p = lookup (fs w) p" if "p \<noteq> ?q" for p using that by (simp add: v)
  show "lookup (fs v) ?q \<noteq> None" by (auto simp: v)
  show "disk_gens log prev v = disk_gens log prev w"
    using other by (auto simp: fun_eq_iff disk_gens_def file_text_def v)
  show "store_ok log prev (fs v)"
  proof (cases "lookup (fs w) ?q = None")
    case True
    obtain ml mp where d: "lookup (fs w) (comps log) = Some (Dir ml)" "lookup (fs w) (comps prev) = Some (Dir mp)"
      using is_dir_at_lookup [OF store_entry(3) [OF ok] store_entry(5) [OF ok]]
        is_dir_at_lookup [OF store_entry(4) [OF ok] store_entry(6) [OF ok]] by blast
    have nq: "comps log \<noteq> ?q" "comps prev \<noteq> ?q" using d True by auto
    have "list_all real_name ?q" using ok d(2) by (auto simp: store_ok_def names_ok_lookup real_name_def)
    moreover have "prev_entry_ok prev ''last_reboot'' (Reg [] (clock w))"
      using ok by (simp add: prev_entry_ok_def is_reg_def store_ok_def)
    ultimately have "store_ok log prev (put (fs w) ?q (Reg [] (clock w)))"
      using ok nq by (auto simp: store_ok_def names_ok_lookup is_dir_at_put_reg)
    then show ?thesis using True by (simp add: v)
  next
    case False
    then show ?thesis using ok by (simp add: v)
  qed
qed

text \<open>The last two steps on their own: the log directory, with the marker made, is cleared.\<close>

lemma clean_store:
  fixes w :: "'n world"
  assumes ok: "store_ok log prev (fs w)" and marker: "lookup (fs w) (comps prev @ [''last_reboot'']) \<noteq> None"
  defines "ns \<equiv> ''.'' # ''..'' # children (fs w) (comps log)"
  shows "os_readdir (fs w) log = Some ns" "store_ok log prev (fs (clean_log_path log ns w))"
    "\<And>g. g \<noteq> 4 \<Longrightarrow> disk_gens log prev (clean_log_path log ns w) g = disk_gens log prev w g"
    "\<And>p. lookup (fs (clean_log_path log ns w)) p = None \<or> lookup (fs (clean_log_path log ns w)) p = lookup (fs w) p"
    "\<And>n. removable (fs w) (comps log @ [n]) \<Longrightarrow> lookup (fs w) (comps log @ [n]) \<noteq> None \<Longrightarrow> length (slashed log n) < PATH_MAX \<Longrightarrow>
       lookup (fs (clean_log_path log ns w)) (comps log @ [n]) = None"
proof -
  have den: "denied (fs w) = []" using ok by (simp add: store_ok_def)
  show rd: "os_readdir (fs w) log = Some ns"
    using readdir_plain(1) [OF store_entry(3) [OF ok] store_entry(5) [OF ok] den refl] by (simp add: ns_def)
  have eok: "list_all entry_ok ns" using readdir_entry_ok [OF _ rd] ok by (simp add: store_ok_def)
  let ?v = "clean_log_path log ns w"
  have L: "lookup (fs ?v) p = (if cleared log ns (fs w) p then None else lookup (fs w) p)" for p
    using clean_log_path_lookup [OF den eok] by simp
  have "\<not> removable (fs w) (comps prev)"
    using is_dir_at_lookup [OF store_entry(4) [OF ok] store_entry(6) [OF ok]] marker
    by (force simp: removable_def set_children simp flip: set_empty)
  then have np: "\<not> cleared log ns (fs w) (comps prev)" by (auto simp: cleared_def)
  have nl: "\<not> cleared log ns (fs w) (comps log)" "\<not> cleared log ns (fs w) (comps prev @ [x])" for x
    using store_entry(7) [OF ok] by (auto simp: cleared_def)
  have "names_ok (fs ?v)" using ok by (auto simp: store_ok_def names_ok_lookup L)
  moreover have "is_dir_at (fs ?v) (comps log)" "is_dir_at (fs ?v) (comps prev)"
    using store_entry(3,4) [OF ok] np nl(1) by (simp_all add: is_dir_at_def L)
  moreover have "denied (fs ?v) = []" using clean_log_path_lookup [OF den eok] by simp
  ultimately show "store_ok log prev (fs ?v)" using ok nl(2) by (auto simp: store_ok_def L)
  show "disk_gens log prev ?v g = disk_gens log prev w g" if "g \<noteq> 4" for g
    using that nl(2) by (simp add: fun_eq_iff disk_gens_def file_text_def L slot_path_def)
  show "lookup (fs ?v) p = None \<or> lookup (fs ?v) p = lookup (fs w) p" for p by (simp add: L)
  show "lookup (fs ?v) (comps log @ [n]) = None"
    if "removable (fs w) (comps log @ [n])" "lookup (fs w) (comps log @ [n]) \<noteq> None" "length (slashed log n) < PATH_MAX" for n
  proof -
    have "real_name n" using that(2) ok by (auto simp: store_ok_def names_ok_lookup)
    moreover have "n \<in> set ns" using that(2) by (simp add: ns_def set_children)
    ultimately have "cleared log ns (fs w) (comps log @ [n])" using that by (auto simp: cleared_def)
    then show ?thesis by (simp add: L)
  qed
qed

lemma finish_backup_gens:
  fixes w :: "'n world"
  assumes inv: "store_ok (bk_log_path c) (bk_prev_log_path c) (fs w)"
  defines "log \<equiv> bk_log_path c" and "prev \<equiv> bk_prev_log_path c" and "v \<equiv> finish_backup c w"
  shows "store_ok log prev (fs v)" "\<And>g. g \<noteq> 4 \<Longrightarrow> disk_gens log prev v g = disk_gens log prev w g"
    "\<And>n d m. lookup (fs w) (comps log @ [n]) = Some (Reg d m) \<Longrightarrow> lookup (fs v) (comps log @ [n]) = None"
    "\<And>n m. lookup (fs w) (comps log @ [n]) = Some (Dir m) \<Longrightarrow> children (fs w) (comps log @ [n]) = [] \<Longrightarrow>
       comps log @ [n] \<noteq> comps prev \<Longrightarrow> length (slashed log n) < PATH_MAX \<Longrightarrow> lookup (fs v) (comps log @ [n]) = None"
    "disk_gens log prev v 4 = Map.empty"
proof -
  let ?w1 = "touch (slashed prev ''last_reboot'') w"
  note t = touch_marker [OF inv, folded log_def prev_def]
  note c = clean_store [OF t(1,3)]
  have v: "v = clean_log_path log (''.'' # ''..'' # children (fs ?w1) (comps log)) ?w1"
    using c(1) by (simp add: v_def finish_backup_def Let_def log_def prev_def del: clean_log_path.simps)
  note c = c [folded v]
  have same: "lookup (fs ?w1) (comps log @ [n]) = lookup (fs w) (comps log @ [n])" for n
    using store_entry(7) [OF t(1)] by (intro t(4)) simp
  show "store_ok log prev (fs v)" by (rule c(2))
  show "disk_gens log prev v g = disk_gens log prev w g" if "g \<noteq> 4" for g using c(3) [OF that] t(2) by simp
  show logs: "lookup (fs v) (comps log @ [n]) = None" if l: "lookup (fs w) (comps log @ [n]) = Some (Reg d m)" for n d m
  proof -
    have "log_entry_ok log prev n (Reg d m)" using store_entry(1) [OF t(1), of n] l same by simp
    then show ?thesis using l same by (intro c(5)) (simp_all add: removable_def log_entry_ok_def slashed_def)
  qed
  show "lookup (fs v) (comps log @ [n]) = None"
    if l: "lookup (fs w) (comps log @ [n]) = Some (Dir m)" "children (fs w) (comps log @ [n]) = []"
      "comps log @ [n] \<noteq> comps prev" "length (slashed log n) < PATH_MAX" for n m
  proof -
    have "lookup (fs ?w1) ((comps log @ [n]) @ [x]) = None" for x
      using l(2,3) t(4) [of "(comps log @ [n]) @ [x]"] by (simp flip: set_empty add: set_children)
    then have "children (fs ?w1) (comps log @ [n]) = []" by (simp flip: set_empty add: set_children)
    then show ?thesis using l same by (intro c(5)) (simp_all add: removable_def)
  qed
  have "disk_gens log prev v 4 n = None" for n
  proof (rule ccontr)
    assume "disk_gens log prev v 4 n \<noteq> None"
    then obtain d m where l: "lookup (fs v) (comps log @ [n]) = Some (Reg d m)"
      by (auto simp: disk_gens_Some slot_path_def)
    then have "lookup (fs w) (comps log @ [n]) = Some (Reg d m)" using c(4) [of "comps log @ [n]"] same by auto
    with l logs show False by simp
  qed
  then show "disk_gens log prev v 4 = Map.empty" by blast
qed

subsection \<open>Properties\<close>

text \<open>
  Claim C36. The backup without a hard disk implements the rotation of generations: with regular logs of
  the four generations in the directory of previous logs, it succeeds, the generations it leaves on
  the disk are the rotation of those it found, the log directory has no logs left, and the
  directories are again such that the next boot can do the same.
\<close>

theorem rotation_refines:
  fixes w :: "'n world"
  assumes "store_inv E (bk_log_path c) (bk_prev_log_path c) w"
  shows "\<exists>v. backup_execute_hdd_disabled_strategy E c w = (BACKUP_SUCCESS, v) \<and>
    disk_gens (bk_log_path c) (bk_prev_log_path c) v = rotate_gens (disk_gens (bk_log_path c) (bk_prev_log_path c) w) \<and>
    disk_gens (bk_log_path c) (bk_prev_log_path c) v 4 = Map.empty \<and>
    store_inv E (bk_log_path c) (bk_prev_log_path c) v"
proof -
  let ?G = "disk_gens (bk_log_path c) (bk_prev_log_path c)" and ?w1 = "rotate_logs E c w"
  have r: "store_inv E (bk_log_path c) (bk_prev_log_path c) ?w1" "?G ?w1 = rotate_gens (?G w)"
    using disk.rotation [OF assms] by (simp_all add: rotate_logs_moves)
  note f = finish_backup_gens [OF conjunct2 [OF conjunct2 [OF r(1) [unfolded store_inv_def]]]]
  have "rotate_gens (?G w) 4 = Map.empty" by (simp add: rotate_gens_def rotate_with_def shift_def)
  then have "?G (finish_backup c ?w1) g = rotate_gens (?G w) g" for g
    using f(2) [of g] f(5) r(2) by (cases "g = 4") simp_all
  then show ?thesis
    using hdd_disabled_finish [of c "fs w" E w] assms f(1,5) by (auto simp: store_inv_def fun_eq_iff)
qed

subsection \<open>A device\<close>

definition sample_conf :: backup_config_t where
  "sample_conf = \<lparr>bk_log_path = ''/opt/logs'', bk_prev_log_path = ''/opt/logs/PreviousLogs'',
     bk_prev_log_backup_path = ''/opt/logs/PreviousLogs_backup'', bk_persistent_path = ''/opt/persistent'',
     bk_hdd_enabled = False\<rparr>"

definition backup_tree :: "(path \<times> node) list" where
  "backup_tree =
    [([''opt''], Dir 0), ([''opt'', ''logs''], Dir 0), ([''opt'', ''logs'', ''PreviousLogs''], Dir 0),
     ([''opt'', ''logs'', ''PreviousLogs_backup''], Dir 0),
     ([''opt'', ''logs'', ''messages.txt''], Reg ''new'' 0),
     ([''opt'', ''logs'', ''PreviousLogs'', ''messages.txt''], Reg ''oldest'' 0),
     ([''opt'', ''logs'', ''PreviousLogs'', ''app.log''], Reg ''crash'' 0),
     ([''opt'', ''logs'', ''PreviousLogs'', ''bak1_messages.txt''], Reg ''second'' 0),
     ([''opt'', ''logs'', ''PreviousLogs'', ''bak2_messages.txt''], Reg ''third'' 0),
     ([''opt'', ''logs'', ''PreviousLogs'', ''bak3_messages.txt''], Reg ''last'' 0)]"

definition backup_world :: "script world" where
  "backup_world = sample_world quiet_script backup_tree"

lemma sample_paths:
  "comps ''/opt/logs'' = [''opt'', ''logs'']" "comps ''/opt/logs/PreviousLogs'' = [''opt'', ''logs'', ''PreviousLogs'']"
  by (simp_all add: comps_def)

lemma tracked_app: "tracked ''app.log''"
  by (simp add: tracked_def real_name_def active_log_def)

lemma prev_entryI:
  "g < 4 \<Longrightarrow> tracked m \<Longrightarrow> n = bak g @ m \<Longrightarrow> length prev + length n + 2 < PATH_MAX \<Longrightarrow> prev_entry_ok prev n (Reg d t)"
  by (auto simp: prev_entry_ok_def is_reg_def)

lemma backup_prev_entries:
  "prev_entry_ok ''/opt/logs/PreviousLogs'' ''messages.txt'' (Reg d t)"
  "prev_entry_ok ''/opt/logs/PreviousLogs'' ''app.log'' (Reg d t)"
  "prev_entry_ok ''/opt/logs/PreviousLogs'' ''bak1_messages.txt'' (Reg d t)"
  "prev_entry_ok ''/opt/logs/PreviousLogs'' ''bak2_messages.txt'' (Reg d t)"
  "prev_entry_ok ''/opt/logs/PreviousLogs'' ''bak3_messages.txt'' (Reg d t)"
  by (rule prev_entryI [where g = 0 and m = "''messages.txt''"], simp_all add: tracked_messages bak_def PATH_MAX_def)
    (rule prev_entryI [where g = 0 and m = "''app.log''"], simp_all add: tracked_app bak_def PATH_MAX_def,
     rule prev_entryI [where g = 1 and m = "''messages.txt''"], simp_all add: tracked_messages bak_def PATH_MAX_def,
     rule prev_entryI [where g = 2 and m = "''messages.txt''"], simp_all add: tracked_messages bak_def PATH_MAX_def,
     rule prev_entryI [where g = 3 and m = "''messages.txt''"], simp_all add: tracked_messages bak_def PATH_MAX_def)

lemma backup_store_ok: "store_ok ''/opt/logs'' ''/opt/logs/PreviousLogs'' (fs backup_world)"
proof -
  have "names_ok (fs backup_world)"
    by (simp add: names_ok_def backup_world_def sample_world_def backup_tree_def real_name_def)
  moreover have "log_entry_ok ''/opt/logs'' ''/opt/logs/PreviousLogs'' n x"
    if "lookup (fs backup_world) [''opt'', ''logs'', n] = Some x" for n x
    using that tracked_messages
    by (auto simp: lookup_def backup_world_def sample_world_def backup_tree_def log_entry_ok_def PATH_MAX_def split: if_splits)
  moreover have "prev_entry_ok ''/opt/logs/PreviousLogs'' n x"
    if "lookup (fs backup_world) [''opt'', ''logs'', ''PreviousLogs'', n] = Some x" for n x
    using that backup_prev_entries
    by (auto simp: lookup_def backup_world_def sample_world_def backup_tree_def split: if_splits)
  moreover have "is_dir_at (fs backup_world) [''opt'', ''logs'']" "is_dir_at (fs backup_world) [''opt'', ''logs'', ''PreviousLogs'']"
    "denied (fs backup_world) = []"
    by (simp_all add: is_dir_at_def is_dir_def lookup_def backup_world_def sample_world_def backup_tree_def)
  ultimately show ?thesis by (simp add: store_ok_def sample_paths PATH_MAX_def)
qed

lemma backup_gens:
  "disk_gens ''/opt/logs'' ''/opt/logs/PreviousLogs'' backup_world g n =
     (if \<not> tracked n \<or> 4 < g then None
      else if n = ''messages.txt''
      then Some (if g = 4 then ''new'' else if g = 0 then ''oldest'' else if g = 1 then ''second'' else if g = 2 then ''third'' else ''last'')
      else if n = ''app.log'' \<and> g = 0 then Some ''crash'' else None)"
proof (cases "tracked n \<and> g \<le> 4")
  case True
  then have "g \<in> {0, 1, 2, 3, 4}" by auto
  then show ?thesis using True
    by (auto simp: disk_gens_def file_text_def slot_path_def sample_paths bak_def lookup_def backup_world_def
        sample_world_def backup_tree_def tracked_def)
qed (auto simp: disk_gens_def)

theorem rotation_refines_witness:
  "\<exists>v. backup_execute_hdd_disabled_strategy script_externals sample_conf backup_world = (BACKUP_SUCCESS, v) \<and>
     disk_gens ''/opt/logs'' ''/opt/logs/PreviousLogs'' v 3 ''messages.txt'' = Some ''new'' \<and>
     disk_gens ''/opt/logs'' ''/opt/logs/PreviousLogs'' v 0 ''messages.txt'' = Some ''second'' \<and>
     disk_gens ''/opt/logs'' ''/opt/logs/PreviousLogs'' v 0 ''app.log'' = Some ''crash''"
proof -
  let ?G = "disk_gens ''/opt/logs'' ''/opt/logs/PreviousLogs'' backup_world"
  have "store_inv script_externals (bk_log_path sample_conf) (bk_prev_log_path sample_conf) backup_world"
    using backup_store_ok script_file_utilities script_copy_utility by (simp add: store_inv_def sample_conf_def)
  moreover have "rotate_gens ?G = shift 4 3 (shift 3 2 (shift 2 1 (shift 1 0 ?G)))"
    by (simp add: rotate_gens_def rotate_with_def shift_def has_system_log_def map_add_def backup_gens tracked_messages)
  then have "rotate_gens ?G 3 ''messages.txt'' = Some ''new''" "rotate_gens ?G 0 ''messages.txt'' = Some ''second''"
    "rotate_gens ?G 0 ''app.log'' = Some ''crash''"
    by (simp_all add: shift_def map_add_def backup_gens tracked_messages tracked_app)
  ultimately show ?thesis
    using rotation_refines [of script_externals sample_conf backup_world] by (auto simp: sample_conf_def)
qed

end
