(* ===== verification/BackupSafety.thy ===== *)
theory BackupSafety
  imports BackupProps
begin

text \<open>
  What the backup does when the copies fail, and how the list of special files is read.
\<close>

subsection \<open>A full disk\<close>

definition no_copies :: "'n externals \<Rightarrow> bool" where
  "no_copies E = (\<forall>u a b. copyFiles E a b u = (-1, u))"

lemma recover_nothing:
  "no_copies E \<Longrightarrow> snd (snd (recover_loop E src dest BACKUP_OP_MOVE s_ext d_ext ns i j w)) = w"
  by (induction ns arbitrary: i j)
    (auto simp: recover_one_def xcall_def no_copies_def Let_def split: prod.splits)

lemma disk_move_nothing: "no_copies E \<Longrightarrow> disk_move E log prev a b w = w"
  using recover_nothing [of E]
  by (auto simp: disk_move_def backup_and_recover_logs_def split: option.splits prod.splits) (metis snd_conv)+

lemma rotate_nothing: "no_copies E \<Longrightarrow> rotate_logs E c w = w"
  by (simp add: rotate_logs_moves rotate_with_def disk_move_nothing)

text \<open>
  Claim C37. When no file can be copied, for want of space for instance, the backup without a hard disk
  still reports success and then empties the log directory: the logs of the last boot are in
  none of the generations afterwards.
\<close>

theorem failed_backup_loses_logs:
  assumes "no_copies E" "store_ok (bk_log_path c) (bk_prev_log_path c) (fs w)"
  shows "\<exists>v. backup_execute_hdd_disabled_strategy E c w = (BACKUP_SUCCESS, v) \<and>
    disk_gens (bk_log_path c) (bk_prev_log_path c) v =
      (disk_gens (bk_log_path c) (bk_prev_log_path c) w)(4 := Map.empty)"
  using hdd_disabled_finish [OF assms(2), of E w] finish_backup_gens(2,5) [OF assms(2)] rotate_nothing [OF assms(1), of c w]
  by (auto simp: fun_eq_iff)

definition full_disk :: "cstring \<Rightarrow> cstring \<Rightarrow> script outer \<Rightarrow> int \<times> script outer" where
  "full_disk a b u = (-1, u)"

theorem failed_backup_loses_logs_witness:
  "\<exists>v. backup_execute_hdd_disabled_strategy (script_externals\<lparr>copyFiles := full_disk\<rparr>) sample_conf backup_world = (BACKUP_SUCCESS, v) \<and>
     (\<forall>g. disk_gens ''/opt/logs'' ''/opt/logs/PreviousLogs'' v g ''messages.txt'' \<noteq> Some ''new'')"
proof -
  have "no_copies (script_externals\<lparr>copyFiles := full_disk\<rparr>)" by (simp add: no_copies_def full_disk_def)
  moreover have "store_ok (bk_log_path sample_conf) (bk_prev_log_path sample_conf) (fs backup_world)"
    using backup_store_ok by (simp add: sample_conf_def)
  ultimately obtain v where "backup_execute_hdd_disabled_strategy (script_externals\<lparr>copyFiles := full_disk\<rparr>) sample_conf backup_world = (BACKUP_SUCCESS, v)"
    "disk_gens (bk_log_path sample_conf) (bk_prev_log_path sample_conf) v =
      (disk_gens (bk_log_path sample_conf) (bk_prev_log_path sample_conf) backup_world)(4 := Map.empty)"
    using failed_backup_loses_logs by blast
  then show ?thesis by (auto simp: sample_conf_def backup_gens)
qed

subsection \<open>The list of special files\<close>

text \<open>The lines of the file: blank ones, comments, and paths between blanks.\<close>

datatype conf_line = Blank_line cstring | Comment_line cstring cstring | Path_line cstring cstring cstring

fun line_text :: "conf_line \<Rightarrow> cstring" where
  "line_text (Blank_line b) = b"
| "line_text (Comment_line b t) = b @ ''#'' @ t"
| "line_text (Path_line b p a) = b @ p @ a"

definition blanks :: "cstring \<Rightarrow> bool" where
  "blanks b = (list_all is_blank b \<and> CHR 0x0A \<notin> set b)"

fun line_ok :: "conf_line \<Rightarrow> bool" where
  "line_ok (Blank_line b) = blanks b"
| "line_ok (Comment_line b t) = (blanks b \<and> CHR 0x0A \<notin> set t)"
| "line_ok (Path_line b p a) = (blanks b \<and> blanks a \<and> p \<noteq> [] \<and> hd p \<noteq> CHR ''#'' \<and> \<not> is_blank (hd p) \<and>
     \<not> is_blank (last p) \<and> CHR 0x0A \<notin> set p)"

definition special_conf_text :: "conf_line list \<Rightarrow> cstring" where
  "special_conf_text ls = concat (map (\<lambda>l. line_text l @ [CHR 0x0A]) ls)"

fun line_paths :: "conf_line \<Rightarrow> cstring list" where
  "line_paths (Blank_line b) = []"
| "line_paths (Comment_line b t) = []"
| "line_paths (Path_line b p a) = [p]"

definition conf_paths :: "conf_line list \<Rightarrow> cstring list" where
  "conf_paths ls = concat (map line_paths ls)"

lemma fgets_special:
  assumes "list_all (\<lambda>l. line_ok l \<and> length (line_text l) < 511) ls"
  shows "fgets_acc 511 (special_conf_text ls) [] = map (\<lambda>l. line_text l @ [CHR 0x0A]) ls"
  using assms
proof (induction ls)
  case (Cons l ls)
  have "CHR 0x0A \<notin> set (line_text l)" using Cons.prems by (cases l) (auto simp: blanks_def)
  with fgets_line [of "line_text l" "[]" 511 "special_conf_text ls"] Cons show ?case
    by (simp add: special_conf_text_def)
qed (simp add: special_conf_text_def)

lemma drop_all: "list_all P b \<Longrightarrow> dropWhile P (b @ s) = dropWhile P s"
  by (induction b) auto

lemma drop_keeps_last: "\<not> P x \<Longrightarrow> \<exists>r. dropWhile P (s @ [x]) = r @ [x]"
  by (induction s) auto

lemma drop_none: "s \<noteq> [] \<Longrightarrow> \<not> P (hd s) \<Longrightarrow> dropWhile P s = s"
  by (cases s) auto

lemma trim_path:
  assumes "list_all is_blank b" "list_all is_blank a" "p \<noteq> []" "\<not> is_blank (hd p)" "\<not> is_blank (last p)"
  shows "trim_line (b @ p @ a) = p"
proof -
  have "dropWhile is_blank (b @ p @ a) = p @ a"
    using assms(1,3,4) by (simp add: drop_all drop_none)
  moreover have "dropWhile is_blank (rev a @ rev p) = rev p"
    using assms(2,3,5) by (simp add: drop_all drop_none hd_rev)
  ultimately show ?thesis by (simp add: trim_line_def)
qed

lemma trim_blank: "list_all is_blank b \<Longrightarrow> trim_line b = []"
proof -
  assume "list_all is_blank b"
  then have "dropWhile is_blank b = []" by (induction b) auto
  then show ?thesis unfolding trim_line_def by (simp only: rev.simps dropWhile.simps)
qed

lemma trim_comment:
  assumes "list_all is_blank b"
  shows "trim_line (b @ CHR ''#'' # t) \<noteq> [] \<and> hd (trim_line (b @ CHR ''#'' # t)) = CHR ''#''"
proof -
  have h: "\<not> is_blank (CHR ''#'')" by (simp add: is_blank_def)
  have "dropWhile is_blank (b @ CHR ''#'' # t) = CHR ''#'' # t"
    using assms h by (simp add: drop_all drop_none)
  moreover obtain r where "dropWhile is_blank (rev t @ [CHR ''#'']) = r @ [CHR ''#'']"
    using drop_keeps_last [of is_blank "CHR ''#''"] h by blast
  ultimately show ?thesis by (simp add: trim_line_def)
qed

lemma newline_blank: "is_blank (CHR 0x0A)"
  by (simp add: is_blank_def)

lemma load_lines_paths:
  assumes "list_all line_ok ls" "length es \<le> 32"
  shows "load_lines (map (\<lambda>l. line_text l @ [CHR 0x0A]) ls) es = take 32 (es @ map special_entry (conf_paths ls))"
  using assms
proof (induction ls arbitrary: es)
  case Nil
  then show ?case by (simp add: conf_paths_def)
next
  case (Cons l ls)
  show ?case
  proof (cases "length es = 32")
    case True
    then show ?thesis by (simp add: MAX_SPECIAL_FILES_def)
  next
    case False
    then have s: "\<not> MAX_SPECIAL_FILES \<le> length es" using Cons.prems(2) by (simp add: MAX_SPECIAL_FILES_def)
    show ?thesis
    proof (cases l)
      case (Blank_line b)
      then have "trim_line (line_text l @ [CHR 0x0A]) = []"
        using Cons.prems(1) by (intro trim_blank) (simp add: blanks_def newline_blank)
      then show ?thesis using Cons s Blank_line by (simp add: conf_paths_def Let_def)
    next
      case (Comment_line b t)
      then show ?thesis using Cons s trim_comment [of b "t @ [CHR 0x0A]"] by (simp add: conf_paths_def Let_def blanks_def)
    next
      case (Path_line b p a)
      then have "trim_line (b @ p @ a @ [CHR 0x0A]) = p"
        using Cons.prems(1) by (intro trim_path) (simp_all add: blanks_def newline_blank)
      then show ?thesis
        using Cons.IH [of "es @ [special_entry p]"] Cons.prems s False Path_line by (simp add: conf_paths_def Let_def)
    qed
  qed
qed

lemma conf_path_short:
  assumes "list_all (\<lambda>l. line_ok l \<and> length (line_text l) < 511) ls" "p \<in> set (conf_paths ls)"
  shows "length p < 511"
proof -
  obtain l where l: "l \<in> set ls" "p \<in> set (line_paths l)" using assms(2) by (auto simp: conf_paths_def)
  have "length p \<le> length (line_text l)" using l(2) by (cases l) auto
  with l assms(1) show ?thesis by (auto simp: list_all_iff)
qed

text \<open>
  Claim C38. The list of special files is read back: of a file with blank lines, comments and paths with
  blanks around them, each on a line that fits the buffer, the first 32 paths become the entries,
  each with the part after its last slash as the name of the copy.
\<close>

theorem special_files_read_back:
  assumes "list_all (\<lambda>l. line_ok l \<and> length (line_text l) < 511) ls" "os_read (fs w) f = Some (special_conf_text ls)"
  shows "\<exists>c. special_files_load_config f w = (BACKUP_SUCCESS, c) \<and>
    map source_path (entries c) = take 32 (conf_paths ls) \<and>
    map destination_path (entries c) = map file_name_of (take 32 (conf_paths ls))"
proof -
  have e: "load_lines (fgets_all 512 (special_conf_text ls)) [] = map special_entry (take 32 (conf_paths ls))"
    using load_lines_paths [of ls "[]"] assms(1) by (simp add: fgets_all_def fgets_special list_all_iff take_map)
  have "source_path (special_entry p) = p \<and> destination_path (special_entry p) = file_name_of p"
    if "p \<in> set (take 32 (conf_paths ls))" for p
  proof -
    have "length p < 511" using conf_path_short [OF assms(1)] that in_set_takeD by metis
    moreover have "length (file_name_of p) \<le> length p"
      using length_takeWhile_le [of _ "rev p"] by (simp add: file_name_of_def)
    ultimately show ?thesis by (simp add: special_entry_def PATH_MAX_def)
  qed
  then have "map source_path (map special_entry (take 32 (conf_paths ls))) = take 32 (conf_paths ls)"
    "map destination_path (map special_entry (take 32 (conf_paths ls))) = map file_name_of (take 32 (conf_paths ls))"
    by (simp_all add: map_idI)
  then show ?thesis using assms(2) by (simp add: special_files_load_config_def e)
qed

definition special_world :: "script world" where
  "special_world = sample_world quiet_script
     [([''c''], Reg (special_conf_text [Comment_line [] '' Version files'', Blank_line [], Path_line '' '' ''/etc/skyversion.txt'' '' '']) 0)]"

theorem special_files_read_back_witness:
  "\<exists>c. special_files_load_config ''/c'' special_world = (BACKUP_SUCCESS, c) \<and>
     map source_path (entries c) = [''/etc/skyversion.txt''] \<and> map destination_path (entries c) = [''skyversion.txt'']"
proof -
  let ?ls = "[Comment_line [] '' Version files'', Blank_line [], Path_line '' '' ''/etc/skyversion.txt'' '' '']"
  have "resolve (fs special_world) ''/c'' = Some [''c'']"
    using resolve_plain [of "fs special_world" "''/c''"]
    by (simp add: comps_def special_world_def sample_world_def lookup_def)
  then have "os_read (fs special_world) ''/c'' = Some (special_conf_text ?ls)"
    by (simp add: os_read_def special_world_def sample_world_def lookup_def)
  moreover have "list_all (\<lambda>l. line_ok l \<and> length (line_text l) < 511) ?ls"
    by (simp add: blanks_def is_blank_def)
  ultimately show ?thesis
    using special_files_read_back [of ?ls special_world "''/c''"] by (simp add: conf_paths_def file_name_of_def)
qed

end
