(* ===== verification/UsbLog.thy ===== *)
theory UsbLog
  imports ArchiveManager ContextManager
begin

text \<open>
  The copy of the logs to a USB drive on request (\<^verbatim>\<open>usbLogUpload/src\<close>): validation of the
  arguments and the device, the move of the logs into a temporary directory, the archive, which is
  made by the upload tool's archive manager and then moved to the drive, and the program.

  The log, the time stamps that only go to the log and the final line on the standard output are
  left out.  Writing through \<^verbatim>\<open>fwrite\<close> is a parameter: it says whether every call reported success and
  which bytes are in the file after the unchecked \<^verbatim>\<open>fclose\<close>.  \<^const>\<open>None\<close> is undefined behaviour in the
  archive manager.
\<close>

subsection \<open>Code outside the repository\<close>

record 'n usb_externals =
  pidof :: "'n outer \<Rightarrow> cstring option \<times> 'n outer"
  kill_hup :: "int \<Rightarrow> 'n outer \<Rightarrow> int \<times> 'n outer"
  fwrite_all :: "'n outer \<Rightarrow> cstring \<Rightarrow> cstring \<Rightarrow> bool \<times> cstring"

definition USB_LOG_SUCCESS :: int where "USB_LOG_SUCCESS = 0"
definition USB_LOG_ERROR_GENERAL :: int where "USB_LOG_ERROR_GENERAL = 1"

subsection \<open>Utilities\<close>

text \<open>\<^verbatim>\<open>strftime(..., "%m/%d/%y-%H:%M:%S", tm)\<close>, which has 17 characters.\<close>

definition get_current_timestamp :: "nat \<Rightarrow> int \<Rightarrow> int \<times> cstring option" where
  "get_current_timestamp buffer_size now =
     (if buffer_size < 20 then (-1, None)
      else case gmtime_r now of None \<Rightarrow> (-2, None)
      | Some t \<Rightarrow> (0, Some (dec2 (tm_mon t + 1) @ ''/'' @ dec2 (tm_mday t) @ ''/'' @ dec2 (tm_year t mod 100) @ ''-'' @
          dec2 (tm_hour t) @ '':'' @ dec2 (tm_min t) @ '':'' @ dec2 (tm_sec t))))"

definition reload_syslog_service :: "'n externals \<Rightarrow> 'n usb_externals \<Rightarrow> 'n world \<Rightarrow> int \<times> 'n world" where
  "reload_syslog_service E U w =
     (if getDevicePropertyData E (outer_of w) ''SYSLOG_NG_ENABLED'' 64 \<noteq> Some ''true'' then (0, w)
      else case xcall (pidof U) (emit (Shell ''pidof syslog-ng'') w) of (r, w1) \<Rightarrow>
        (case r of None \<Rightarrow> (-1, w1)
         | Some output \<Rightarrow>
             (case fgets_all 32 output of [] \<Rightarrow> (0, w1)
              | pid_str # ls \<Rightarrow>
                  if atoi pid_str \<le> 0 then (-1, w1)
                  else case xcall (kill_hup U (atoi pid_str)) w1 of (k, w2) \<Rightarrow> (if k = 0 then 0 else -1, w2))))"

text \<open>A directory can be opened for reading, but reading it is an error.\<close>

definition reads_as_directory :: "fsys \<Rightarrow> cstring \<Rightarrow> bool" where
  "reads_as_directory f p = (case os_stat f p of None \<Rightarrow> False | Some n \<Rightarrow> is_dir n)"

definition copy_file_and_delete :: "'n usb_externals \<Rightarrow> cstring \<Rightarrow> cstring \<Rightarrow> 'n world \<Rightarrow> int \<times> 'n world" where
  "copy_file_and_delete U source_path dest_path w =
     (if os_read (fs w) source_path = None then (-1, w)
      else case os_write (fs w) dest_path [] (clock w) of None \<Rightarrow> (-1, w)
      | Some f1 \<Rightarrow>
          let w1 = w\<lparr>fs := f1\<rparr>;
              d = (case os_read f1 source_path of None \<Rightarrow> [] | Some s \<Rightarrow> s) in
          case fwrite_all U (outer_of w1) dest_path d of (ok, written) \<Rightarrow>
            let w2 = (case os_write f1 dest_path written (clock w) of None \<Rightarrow> w1 | Some f2 \<Rightarrow> w1\<lparr>fs := f2\<rparr>) in
            if \<not> ok \<or> reads_as_directory f1 source_path
            then (-1, snd (on_fs (\<lambda>f. os_unlink f dest_path) w2))
            else (0, snd (on_fs (\<lambda>f. os_unlink f source_path) w2)))"

subsection \<open>Validation\<close>

definition validate_usb_mount_point :: "cstring \<Rightarrow> 'n world \<Rightarrow> int" where
  "validate_usb_mount_point mount_point w =
     (if mount_point = [] then -1 else if \<not> os_access (fs w) mount_point then 2 else 0)"

definition validate_input_parameters :: "cstring list \<Rightarrow> int" where
  "validate_input_parameters argv = (if length argv \<noteq> 2 then 4 else if argv ! 1 = [] then 4 else 0)"

definition validate_device_compatibility :: "'n externals \<Rightarrow> 'n world \<Rightarrow> int" where
  "validate_device_compatibility E w =
     (case getDevicePropertyData E (outer_of w) ''RDK_PROFILE'' 32 of None \<Rightarrow> 4
      | Some device_name \<Rightarrow> if device_name \<noteq> ''TV'' then 4 else 0)"

subsection \<open>Files\<close>

definition create_usb_log_directory :: "'n externals \<Rightarrow> cstring \<Rightarrow> 'n world \<Rightarrow> int \<times> 'n world" where
  "create_usb_log_directory E usb_log_path w =
     (if dir_exists E w usb_log_path then (0, w)
      else case create_directory E usb_log_path w of (ok, w1) \<Rightarrow> (if ok then 0 else -2, w1))"

text \<open>The paths are cut to their buffers of 1024 bytes.\<close>

fun move_log_loop :: "cstring \<Rightarrow> cstring \<Rightarrow> string list \<Rightarrow> 'n world \<Rightarrow> 'n world" where
  "move_log_loop src dest [] w = w"
| "move_log_loop src dest (n # ns) w =
     (let src_file = take 1023 (slashed src n); dst_file = take 1023 (slashed dest n) in
      if n = ''.'' \<or> n = ''..'' then move_log_loop src dest ns w
      else case os_open_nofollow (fs w) src_file of
        None \<Rightarrow> move_log_loop src dest ns w
      | Some node \<Rightarrow>
          if is_reg node
          then move_log_loop src dest ns (snd (on_fs (\<lambda>f. os_rename f src_file dst_file) w))
          else move_log_loop src dest ns w)"

definition move_log_files :: "cstring \<Rightarrow> cstring \<Rightarrow> 'n world \<Rightarrow> int \<times> 'n world" where
  "move_log_files source_path dest_path w =
     (case os_readdir (fs w) source_path of None \<Rightarrow> (-2, w)
      | Some ns \<Rightarrow> (0, move_log_loop source_path dest_path ns w))"

definition cleanup_temporary_files :: "'n externals \<Rightarrow> cstring \<Rightarrow> 'n world \<Rightarrow> int \<times> 'n world" where
  "cleanup_temporary_files E temp_path w =
     (case remove_directory E temp_path w of (ok, w1) \<Rightarrow> (if ok then 0 else -2, w1))"

text \<open>The result, the path of the directory and the world.\<close>

definition create_temporary_directory ::
  "'n externals \<Rightarrow> cstring \<Rightarrow> nat \<Rightarrow> 'n world \<Rightarrow> int \<times> cstring \<times> 'n world" where
  "create_temporary_directory E file_name buffer_size w =
     (if buffer_size = 0 then (-1, [], w)
      else let p = ''/opt/tmpusb/'' @ file_name; temp_dir_path = take (buffer_size - 1) p in
        if buffer_size \<le> length p then (-1, temp_dir_path, w)
        else case create_directory E temp_dir_path w of (ok, w1) \<Rightarrow>
          if \<not> ok then (3, temp_dir_path, w1)
          else if \<not> os_access (fs w1) temp_dir_path then (3, temp_dir_path, w1)
          else (0, temp_dir_path, w1))"

subsection \<open>The archive\<close>

definition create_usb_log_archive ::
  "'n externals \<Rightarrow> 'n usb_externals \<Rightarrow> cstring \<Rightarrow> cstring \<Rightarrow> cstring \<Rightarrow> 'n world \<Rightarrow> (int \<times> 'n world) option" where
  "create_usb_log_archive E U source_dir usb_archive mac w =
     (case os_stat (fs w) source_dir of None \<Rightarrow> Some (-2, w)
      | Some n \<Rightarrow>
          if \<not> is_dir n then Some (-2, w)
          else (case create_archive E (zero_context\<lparr>mac_address := take 31 mac\<rparr>) zero_session source_dir w of
            None \<Rightarrow> None
          | Some (r, session, w1) \<Rightarrow>
              if r \<noteq> 0 then Some (3, w1)
              else (case (if archive_file session \<noteq> [] then Some (archive_file session)
                          else generate_archive_name 256 mac ''Logs'' w1) of
                None \<Rightarrow> Some (3, w1)
              | Some name \<Rightarrow>
                  (case copy_file_and_delete U (take 511 (slashed source_dir name)) usb_archive w1 of (c, w2) \<Rightarrow>
                     Some (if c \<noteq> 0 then 3 else 0, w2)))))"

subsection \<open>The program\<close>

definition base_name :: "cstring \<Rightarrow> cstring" where
  "base_name log_file =
     (let file_name = take 255 log_file in
      case strstr file_name ''.tgz'' of None \<Rightarrow> file_name | Some i \<Rightarrow> take i file_name)"

text \<open>From the temporary directory on.\<close>

definition usb_archive_run ::
  "'n externals \<Rightarrow> 'n usb_externals \<Rightarrow> cstring \<Rightarrow> cstring \<Rightarrow> cstring \<Rightarrow> cstring \<Rightarrow> 'n world \<Rightarrow> (int \<times> 'n world) option" where
  "usb_archive_run E U log_dir tmp_dir usb_archive mac w =
     (case move_log_files log_dir tmp_dir w of (r, w1) \<Rightarrow>
        if r \<noteq> 0 then Some (r, snd (cleanup_temporary_files E tmp_dir w1))
        else case create_usb_log_archive E U tmp_dir usb_archive mac (snd (reload_syslog_service E U w1)) of
          None \<Rightarrow> None
        | Some (r2, w2) \<Rightarrow>
            Some (if r2 \<noteq> 0 then r2 else USB_LOG_SUCCESS, snd (cleanup_temporary_files E tmp_dir w2)))"

definition usb_log_upload_execute ::
  "'n externals \<Rightarrow> 'n usb_externals \<Rightarrow> cstring \<Rightarrow> 'n world \<Rightarrow> (int \<times> 'n world) option" where
  "usb_log_upload_execute E U usb_mount_point w =
     (if validate_usb_mount_point usb_mount_point w \<noteq> 0 then Some (validate_usb_mount_point usb_mount_point w, w)
      else let log_dir = (case getIncludePropertyData E (outer_of w) ''LOG_PATH'' 256 of
                            None \<Rightarrow> ''/opt/logs'' | Some p \<Rightarrow> p);
               usb_log_dir = take 511 (slashed usb_mount_point ''Log'') in
        case create_usb_log_directory E usb_log_dir w of (r, w1) \<Rightarrow>
          if r \<noteq> 0 then Some (r, w1)
          else (case get_mac_address E 32 w1 of None \<Rightarrow> Some (USB_LOG_ERROR_GENERAL, w1)
          | Some mac \<Rightarrow>
              (case generate_archive_name 256 mac ''Logs'' w1 of None \<Rightarrow> Some (USB_LOG_ERROR_GENERAL, w1)
               | Some log_file \<Rightarrow>
                   (case create_temporary_directory E (base_name log_file) 512 w1 of (r2, tmp_dir, w2) \<Rightarrow>
                      if r2 \<noteq> 0 then Some (r2, w2)
                      else usb_archive_run E U log_dir tmp_dir (take 1023 (slashed usb_log_dir log_file)) mac w2))))"

definition usb_log_main ::
  "'n externals \<Rightarrow> 'n usb_externals \<Rightarrow> cstring list \<Rightarrow> 'n world \<Rightarrow> (int \<times> 'n world) option" where
  "usb_log_main E U argv w =
     (if validate_input_parameters argv \<noteq> 0 then Some (validate_input_parameters argv, w)
      else if validate_device_compatibility E w \<noteq> 0 then Some (validate_device_compatibility E w, w)
      else usb_log_upload_execute E U (argv ! 1) w)"

end
