(* ===== verification/FileSysWf.thy ===== *)
theory FileSysWf
  imports FileSysProps CleanupHandler
begin

text \<open>
  Every system call keeps the tree well formed: no path twice, and every node in a directory.
\<close>

lemma wf_fs_iff:
  "wf_fs f \<longleftrightarrow> distinct (map fst (nodes f)) \<and> (\<forall>p. lookup f p \<noteq> None \<longrightarrow> p \<noteq> [] \<and> is_dir_at f (butlast p))"
proof -
  have "p \<in> fst ` set (nodes f) \<longleftrightarrow> lookup f p \<noteq> None" for p
    by (simp add: lookup_def map_of_eq_None_iff)
  then have "list_all (\<lambda>e. fst e \<noteq> [] \<and> is_dir_at f (butlast (fst e))) (nodes f) \<longleftrightarrow>
      (\<forall>p. lookup f p \<noteq> None \<longrightarrow> p \<noteq> [] \<and> is_dir_at f (butlast p))"
    unfolding list_all_iff by (metis (no_types, lifting) imageE imageI)
  then show ?thesis by (simp add: wf_fs_def)
qed

lemma wf_fs_put:
  assumes "wf_fs f" "p \<noteq> []" "is_dir_at f (butlast p)" "is_dir_at f p \<longrightarrow> is_dir n"
  shows "wf_fs (put f p n)"
proof -
  have d: "is_dir_at (put f p n) q" if "is_dir_at f q" for q
    using that assms(4) by (auto simp: is_dir_at_def)
  have "distinct (map fst (nodes (put f p n)))"
    using assms(1) by (simp add: wf_fs_def put_def distinct_update)
  moreover have "q \<noteq> [] \<and> is_dir_at (put f p n) (butlast q)" if "lookup (put f p n) q \<noteq> None" for q
    using that assms d unfolding wf_fs_iff by (cases "q = p") auto
  ultimately show ?thesis by (simp add: wf_fs_iff)
qed

lemma wf_fs_del:
  assumes "wf_fs f" "children f p = []"
  shows "wf_fs (del f p)"
proof -
  have "distinct (map fst (nodes (del f p)))"
    using assms(1) by (simp add: wf_fs_def del_def distinct_delete)
  moreover have "q \<noteq> [] \<and> is_dir_at (del f p) (butlast q)" if "lookup (del f p) q \<noteq> None" for q
  proof -
    have q: "q \<noteq> p" "lookup f q \<noteq> None" using that by (auto split: if_splits)
    then have i: "q \<noteq> [] \<and> is_dir_at f (butlast q)" using assms(1) unfolding wf_fs_iff by blast
    have "butlast q \<noteq> p"
    proof
      assume "butlast q = p"
      then have "q = p @ [last q]" using i by (metis append_butlast_last_id)
      with q(2) have "last q \<in> set (children f p)" by (simp add: set_children)
      with assms(2) show False by simp
    qed
    with i show ?thesis by (auto simp: is_dir_at_def)
  qed
  ultimately show ?thesis by (simp add: wf_fs_iff)
qed

lemma no_children:
  assumes "wf_fs f" "lookup f p = Some n" "\<not> is_dir n"
  shows "children f p = []"
proof -
  have "lookup f (p @ [x]) = None" for x
    using wf_fs_below_dir [OF assms(1), of p "[x]"] assms by (auto simp: is_dir_at_def wf_fs_iff)
  then show ?thesis by (simp flip: set_empty add: set_children)
qed

subsection \<open>The system calls\<close>

lemma wf_write_at: "wf_fs f \<Longrightarrow> os_write_at f p d t = Some g \<Longrightarrow> wf_fs g"
  by (auto simp: os_write_at_def is_dir_def split: if_splits intro!: wf_fs_put)

lemma wf_write: "wf_fs f \<Longrightarrow> os_write f s d t = Some g \<Longrightarrow> wf_fs g"
  by (auto simp: os_write_def split: option.splits dest: wf_write_at)

lemma wf_append: "wf_fs f \<Longrightarrow> os_append f s d t = Some g \<Longrightarrow> wf_fs g"
  by (auto simp: os_append_def split: option.splits node.splits dest: wf_write_at)

lemma wf_mkdir: "wf_fs f \<Longrightarrow> os_mkdir f s t = Inr g \<Longrightarrow> wf_fs g"
  by (auto simp: os_mkdir_def Let_def is_dir_def split: if_splits intro!: wf_fs_put)

lemma wf_unlink: "wf_fs f \<Longrightarrow> os_unlink f s = Inr g \<Longrightarrow> wf_fs g"
  by (auto simp: os_unlink_def Let_def split: if_splits option.splits intro!: wf_fs_del no_children)

lemma wf_rmdir: "wf_fs f \<Longrightarrow> os_rmdir f s = Inr g \<Longrightarrow> wf_fs g"
  by (auto simp: os_rmdir_def Let_def split: if_splits option.splits intro!: wf_fs_del)

lemma wf_remove: "wf_fs f \<Longrightarrow> os_remove f s = Inr g \<Longrightarrow> wf_fs g"
  by (auto simp: os_remove_def split: option.splits node.splits dest: wf_unlink wf_rmdir)

lemma wf_truncate:
  assumes "wf_fs f" "os_truncate_nofollow f s t = Some g"
  shows "wf_fs g"
proof -
  obtain d m where l: "lookup f (comps s) = Some (Reg d m)" and g: "g = put f (comps s) (Reg [] t)"
    using assms(2) by (auto simp: os_truncate_nofollow_def os_open_nofollow_def os_lstat_def is_reg_def
        split: option.splits if_splits node.splits)
  have "comps s \<noteq> [] \<and> is_dir_at f (butlast (comps s))" using wf_fs_parent [OF assms(1)] l by simp
  then show ?thesis using assms(1) l unfolding g by (intro wf_fs_put) (auto simp: is_dir_at_def is_dir_def)
qed

lemma under_butlast: "under c (butlast q) \<Longrightarrow> under c q"
  unfolding under_def
  by (metis append_take_drop_id butlast_conv_take take_take min.absorb1 linear length_take take_all)

lemma not_under_butlast: "b \<noteq> [] \<Longrightarrow> \<not> under b (butlast b)"
proof
  assume "b \<noteq> []" "under b (butlast b)"
  then have "length (take (length b) (butlast b)) = length b" by (simp only: under_def)
  moreover have "length (take (length b) (butlast b)) < length b" using \<open>b \<noteq> []\<close> by (simp add: min_def)
  ultimately show False by simp
qed

lemma distinct_move_nodes:
  assumes "wf_fs f" "is_dir_at f b \<longrightarrow> children f b = []"
  shows "distinct (map fst (move_nodes a b (nodes f)))"
proof -
  note nb = nothing_below_target [OF assms]
  have "inj_on (moved a b) (fst ` set (AList.delete b (nodes f)))"
  proof (rule inj_onI)
    fix p q assume p: "p \<in> fst ` set (AList.delete b (nodes f))" and q: "q \<in> fst ` set (AList.delete b (nodes f))"
      and e: "moved a b p = moved a b q"
    show "p = q" using e nb [OF p] nb [OF q] by (auto simp: moved_def split: if_splits elim!: underE)
  qed
  moreover have "distinct (map fst (AList.delete b (nodes f)))"
    using assms(1) by (simp add: wf_fs_def distinct_delete)
  ultimately have "distinct (map (moved a b) (map fst (AList.delete b (nodes f))))"
    by (subst distinct_map) simp
  then show ?thesis by (simp add: move_nodes_def comp_def)
qed

lemma wf_rename:
  assumes wf: "wf_fs f" and ok: "os_rename f s r = Inr f'"
  shows "wf_fs f'"
proof (cases "comps s = comps r")
  case True
  with ok wf show ?thesis by (auto simp: os_rename_def Let_def split: option.splits if_splits)
next
  case False
  define a where "a = comps s"
  define b where "b = comps r"
  note L = lookup_rename [OF wf ok False, folded a_def b_def]
  obtain n where n: "lookup f a = Some n" and f': "nodes f' = move_nodes a b (nodes f)"
    and ab: "\<not> under a b" "b \<noteq> []" "is_dir_at f (butlast b)" and bdir: "is_dir_at f b \<longrightarrow> children f b = []"
    unfolding a_def b_def using os_renameE [OF ok False] by blast
  have "q \<noteq> [] \<and> is_dir_at f' (butlast q)" if q: "lookup f' q \<noteq> None" for q
  proof -
    consider "q = b" | t where "q = b @ t" "t \<noteq> []" | "\<not> under b q" by (metis append_Nil2 underE)
    then show ?thesis
    proof cases
      case 1
      have "\<not> under a (butlast b)" using under_butlast ab(1) by blast
      then show ?thesis using ab not_under_butlast 1 by (simp add: is_dir_at_def L)
    next
      case 2
      have "lookup f (a @ t) \<noteq> None" using q 2(1) by (simp add: L)
      then have "is_dir_at f (butlast (a @ t))" using wf unfolding wf_fs_iff by blast
      moreover have "a \<noteq> []" using n wf unfolding wf_fs_iff by blast
      ultimately show ?thesis using 2 ab(2) by (simp add: is_dir_at_def L butlast_append)
    next
      case 3
      then have "lookup f q \<noteq> None" "\<not> under a q" using q by (auto simp: L split: if_splits)
      moreover from this have "q \<noteq> [] \<and> is_dir_at f (butlast q)" using wf unfolding wf_fs_iff by blast
      ultimately show ?thesis using under_butlast [of b q] under_butlast [of a q] 3 by (auto simp: is_dir_at_def L)
    qed
  qed
  moreover have "distinct (map fst (nodes f'))" unfolding f' by (rule distinct_move_nodes [OF wf bdir])
  ultimately show ?thesis by (simp add: wf_fs_iff)
qed

lemma rename_file:
  assumes wf: "wf_fs f" and ok: "os_rename f s r = Inr f'" and ne: "comps s \<noteq> comps r"
    and reg: "lookup f (comps s) = Some (Reg d m)"
  shows "lookup f' q = (if q = comps r then Some (Reg d m) else if q = comps s then None else lookup f q)"
proof -
  have below: "lookup f (comps s @ t) = None" if "t \<noteq> []" for t
    using wf_fs_below_dir [OF wf, of "comps s" t] reg that wf by (auto simp: is_dir_at_def is_dir_def wf_fs_iff)
  have "\<not> is_dir_at f (comps r)"
    using ok ne reg by (auto simp: os_rename_def Let_def is_dir_def split: if_splits)
  then have belowr: "lookup f (comps r @ t) = None" if "t \<noteq> []" for t
    using wf_fs_below_dir [OF wf, of "comps r" t] that by blast
  have "lookup f (comps s @ drop (length (comps r)) q) = lookup f q" if "under (comps r) q" "q \<noteq> comps r"
  proof -
    have "\<exists>t. q = comps r @ t" using \<open>under (comps r) q\<close> by (auto elim: underE)
    then obtain t where "q = comps r @ t" by blast
    with that(2) show ?thesis using below [of t] belowr [of t] by auto
  qed
  moreover have "lookup f q = None" if "under (comps s) q" "q \<noteq> comps s"
  proof -
    have "\<exists>t. q = comps s @ t" using \<open>under (comps s) q\<close> by (auto elim: underE)
    with that(2) show ?thesis using below by fastforce
  qed
  moreover have "comps r \<noteq> comps s @ t" for t
    using ok ne reg by (auto simp: os_rename_def Let_def split: if_splits)
  moreover have "\<not> under (comps r) (comps s)"
  proof
    assume "under (comps r) (comps s)"
    then have "\<exists>t. comps s = comps r @ t" by (auto elim: underE)
    with belowr reg ne show False by fastforce
  qed
  ultimately show ?thesis
    unfolding lookup_rename [OF wf ok ne] using reg ne \<open>\<not> is_dir_at f (comps r)\<close> by (cases "q = comps r"; cases "q = comps s"; cases "under (comps r) q"; simp)
qed

end
