(* ===== verification/ArchiveProps.thy ===== *)
theory ArchiveProps
  imports ArchiveManager PathHandler CleanupProps
begin

text \<open>
  The two encodings of the upload tool are read back by reference decoders: the digest in base 64,
  and the tar stream of an archive.
\<close>

subsection \<open>Base 64\<close>

definition base64_value :: "char \<Rightarrow> 32 word" where
  "base64_value c = (case index_of c base64_chars of None \<Rightarrow> 0 | Some i \<Rightarrow> of_nat i)"

definition base64_join :: "char \<Rightarrow> char \<Rightarrow> char \<Rightarrow> char \<Rightarrow> 32 word" where
  "base64_join p q r s = push_bit 18 (base64_value p) OR push_bit 12 (base64_value q) OR
     push_bit 6 (base64_value r) OR base64_value s"

text \<open>Four characters stand for three bytes; one or two equals signs at the end leave bytes out.\<close>

fun base64_decode :: "string \<Rightarrow> u8 list" where
  "base64_decode (p # q # r # s # rest) =
     (let t = base64_join p q r s in
      if r = CHR ''='' then [ucast (drop_bit 16 t)]
      else if s = CHR ''='' then [ucast (drop_bit 16 t), ucast (drop_bit 8 t)]
      else ucast (drop_bit 16 t) # ucast (drop_bit 8 t) # ucast t # base64_decode rest)"
| "base64_decode _ = []"

lemma base64_table:
  "list_all (\<lambda>i. base64_value (base64_chars ! i) = of_nat i \<and> base64_chars ! i \<noteq> CHR ''='') [0..<64]"
  by code_simp

lemma six_bits: "unat (x AND 0x3F :: 32 word) < 64"
proof -
  have "x AND 0x3F = take_bit 6 x" by (simp add: take_bit_eq_mask mask_eq_exp_minus_1)
  then show ?thesis using take_bit_nat_less_exp [of 6 "unat x"] by (simp add: unsigned_take_bit_eq)
qed

lemma base64_value_char: "base64_value (base64_char x) = x AND 0x3F"
  and base64_char_not_eq: "base64_char x \<noteq> CHR ''=''"
proof -
  have "unat (x AND 0x3F) \<in> set [0..<64]" using six_bits [of x] by simp
  with base64_table show "base64_value (base64_char x) = x AND 0x3F" "base64_char x \<noteq> CHR ''=''"
    unfolding list_all_iff base64_char_def by simp_all
qed

lemma base64_equals: "base64_value (CHR ''='') = 0"
  by code_simp

lemma sextets_join:
  fixes t :: "32 word"
  shows "push_bit 18 (drop_bit 18 t AND 0x3F) OR push_bit 12 (drop_bit 12 t AND 0x3F) OR
      push_bit 6 (drop_bit 6 t AND 0x3F) OR (t AND 0x3F) = take_bit 24 t"
proof -
  have m: "(0x3F :: 32 word) = mask 6" by (simp add: mask_eq_exp_minus_1)
  show ?thesis
    unfolding m
  proof (rule bit_word_eqI)
    fix n assume "n < LENGTH(32)"
    have "(18 \<le> n \<and> n - 18 < 6 \<or> 12 \<le> n \<and> n - 12 < 6 \<or> 6 \<le> n \<and> n - 6 < 6 \<or> n < 6) = (n < 24)"
      by presburger
    then show "bit (push_bit 18 (drop_bit 18 t AND mask 6) OR push_bit 12 (drop_bit 12 t AND mask 6) OR
      push_bit 6 (drop_bit 6 t AND mask 6) OR (t AND mask 6)) n = bit (take_bit 24 t) n"
      using \<open>n < LENGTH(32)\<close> by (auto simp: bit_simps)
  qed
qed

lemma triple_bytes:
  fixes a b c :: u8
  shows "ucast (drop_bit 16 (take_bit 24 (base64_triple a b c))) = a"
    and "ucast (drop_bit 8 (take_bit 24 (base64_triple a b c))) = b"
    and "ucast (take_bit 24 (base64_triple a b c)) = c"
  unfolding base64_triple_def
  by (rule bit_word_eqI, auto simp: bit_simps dest: bit_imp_le_length)+

lemma base64_join_chars:
  "base64_join (base64_char (drop_bit 18 t)) (base64_char (drop_bit 12 t)) (base64_char (drop_bit 6 t))
     (base64_char t) = take_bit 24 t"
  by (simp only: base64_join_def base64_value_char sextets_join)

lemma short_sextets:
  fixes a b :: u8
  shows "drop_bit 6 (base64_triple a 0 0) AND 0x3F = 0" "base64_triple a b 0 AND 0x3F = 0"
proof -
  have m: "(0x3F :: 32 word) = mask 6" by (simp add: mask_eq_exp_minus_1)
  show "drop_bit 6 (base64_triple a 0 0) AND 0x3F = 0" "base64_triple a b 0 AND 0x3F = 0"
    unfolding m base64_triple_def by (rule bit_word_eqI, auto simp: bit_simps)+
qed

lemma base64_loop_decode: "base64_decode (base64_loop bs) = bs"
proof (induction bs rule: base64_loop.induct)
  case (2 a)
  let ?t = "base64_triple a 0 0"
  have "base64_join (base64_char (drop_bit 18 ?t)) (base64_char (drop_bit 12 ?t)) (CHR ''='') (CHR ''='') = take_bit 24 ?t"
    using sextets_join [of ?t] by (simp only: base64_join_def base64_value_char base64_equals short_sextets)
  then show ?case by (simp add: Let_def triple_bytes)
next
  case (3 a b)
  let ?t = "base64_triple a b 0"
  have "base64_join (base64_char (drop_bit 18 ?t)) (base64_char (drop_bit 12 ?t)) (base64_char (drop_bit 6 ?t)) (CHR ''='') = take_bit 24 ?t"
    using sextets_join [of ?t] by (simp only: base64_join_def base64_value_char base64_equals short_sextets)
  then show ?case by (simp add: Let_def triple_bytes base64_char_not_eq)
next
  case (4 a b c rest)
  then show ?case by (simp add: Let_def base64_join_chars triple_bytes base64_char_not_eq)
qed simp

lemma base64_loop_length: "length (base64_loop bs) = (length bs + 2) div 3 * 4"
  by (induction bs rule: base64_loop.induct) (simp_all add: Let_def, presburger)

text \<open>
  Claim C34. The base-64 text of the digest is decoded to the digest by a reference decoder, for input
  of every length, and with its terminating NUL it fits the output buffer.
\<close>

theorem base64_roundtrip:
  assumes "base64_encode bytes n = Some s"
  shows "base64_decode s = bytes \<and> length s = (length bytes + 2) div 3 * 4 \<and> length s < n"
  using assms by (auto simp: base64_encode_def Let_def base64_loop_decode base64_loop_length split: if_splits)

theorem base64_roundtrip_witness:
  "base64_decode (the (base64_encode [1, 2, 250, 255] 9)) = [1, 2, 250, 255]"
  using base64_roundtrip [of "[1, 2, 250, 255]" 9 "the (base64_encode [1, 2, 250, 255] 9)"]
  by (simp add: base64_encode_def Let_def)

subsection \<open>Tar\<close>

definition octal_digit :: "char \<Rightarrow> bool" where
  "octal_digit c = (48 \<le> (of_char c :: nat) \<and> (of_char c :: nat) < 56)"

definition octal_value :: "cstring \<Rightarrow> nat" where
  "octal_value s = foldl (\<lambda>v c. 8 * v + (of_char c - 48)) 0 s"

definition until_nul :: "cstring \<Rightarrow> cstring" where
  "until_nul s = takeWhile (\<lambda>c. c \<noteq> NUL) s"

definition checksum_ok :: "cstring \<Rightarrow> bool" where
  "checksum_ok h = (byte_sum (take 148 h @ replicate 8 (CHR '' '') @ drop 156 h) = octal_value (take 6 (drop 148 h)))"

text \<open>A reader of tar streams: the name, type, link target and contents of every member up to the first
  block of zeros, or \<^const>\<open>None\<close> when a checksum is wrong.\<close>

type_synonym member = "cstring \<times> char \<times> cstring \<times> cstring"

definition member_of :: "cstring \<Rightarrow> member" where
  "member_of s =
     (until_nul (take 100 s), s ! 156, until_nul (take 100 (drop 157 s)),
      take (octal_value (take 11 (drop 124 s))) (drop 512 s))"

function untar :: "cstring \<Rightarrow> member list option" where
  "untar s =
     (if length s < 512 \<or> take 512 s = replicate 512 NUL then Some []
      else if \<not> checksum_ok (take 512 s) then None
      else let n = octal_value (take 11 (drop 124 s))
           in map_option (Cons (member_of s)) (untar (drop (512 + n + tar_padding n) s)))"
  by pat_completeness auto
termination by (relation "measure length") auto

declare untar.simps [simp del]

lemma octal_value_append: "octal_value (s @ [c]) = 8 * octal_value s + (of_char c - 48)"
  by (simp add: octal_value_def)

lemma octal_value_zeros: "octal_value (replicate k (CHR ''0'') @ s) = octal_value s"
  by (induction k) (simp_all add: octal_value_def)

lemma of_char_small: "n < 256 \<Longrightarrow> (of_char (char_of (n :: nat)) :: nat) = n"
  by (simp add: of_char_of)

lemma octal_value_octal: "octal_value (octal n) = n"
proof (induction n rule: octal.induct)
  case (1 n)
  show ?case
  proof (cases "n < 8")
    case True
    then show ?thesis by (simp add: octal.simps [of n] octal_value_def of_char_small)
  next
    case False
    then show ?thesis using 1
      by (simp add: octal.simps [of n] octal_value_append of_char_small)
  qed
qed

lemma octal_length: "n < 8 ^ k \<Longrightarrow> 0 < k \<Longrightarrow> length (octal n) \<le> k"
proof (induction k arbitrary: n)
  case (Suc k)
  show ?case
  proof (cases "n < 8")
    case True
    then show ?thesis by (simp add: octal.simps [of n])
  next
    case False
    then have "0 < k" using Suc.prems(1) by (cases k) auto
    moreover have "n div 8 < 8 ^ k" using Suc.prems(1) by (simp add: less_mult_imp_div_less mult.commute)
    ultimately show ?thesis using Suc.IH [of "n div 8"] False by (simp add: octal.simps [of n])
  qed
qed simp

lemma octal_nonempty: "octal n \<noteq> []"
  by (simp add: octal.simps [of n])

lemma zero_fill_octal:
  assumes "n < 8 ^ k" "0 < k"
  shows "length (zero_fill k (octal n)) = k \<and> octal_value (zero_fill k (octal n)) = n"
  using octal_length [OF assms] by (simp add: zero_fill_def octal_value_zeros octal_value_octal)

lemma pad_field_length [simp]: "0 < n \<Longrightarrow> length (pad_field n s) = n"
  by (simp add: pad_field_def)

lemma octal_field_length [simp]: "0 < len \<Longrightarrow> length (octal_field len w n) = len"
  by (simp add: octal_field_def)

lemma pad_field_short: "length s < n \<Longrightarrow> pad_field n s = s @ replicate (n - length s) NUL"
  by (simp add: pad_field_def)

lemma until_nul_pad: "NUL \<notin> set s \<Longrightarrow> length s < n \<Longrightarrow> until_nul (pad_field n s) = s"
  by (simp add: until_nul_def pad_field_short takeWhile_append)

lemma byte_sum_append: "byte_sum (a @ b) = byte_sum a + byte_sum b"
  by (induction a) (simp_all add: byte_sum_def)

lemma byte_sum_bound: "byte_sum s \<le> 255 * length s"
proof (induction s)
  case (Cons c s)
  have "(of_char c :: nat) \<le> 255" using nat_of_char_less_256 [of c] by linarith
  with Cons show ?case by (simp add: byte_sum_def)
qed (simp add: byte_sum_def)

text \<open>A header in three parts: before, in, and behind the checksum.\<close>

definition header_start :: "cstring \<Rightarrow> nat \<Rightarrow> node \<Rightarrow> cstring" where
  "header_start name mode st = pad_field 100 name @ octal_field 8 7 (mode AND 511) @ octal_field 8 7 0 @
     octal_field 8 7 0 @ octal_field 12 11 (case st of Reg d m \<Rightarrow> length d | Dir m \<Rightarrow> 0 | Lnk t m \<Rightarrow> 0) @
     octal_field 12 11 (nat (node_mtime st mod 18446744073709551616))"

definition header_end :: "node \<Rightarrow> cstring option \<Rightarrow> cstring" where
  "header_end st link =
     (case st of Reg d m \<Rightarrow> CHR ''0'' | Dir m \<Rightarrow> CHR ''0'' | Lnk t m \<Rightarrow> CHR ''2'') #
     (case st of Reg d m \<Rightarrow> replicate 100 NUL | Dir m \<Rightarrow> replicate 100 NUL
        | Lnk t m \<Rightarrow> (case link of None \<Rightarrow> replicate 100 NUL | Some l \<Rightarrow> pad_field 100 l)) @
     ''ustar'' @ [NUL] @ ''00'' @ replicate 247 NUL"

lemma header_start_length [simp]: "length (header_start name mode st) = 148"
  by (simp add: header_start_def)

lemma header_end_length [simp]: "length (header_end st link) = 356"
  by (simp add: header_end_def split: node.split option.split)

lemma header_parts:
  "header_bytes (tar_header_of name mode st link) =
     header_start name mode st @
     checksum_field (byte_sum (header_start name mode st @ replicate 8 (CHR '' '') @ header_end st link)) @
     header_end st link"
  by (cases st) (simp_all add: header_bytes_def tar_header_of_def calculate_tar_checksum_def Let_def
      header_start_def header_end_def)

lemma checksum_field_reads:
  assumes "n < 8 ^ 6"
  shows "length (checksum_field n) = 8 \<and> octal_value (take 6 (checksum_field n)) = n"
  using zero_fill_octal [OF assms] by (simp add: checksum_field_def Let_def)

lemma header_checksum:
  "length (header_bytes (tar_header_of name mode st link)) = 512 \<and>
   checksum_ok (header_bytes (tar_header_of name mode st link))"
proof -
  let ?s = "header_start name mode st @ replicate 8 (CHR '' '') @ header_end st link"
  have "byte_sum ?s \<le> 255 * 512" using byte_sum_bound [of ?s] by simp
  then have c: "length (checksum_field (byte_sum ?s)) = 8" "octal_value (take 6 (checksum_field (byte_sum ?s))) = byte_sum ?s"
    using checksum_field_reads [of "byte_sum ?s"] by simp_all
  show ?thesis
    unfolding header_parts checksum_ok_def using c by simp
qed

lemma header_starts_with_name:
  assumes "name \<noteq> []" "NUL \<notin> set name" "length name < 100"
  shows "header_bytes (tar_header_of name mode st link) = name @ drop (length name) (header_bytes (tar_header_of name mode st link))"
    and "until_nul (take 100 (header_bytes (tar_header_of name mode st link))) = name"
proof -
  have "take 100 (header_bytes (tar_header_of name mode st link)) = pad_field 100 name"
    unfolding header_parts by (simp add: header_start_def)
  with assms show "until_nul (take 100 (header_bytes (tar_header_of name mode st link))) = name"
    by (simp add: until_nul_pad)
  show "header_bytes (tar_header_of name mode st link) = name @ drop (length name) (header_bytes (tar_header_of name mode st link))"
    unfolding header_parts header_start_def using assms(3) by (simp add: pad_field_short)
qed

lemma header_of_file:
  assumes "length d < 8 ^ 11"
  shows "octal_value (take 11 (drop 124 (header_bytes (tar_header_of name mode (Reg d m) link)))) = length d"
    and "header_bytes (tar_header_of name mode (Reg d m) link) ! 156 = CHR ''0''"
    and "until_nul (take 100 (drop 157 (header_bytes (tar_header_of name mode (Reg d m) link)))) = []"
proof -
  let ?h = "header_bytes (tar_header_of name mode (Reg d m) link)"
  let ?s = "byte_sum (header_start name mode (Reg d m) @ replicate 8 (CHR '' '') @ header_end (Reg d m) link)"
  have z: "length (zero_fill 11 (octal (length d))) = 11" "octal_value (zero_fill 11 (octal (length d))) = length d"
    using zero_fill_octal [of "length d" 11] assms by simp_all
  have "take 11 (drop 124 ?h) = take 11 (octal_field 12 11 (length d))"
    unfolding header_parts by (simp add: header_start_def)
  then show "octal_value (take 11 (drop 124 ?h)) = length d"
    using z by (simp add: octal_field_def pad_field_short)
  have "byte_sum (header_start name mode (Reg d m) @ replicate 8 (CHR '' '') @ header_end (Reg d m) link) \<le> 255 * 512"
    using byte_sum_bound [of "header_start name mode (Reg d m) @ replicate 8 (CHR '' '') @ header_end (Reg d m) link"] by simp
  then have "length (checksum_field ?s) = 8" using checksum_field_reads [of ?s] by simp
  then have "drop 156 ?h = header_end (Reg d m) link" "length (header_start name mode (Reg d m) @ checksum_field ?s) = 156"
    unfolding header_parts by simp_all
  moreover have "drop (Suc 156) ?h = tl (drop 156 ?h)" by (simp only: drop_Suc tl_drop)
  then have "drop 157 ?h = tl (drop 156 ?h)" by simp
  ultimately show "?h ! 156 = CHR ''0''" "until_nul (take 100 (drop 157 ?h)) = []"
    by (simp_all add: header_end_def until_nul_def nth_via_drop)
qed

subsection \<open>Streams\<close>

definition file_bytes :: "cstring \<Rightarrow> nat \<Rightarrow> cstring \<Rightarrow> int \<Rightarrow> cstring" where
  "file_bytes name mode d m =
     header_bytes (tar_header_of name mode (Reg d m) None) @ d @ replicate (tar_padding (length d)) NUL"

lemma untar_end: "untar (replicate 1024 NUL) = Some []"
  by (simp add: untar.simps)

lemma untar_file:
  assumes "name \<noteq> []" "NUL \<notin> set name" "length name < 100" "length d < 8 ^ 11"
  shows "untar (file_bytes name mode d m @ rest) = map_option (Cons (name, CHR ''0'', [], d)) (untar rest)"
proof -
  define h where "h = header_bytes (tar_header_of name mode (Reg d m) None)"
  define s where "s = file_bytes name mode d m @ rest"
  have l: "length h = 512" "checksum_ok h" using header_checksum by (simp_all add: h_def)
  have s_eq: "s = h @ d @ replicate (tar_padding (length d)) NUL @ rest" by (simp add: file_bytes_def h_def s_def)
  have t: "take k (drop j s) = take k (drop j h)" if "j + k \<le> 512" for j k
    using that by (simp add: s_eq l)
  have size: "octal_value (take 11 (drop 124 s)) = length d"
    using t [of 124 11] header_of_file(1) [OF assms(4)] by (simp add: h_def)
  have "s ! 156 = CHR ''0''"
    using header_of_file(2) [OF assms(4), of name mode m None] l(1) by (simp add: s_eq nth_append flip: h_def)
  moreover have "until_nul (take 100 s) = name"
    using t [of 0 100] header_starts_with_name(2) [OF assms(1-3)] by (simp add: h_def)
  moreover have "until_nul (take 100 (drop 157 s)) = []"
    using t [of 157 100] header_of_file(3) [OF assms(4)] by (simp add: h_def)
  moreover have "take (length d) (drop 512 s) = d" by (simp add: s_eq l)
  ultimately have m: "member_of s = (name, CHR ''0'', [], d)"
    by (simp add: member_of_def size)
  have "h \<noteq> replicate 512 NUL"
  proof
    assume "h = replicate 512 NUL"
    then have "hd h = NUL" by simp
    moreover have "hd h = hd name"
      using header_starts_with_name(1) [OF assms(1-3), of mode "Reg d m" None] assms(1)
      by (metis h_def hd_append2)
    ultimately show False using assms(1,2) by (metis hd_in_set)
  qed
  moreover have "take 512 s = h" "512 \<le> length s" by (simp_all add: s_eq l)
  moreover have "drop (512 + length d + tar_padding (length d)) s = rest" by (simp add: s_eq l)
  ultimately show ?thesis
    using l(2) by (simp add: untar.simps [of s] size m Let_def flip: s_def)
qed

lemma chunks_write:
  assumes "\<And>u n. gzwrite_ok E u n"
  shows "gzwrite_chunks E w gz d = (True, gz @ d)"
proof (induction d arbitrary: gz rule: length_induct)
  case (1 d)
  show ?case
  proof (cases "d = []")
    case False
    then show ?thesis using 1 assms
      by (simp add: gzwrite_chunks.simps [of E w gz d] gzwrite_def)
  qed (simp add: gzwrite_chunks.simps)
qed

text \<open>A file that the reader can represent: a regular file that can be opened, with a name that fits the
  header and a size that fits its octal field.\<close>

definition file_ok :: "fsys \<Rightarrow> cstring \<Rightarrow> string \<Rightarrow> bool" where
  "file_ok f dir n =
     (real_name n \<and> NUL \<notin> set n \<and> length n < 100 \<and> \<not> too_long (slashed dir n) \<and>
      \<not> List.member (denied f) (comps dir @ [n]) \<and>
      (\<exists>d m. lookup f (comps dir @ [n]) = Some (Reg d m) \<and> length d < 8 ^ 11))"

definition contents :: "fsys \<Rightarrow> cstring \<Rightarrow> string \<Rightarrow> cstring" where
  "contents f dir n = node_data (the (lookup f (comps dir @ [n])))"

lemma arc_name_slashed: "arc_name dir (slashed dir n) = n"
  by (simp add: arc_name_def slashed_def)

definition tar_bytes :: "'n externals \<Rightarrow> 'n world \<Rightarrow> cstring \<Rightarrow> string \<Rightarrow> cstring" where
  "tar_bytes E w dir n =
     file_bytes n (st_mode_of E (outer_of w) (slashed dir n)) (contents (fs w) dir n)
       (node_mtime (the (lookup (fs w) (comps dir @ [n]))))"

lemma add_file_bytes:
  assumes "\<And>u n. gzwrite_ok E u n" "file_ok (fs w) dir n"
  shows "add_file_to_tar E w gz (slashed dir n) n = (0, gz @ tar_bytes E w dir n)"
proof -
  from assms(2) obtain d m where l: "lookup (fs w) (comps dir @ [n]) = Some (Reg d m)"
    and "real_name n" "\<not> List.member (denied (fs w)) (comps dir @ [n])"
    by (auto simp: file_ok_def)
  then have "os_open_nofollow (fs w) (slashed dir n) = Some (Reg d m)"
    by (simp add: os_open_nofollow_def os_lstat_def)
  then show ?thesis
    using l by (simp add: add_file_to_tar_def is_reg_def write_tar_header_def gzwrite_def assms(1)
        chunks_write [OF assms(1)] file_bytes_def tar_bytes_def contents_def Let_def)
qed

definition archived :: "string \<Rightarrow> string list \<Rightarrow> string list" where
  "archived excl ns = filter (\<lambda>n. n \<noteq> ''.'' \<and> n \<noteq> ''..'' \<and> n \<noteq> excl) ns"

lemma add_entries_files:
  assumes "\<And>u n. gzwrite_ok E u n"
    and "\<And>n. n \<in> set ns \<Longrightarrow> n = ''.'' \<or> n = ''..'' \<or> n = excl \<or> file_ok (fs w) dir n"
    and "\<not> too_long (slashed dir excl)"
  shows "add_entries sub E w dir dir (slashed dir excl) ns gz =
    Some (0, gz @ concat (map (tar_bytes E w dir) (archived excl ns)))"
  using assms(2)
proof (induction ns arbitrary: gz)
  case Nil
  then show ?case by (simp add: archived_def)
next
  case (Cons n ns)
  have IH: "add_entries sub E w dir dir (slashed dir excl) ns g =
    Some (0, g @ concat (map (tar_bytes E w dir) (archived excl ns)))" for g
    using Cons by simp
  consider "n = ''.'' \<or> n = ''..''" | "n = excl" "n \<noteq> ''.''" "n \<noteq> ''..''"
    | "n \<noteq> excl" "n \<noteq> ''.''" "n \<noteq> ''..''" "file_ok (fs w) dir n"
    using Cons.prems [of n] by auto
  then show ?case
  proof cases
    case 1
    then show ?thesis using IH by (auto simp: archived_def)
  next
    case 2
    moreover from this have "take 511 (slashed dir n) = slashed dir excl"
      using assms(3) by (simp add: too_long_def MAX_PATH_LENGTH_def)
    ultimately show ?thesis using IH by (simp add: archived_def Let_def)
  next
    case 3
    then obtain d m where l: "lookup (fs w) (comps dir @ [n]) = Some (Reg d m)" "real_name n"
      "\<not> too_long (slashed dir n)" by (auto simp: file_ok_def)
    have "take 511 (slashed dir n) = slashed dir n"
      using l(3) by (simp add: too_long_def MAX_PATH_LENGTH_def)
    moreover have "slashed dir n \<noteq> slashed dir excl" using 3(1) by (simp add: slashed_def)
    moreover have "os_lstat (fs w) (slashed dir n) = Some (Reg d m)" using l by (simp add: os_lstat_def)
    ultimately show ?thesis
      using 3 IH by (simp add: archived_def Let_def arc_name_slashed add_file_bytes [OF assms(1)])
  qed
qed

lemma untar_files:
  assumes "\<And>n. n \<in> set ns \<Longrightarrow> file_ok (fs w) dir n"
  shows "untar (concat (map (tar_bytes E w dir) ns) @ replicate 1024 NUL) =
    Some (map (\<lambda>n. (n, CHR ''0'', [], contents (fs w) dir n)) ns)"
  using assms
proof (induction ns)
  case Nil
  then show ?case using untar_end by simp
next
  case (Cons n ns)
  then have "file_ok (fs w) dir n" by simp
  then have "n \<noteq> []" "NUL \<notin> set n" "length n < 100" "length (contents (fs w) dir n) < 8 ^ 11"
    by (auto simp: file_ok_def real_name_def contents_def)
  from untar_file [OF this] Cons show ?case
    by (simp add: tar_bytes_def)
qed

subsection \<open>Archives\<close>

lemma file_ok_put: "m \<noteq> n \<Longrightarrow> file_ok f dir n \<Longrightarrow> file_ok (put f (comps dir @ [m]) (Reg d t)) dir n"
  by (simp add: file_ok_def)

lemma contents_put: "m \<noteq> n \<Longrightarrow> contents (put f (comps dir @ [m]) (Reg d t)) dir n = contents f dir n"
  by (simp add: contents_def)

lemma file_exists_reads: "file_utilities E \<Longrightarrow> os_read (fs w) p = Some d \<Longrightarrow> p \<noteq> [] \<Longrightarrow> file_exists E w p"
  by (auto simp: file_exists_def file_utilities_def os_stat_def os_read_def split: option.splits if_splits)

lemma add_directory_files:
  assumes "\<And>u n. gzwrite_ok E u n" "os_readdir (fs w) dir = Some ns" "\<not> too_long (slashed dir excl)"
    and "\<And>n. n \<in> set ns \<Longrightarrow> n = ''.'' \<or> n = ''..'' \<or> n = excl \<or> file_ok (fs w) dir n"
  shows "add_directory_to_tar E w gz dir dir (slashed dir excl) =
    Some (0, gz @ concat (map (tar_bytes E w dir) (archived excl ns)))"
proof -
  have "add_dir (Suc 299) E w dir (slashed dir excl) gz dir =
      Some (0, gz @ concat (map (tar_bytes E w dir) (archived excl ns)))"
    unfolding add_dir.simps assms(2) option.case by (rule add_entries_files [OF assms(1,4,3)])
  then show ?thesis by (simp add: add_directory_to_tar_def)
qed

text \<open>With the archive created in it, the directory is read as the stream of its other files.\<close>

lemma stream_of_directory:
  fixes w :: "'n world"
  assumes "\<And>u n. gzwrite_ok E u n" "\<not> too_long (slashed dir a)"
    and dir: "os_readdir (fs w) dir \<noteq> None" "resolve (fs w) dir = Some (comps dir)"
    and arch: "resolve (fs w) (slashed dir a) = Some (comps dir @ [a])"
    and files: "\<And>n. lookup (fs w) (comps dir @ [n]) \<noteq> None \<Longrightarrow> n \<noteq> a \<Longrightarrow> file_ok (fs w) dir n"
  obtains stream names where
    "add_directory_to_tar E (w\<lparr>fs := put (fs w) (comps dir @ [a]) (Reg [] t)\<rparr>) [] dir dir (slashed dir a) = Some (0, stream)"
    "untar (stream @ replicate 1024 NUL) = Some (map (\<lambda>n. (n, CHR ''0'', [], contents (fs w) dir n)) names)"
    "set names = {n. n \<noteq> a \<and> lookup (fs w) (comps dir @ [n]) \<noteq> None}"
proof -
  define f1 where "f1 = put (fs w) (comps dir @ [a]) (Reg [] t)"
  define w1 where "w1 = w\<lparr>fs := f1\<rparr>"
  have res: "resolve f1 r = resolve (fs w) r" for r using resolve_put [OF arch] by (simp add: f1_def)
  have "is_dir_at f1 (comps dir)" "denied f1 = denied (fs w)"
    using dir by (auto simp: os_readdir_def is_dir_at_put_reg f1_def split: if_splits)
  then have ns: "os_readdir f1 dir = Some (''.'' # ''..'' # children f1 (comps dir))" (is "_ = Some ?ns")
    using dir by (auto simp: os_readdir_def res split: if_splits)
  have set_ns: "set ?ns = {''.'', ''..''} \<union> {n. n = a \<or> lookup (fs w) (comps dir @ [n]) \<noteq> None}"
    by (auto simp: set_children f1_def)
  have ok: "file_ok f1 dir n" if "lookup (fs w) (comps dir @ [n]) \<noteq> None" "n \<noteq> a" for n
    using files [OF that] that(2) by (simp add: f1_def file_ok_put)
  have add: "add_directory_to_tar E w1 [] dir dir (slashed dir a) =
      Some (0, concat (map (tar_bytes E w1 dir) (archived a ?ns)))"
    by (subst add_directory_files [OF assms(1) _ assms(2), of w1 ?ns]) (use ns set_ns ok in \<open>auto simp: w1_def\<close>)
  have "file_ok (fs w1) dir n" if "n \<in> set (archived a ?ns)" for n
    using that set_ns ok by (auto simp: archived_def w1_def)
  moreover have "contents (fs w1) dir n = contents (fs w) dir n" if "n \<in> set (archived a ?ns)" for n
    using that by (auto simp: archived_def w1_def f1_def contents_put)
  ultimately have tar: "untar (concat (map (tar_bytes E w1 dir) (archived a ?ns)) @ replicate 1024 NUL) =
      Some (map (\<lambda>n. (n, CHR ''0'', [], contents (fs w) dir n)) (archived a ?ns))"
    using untar_files [of "archived a ?ns" w1 dir E] by simp
  have "n \<noteq> ''.'' \<and> n \<noteq> ''..''" if "n \<noteq> a" "lookup (fs w) (comps dir @ [n]) \<noteq> None" for n
    using files [OF that(2,1)] by (simp only: file_ok_def real_name_def) blast
  then have "set (archived a ?ns) = {n. n \<noteq> a \<and> lookup (fs w) (comps dir @ [n]) \<noteq> None}"
    unfolding archived_def set_filter set_ns by blast
  then show thesis by (rule that [folded f1_def w1_def, OF add tar])
qed

lemma archive_made:
  fixes w :: "'n world"
  assumes env: "file_utilities E" "\<And>u n. gzwrite_ok E u n" "\<And>u. gzclose_ok E u"
    and dir: "dir_exists E w dir" "os_readdir (fs w) dir \<noteq> None" "resolve (fs w) dir = Some (comps dir)"
    and name: "generate_archive_name_at 256 (mac_address ctx) ''Logs''
        (if archive_ref_time ctx \<noteq> 0 then archive_ref_time ctx else clock w) = Some a"
    and arch: "resolve (fs w) (slashed dir a) = Some (comps dir @ [a])" "writable (fs w) (comps dir @ [a])"
        "\<not> too_long (slashed dir a)"
    and files: "\<And>n. lookup (fs w) (comps dir @ [n]) \<noteq> None \<Longrightarrow> n \<noteq> a \<Longrightarrow> file_ok (fs w) dir n"
  shows "\<exists>f stream names. create_archive E ctx s dir w = Some (0, s\<lparr>archive_file := a\<rparr>, w\<lparr>fs := f\<rparr>) \<and>
    (\<forall>q. lookup f q = (if q = comps dir @ [a] then Some (Reg (gzip_bytes E stream) (clock w)) else lookup (fs w) q)) \<and>
    denied f = denied (fs w) \<and> os_read f (slashed dir a) = Some (gzip_bytes E stream) \<and>
    untar stream = Some (map (\<lambda>n. (n, CHR ''0'', [], contents (fs w) dir n)) names) \<and>
    set names = {n. n \<noteq> a \<and> lookup (fs w) (comps dir @ [n]) \<noteq> None}"
proof -
  let ?p = "comps dir @ [a]"
  define f1 where "f1 = put (fs w) ?p (Reg [] (clock w))"
  have cut: "take 511 (slashed dir a) = slashed dir a" "take 255 a = a"
    using arch(3) name by (auto simp: too_long_def MAX_PATH_LENGTH_def generate_archive_name_at_def split: option.splits)
  have wr: "os_write (fs w) (slashed dir a) [] (clock w) = Some f1"
    using arch(1,2) by (simp add: os_write_def os_write_at_eq f1_def)
  obtain stream names where add: "add_directory_to_tar E (w\<lparr>fs := f1\<rparr>) [] dir dir (slashed dir a) = Some (0, stream)"
    and tar: "untar (stream @ replicate 1024 NUL) = Some (map (\<lambda>n. (n, CHR ''0'', [], contents (fs w) dir n)) names)"
    and set: "set names = {n. n \<noteq> a \<and> lookup (fs w) (comps dir @ [n]) \<noteq> None}"
    unfolding f1_def by (rule stream_of_directory [OF env(2) arch(3) dir(2,3) arch(1) files])
  define gz where "gz = stream @ replicate 1024 NUL"
  define f2 where "f2 = put f1 ?p (Reg (gzip_bytes E gz) (clock w))"
  have "resolve f1 (slashed dir a) = Some ?p" using resolve_put [OF arch(1)] arch(1) by (simp add: f1_def)
  then have wr2: "os_write f1 (slashed dir a) (gzip_bytes E gz) (clock w) = Some f2"
    using arch(2) by (simp add: os_write_def os_write_at_eq f2_def) (simp add: f1_def writable_put)
  have rd: "os_read f2 (slashed dir a) = Some (gzip_bytes E gz)" by (rule os_read_after_write [OF wr2])
  have look: "\<forall>q. lookup f2 q = (if q = ?p then Some (Reg (gzip_bytes E gz) (clock w)) else lookup (fs w) q)"
    "denied f2 = denied (fs w)" by (simp_all add: f2_def f1_def)
  have ex: "file_exists E (w\<lparr>fs := f2\<rparr>) (slashed dir a)"
    by (rule file_exists_reads [OF env(1)]) (use rd in \<open>simp_all add: slashed_def\<close>)
  have made: "create_archive E ctx s dir w = Some (0, s\<lparr>archive_file := a\<rparr>, w\<lparr>fs := f2\<rparr>)"
    using dir(1) name cut wr add wr2 env(3) ex
    by (simp add: create_archive_def create_archive_with_options_def Let_def gzwrite_def env(2) TAR_BLOCK_SIZE_def
        flip: gz_def)
  show ?thesis by (intro exI conjI) (rule made, rule look, rule look, rule rd, rule tar [folded gz_def], rule set)
qed

text \<open>
  Claim C35. Making an archive of a directory of regular files succeeds when the directory and the archive
  can be opened and written, and the file it leaves is the compressed form of a tar stream from
  which a reference reader recovers exactly the files of the directory, with their names and
  contents, the archive itself left out.
\<close>

theorem archive_reads_back:
  fixes w :: "'n world"
  assumes env: "file_utilities E" "\<And>u n. gzwrite_ok E u n" "\<And>u. gzclose_ok E u"
    and dir: "dir_exists E w dir" "os_readdir (fs w) dir \<noteq> None" "resolve (fs w) dir = Some (comps dir)"
    and name: "generate_archive_name_at 256 (mac_address ctx) ''Logs''
        (if archive_ref_time ctx \<noteq> 0 then archive_ref_time ctx else clock w) = Some a"
    and arch: "resolve (fs w) (slashed dir a) = Some (comps dir @ [a])" "writable (fs w) (comps dir @ [a])"
        "\<not> too_long (slashed dir a)"
    and files: "\<And>n. lookup (fs w) (comps dir @ [n]) \<noteq> None \<Longrightarrow> n \<noteq> a \<Longrightarrow> file_ok (fs w) dir n"
  shows "\<exists>w' stream names. create_archive E ctx s dir w = Some (0, s\<lparr>archive_file := a\<rparr>, w') \<and>
    os_read (fs w') (slashed dir a) = Some (gzip_bytes E stream) \<and>
    untar stream = Some (map (\<lambda>n. (n, CHR ''0'', [], contents (fs w) dir n)) names) \<and>
    set names = {n. n \<noteq> a \<and> lookup (fs w) (comps dir @ [n]) \<noteq> None}"
proof -
  obtain f stream names where
    "create_archive E ctx s dir w = Some (0, s\<lparr>archive_file := a\<rparr>, w\<lparr>fs := f\<rparr>)"
    "os_read f (slashed dir a) = Some (gzip_bytes E stream)"
    "untar stream = Some (map (\<lambda>n. (n, CHR ''0'', [], contents (fs w) dir n)) names)"
    "set names = {n. n \<noteq> a \<and> lookup (fs w) (comps dir @ [n]) \<noteq> None}"
    using archive_made [OF env dir name arch files] by blast
  then show ?thesis by (intro exI [of _ "w\<lparr>fs := f\<rparr>"] exI) auto
qed

definition archive_context :: RuntimeContext where
  "archive_context = zero_context\<lparr>mac_address := ''AA''\<rparr>"

lemma archive_time:
  "gmtime_r 1700000000 = Some \<lparr>tm_sec = 20, tm_min = 13, tm_hour = 22, tm_mday = 14, tm_mon = 10,
     tm_year = 123, tm_wday = 2\<rparr>"
  by code_simp

lemma archive_name:
  "generate_archive_name_at 256 ''AA'' ''Logs'' 1700000000 = Some ''AA_Logs_11-14-23-10-13PM.tgz''"
  by (simp add: generate_archive_name_at_def archive_time mac_clean_def stamp_def dec2_def char_of_def)

lemma archive_place:
  "resolve (fs log_world) (slashed ''/opt/logs'' ''AA_Logs_11-14-23-10-13PM.tgz'') =
     Some (comps ''/opt/logs'' @ [''AA_Logs_11-14-23-10-13PM.tgz''])"
  "writable (fs log_world) (comps ''/opt/logs'' @ [''AA_Logs_11-14-23-10-13PM.tgz''])"
  "\<not> too_long (slashed ''/opt/logs'' ''AA_Logs_11-14-23-10-13PM.tgz'')"
  unfolding writable_def by code_simp+

lemma archive_files:
  assumes "lookup (fs log_world) (comps ''/opt/logs'' @ [n]) \<noteq> None"
  shows "file_ok (fs log_world) ''/opt/logs'' n"
proof -
  have n: "n = ''a.log'' \<or> n = ''.b'' \<or> n = ''c.tgz''"
    using assms by (auto simp: log_world_facts(5) log_world_def sample_world_def log_tree_def lookup_def split: if_splits)
  have "list_all (\<lambda>n. real_name n \<and> length n < 100 \<and> \<not> too_long (slashed ''/opt/logs'' n)) [''a.log'', ''.b'', ''c.tgz'']"
    by code_simp
  moreover have "NUL \<notin> set ''a.log''" "NUL \<notin> set ''.b''" "NUL \<notin> set ''c.tgz''"
    by (simp_all add: NUL_def char_of_def)
  ultimately show ?thesis
    using n by (auto simp: file_ok_def log_world_facts(5) log_world_lookup)
qed

theorem archive_reads_back_witness:
  "\<exists>w' stream names. create_archive script_externals archive_context zero_session ''/opt/logs'' log_world =
      Some (0, zero_session\<lparr>archive_file := ''AA_Logs_11-14-23-10-13PM.tgz''\<rparr>, w') \<and>
    os_read (fs w') (slashed ''/opt/logs'' ''AA_Logs_11-14-23-10-13PM.tgz'') = Some stream \<and>
    untar stream = Some (map (\<lambda>n. (n, CHR ''0'', [], contents (fs log_world) ''/opt/logs'' n)) names)"
proof -
  have e: "gzwrite_ok script_externals u n" "gzclose_ok script_externals u" "gzip_bytes script_externals b = b" for u n b
    by (simp_all add: script_externals_def script_gzwrite_ok_def script_gzclose_ok_def script_gzip_bytes_def)
  have c: "mac_address archive_context = ''AA''" "archive_ref_time archive_context = 0" "clock log_world = 1700000000"
    by (simp_all add: archive_context_def zero_context_def log_world_def sample_world_def)
  have g: "generate_archive_name_at 256 (mac_address archive_context) ''Logs''
      (if archive_ref_time archive_context \<noteq> 0 then archive_ref_time archive_context else clock log_world) =
      Some ''AA_Logs_11-14-23-10-13PM.tgz''"
    using archive_name by (simp add: c)
  have r: "os_readdir (fs log_world) ''/opt/logs'' \<noteq> None" using log_world_facts(3) by simp
  show ?thesis
    using archive_reads_back [OF script_file_utilities e(1,2) log_world_facts(2) r log_world_facts(4) g archive_place
        archive_files, where s = zero_session] by (auto simp: e(3))
qed

end
