(* ===== verification/UsbProps.thy ===== *)
theory UsbProps
  imports UsbLog FileSysWf ArchiveProps
begin

text \<open>
  What the copy of the logs to a USB drive does to the logs when it fails.
\<close>

subsection \<open>The move into the temporary directory\<close>

definition log_file_at :: "fsys \<Rightarrow> cstring \<Rightarrow> string \<Rightarrow> bool" where
  "log_file_at f dir n = (\<exists>d m. lookup f (comps dir @ [n]) = Some (Reg d m))"

text \<open>The log directory and the temporary directory can be read and written, and the temporary
  directory has no entry with the name of a log.\<close>

definition movable :: "cstring \<Rightarrow> cstring \<Rightarrow> fsys \<Rightarrow> bool" where
  "movable src dest f =
     (wf_fs f \<and> names_ok f \<and> comps src \<noteq> comps dest \<and> is_dir_at f (comps src) \<and> is_dir_at f (comps dest) \<and>
      (\<forall>n. log_file_at f src n \<longrightarrow> lookup f (comps dest @ [n]) = None \<and>
         comps src @ [n] \<notin> set (denied f) \<and> comps dest @ [n] \<notin> set (denied f) \<and>
         length (slashed src n) < 1024 \<and> length (slashed dest n) < 1024))"

lemma denied_rename: "os_rename f s r = Inr g \<Longrightarrow> denied g = denied f"
  by (auto simp: os_rename_def Let_def split: option.splits if_splits)

lemma not_under_file:
  assumes "wf_fs f" "lookup f a = Some (Reg d m)" "is_dir_at f b" "a \<noteq> b @ [n]"
  shows "\<not> under a (b @ [n])"
proof
  assume "under a (b @ [n])"
  then have "\<exists>t. b @ [n] = a @ t" by (auto elim: underE)
  then obtain t where t: "b @ [n] = a @ t" by blast
  with assms(4) have "t \<noteq> []" by auto
  then have b: "b = a @ butlast t" using t by (metis butlast_append butlast_snoc)
  show False
  proof (cases "butlast t = []")
    case True
    then show False using b assms(1-3) by (auto simp: is_dir_at_def is_dir_def wf_fs_iff)
  next
    case False
    then have "lookup f b \<noteq> None" using assms(3) b by (auto simp: is_dir_at_def split: option.splits)
    then have "is_dir_at f a" using wf_fs_below_dir [OF assms(1), of a "butlast t"] b False by simp
    then show False using assms(1,2) by (auto simp: is_dir_at_def is_dir_def wf_fs_iff)
  qed
qed

lemma move_log_file:
  assumes mv: "movable src dest f" and l: "lookup f (comps src @ [n]) = Some (Reg d m)"
  obtains g where "os_rename f (slashed src n) (slashed dest n) = Inr g"
    "\<And>q. lookup g q = (if q = comps dest @ [n] then Some (Reg d m) else if q = comps src @ [n] then None else lookup f q)"
    "movable src dest g" "denied g = denied f"
proof -
  have n: "real_name n" using mv l by (auto simp: movable_def names_ok_lookup)
  have free: "lookup f (comps dest @ [n]) = None" "comps src @ [n] \<notin> set (denied f)" "comps dest @ [n] \<notin> set (denied f)"
    using mv l by (auto simp: movable_def log_file_at_def)
  have wf: "wf_fs f" and d: "is_dir_at f (comps dest)" "is_dir_at f (comps src)" and ne: "comps src \<noteq> comps dest"
    using mv by (simp_all add: movable_def)
  have "\<not> under (comps src @ [n]) (comps dest @ [n])"
    using not_under_file [OF wf l d(1)] ne by simp
  moreover have "\<not> is_dir_at f (comps dest @ [n])" using free(1) by (simp add: is_dir_at_def)
  ultimately have "\<exists>g. os_rename f (slashed src n) (slashed dest n) = Inr g"
    using n l free d(1) ne by (simp add: os_rename_def is_dir_def Let_def)
  then obtain g where g: "os_rename f (slashed src n) (slashed dest n) = Inr g" by blast
  have L: "lookup g q = (if q = comps dest @ [n] then Some (Reg d m) else if q = comps src @ [n] then None else lookup f q)" for q
    using rename_file [OF wf g, of d m q] n l ne by simp
  have dn: "denied g = denied f" using g by (rule denied_rename)
  have dirs: "is_dir_at g p" if "is_dir_at f p" for p
    using that l free(1) by (auto simp: is_dir_at_def L is_dir_def split: option.splits)
  have "list_all real_name (comps dest @ [n])"
  proof (cases "comps dest = []")
    case False
    then have "lookup f (comps dest) \<noteq> None" using d(1) by (auto simp: is_dir_at_def split: option.splits)
    then show ?thesis using mv n by (auto simp: movable_def names_ok_lookup)
  qed (simp add: n)
  then have "names_ok g" using mv by (auto simp: movable_def names_ok_lookup L)
  moreover have "log_file_at g src k \<Longrightarrow> log_file_at f src k \<and> k \<noteq> n" for k
    using ne by (auto simp: log_file_at_def L split: if_splits)
  ultimately have "movable src dest g"
    using mv wf_rename [OF wf g] dirs dn by (auto simp: movable_def L)
  with g L dn that show ?thesis by blast
qed

text \<open>A path is one of the listed logs of a directory.\<close>

definition listed_log :: "fsys \<Rightarrow> cstring \<Rightarrow> string list \<Rightarrow> path \<Rightarrow> path \<Rightarrow> bool" where
  "listed_log f src ns d p = (p \<noteq> [] \<and> butlast p = d \<and> last p \<in> set ns \<and> log_file_at f src (last p))"

lemma listed_log_Nil [simp]: "\<not> listed_log f src [] d p"
  by (simp add: listed_log_def)

lemma listed_log_slot [simp]:
  "listed_log f src ns d (e @ [n]) \<longleftrightarrow> e = d \<and> n \<in> set ns \<and> log_file_at f src n"
  by (auto simp: listed_log_def)

lemma listed_log_skip: "\<not> log_file_at f src n \<Longrightarrow> listed_log f src (n # ns) d p = listed_log f src ns d p"
  by (auto simp: listed_log_def)

lemma listed_log_step:
  assumes "\<And>k. log_file_at g src k \<longleftrightarrow> log_file_at f src k \<and> k \<noteq> n" "log_file_at f src n"
  shows "listed_log f src (n # ns) d p \<longleftrightarrow> p = d @ [n] \<or> listed_log g src ns d p"
proof (cases "p = d @ [n]")
  case True
  then show ?thesis using assms(2) by (simp add: listed_log_def)
next
  case False
  then have "p \<noteq> [] \<Longrightarrow> butlast p = d \<Longrightarrow> last p \<noteq> n" by (metis append_butlast_last_id)
  then show ?thesis using assms(1) False by (auto simp: listed_log_def)
qed

lemma move_log_skips:
  assumes "\<not> log_file_at (fs w) src n" "entry_ok n" "length (slashed src n) < 1024"
  shows "move_log_loop src dest (n # ns) w = move_log_loop src dest ns w"
proof (cases "real_name n")
  case True
  have "os_open_nofollow (fs w) (take 1023 (slashed src n)) = None \<or>
      (\<exists>x. os_open_nofollow (fs w) (take 1023 (slashed src n)) = Some x \<and> \<not> is_reg x)"
    using assms True
    by (auto simp: os_open_nofollow_def os_lstat_def log_file_at_def is_reg_def split: option.splits node.splits)
  then show ?thesis by (auto simp: Let_def)
next
  case False
  then show ?thesis using assms(2) by (auto simp: entry_ok_def)
qed

lemma move_log_moves:
  fixes w :: "'n world"
  assumes "movable src dest (fs w)" "log_file_at (fs w) src n"
  obtains g d m where "lookup (fs w) (comps src @ [n]) = Some (Reg d m)"
    "move_log_loop src dest (n # ns) w = move_log_loop src dest ns (w\<lparr>fs := g\<rparr>)" "movable src dest g"
    "\<And>q. lookup g q = (if q = comps dest @ [n] then Some (Reg d m) else if q = comps src @ [n] then None else lookup (fs w) q)"
    "\<And>k. log_file_at g src k \<longleftrightarrow> log_file_at (fs w) src k \<and> k \<noteq> n"
proof -
  obtain d m where l: "lookup (fs w) (comps src @ [n]) = Some (Reg d m)" using assms(2) by (auto simp: log_file_at_def)
  have n: "real_name n" using assms(1) l by (auto simp: movable_def names_ok_lookup)
  obtain g where g: "os_rename (fs w) (slashed src n) (slashed dest n) = Inr g"
    "\<And>q. lookup g q = (if q = comps dest @ [n] then Some (Reg d m) else if q = comps src @ [n] then None else lookup (fs w) q)"
    "movable src dest g" "denied g = denied (fs w)"
    by (rule move_log_file [OF assms(1) l]) blast
  have files: "comps src @ [n] \<notin> set (denied (fs w))" "length (slashed src n) < 1024" "length (slashed dest n) < 1024"
    using assms by (auto simp: movable_def)
  have "move_log_loop src dest (n # ns) w = move_log_loop src dest ns (w\<lparr>fs := g\<rparr>)"
    using n l g(1) files by (simp add: Let_def real_name_def os_open_nofollow_def os_lstat_def is_reg_def on_fs_def)
  moreover have "log_file_at g src k \<longleftrightarrow> log_file_at (fs w) src k \<and> k \<noteq> n" for k
    using assms(1) by (auto simp: log_file_at_def g(2) movable_def)
  ultimately show thesis using that [OF l _ g(3,2)] by blast
qed

lemma move_log_loop_lookup:
  fixes w :: "'n world"
  assumes "movable src dest (fs w)" "list_all entry_ok ns" "\<And>n. n \<in> set ns \<Longrightarrow> length (slashed src n) < 1024"
  shows "lookup (fs (move_log_loop src dest ns w)) p =
    (if listed_log (fs w) src ns (comps src) p then None
     else if listed_log (fs w) src ns (comps dest) p then lookup (fs w) (comps src @ [last p])
     else lookup (fs w) p)"
  using assms
proof (induction ns arbitrary: w)
  case Nil
  then show ?case by simp
next
  case (Cons n ns)
  show ?case
  proof (cases "log_file_at (fs w) src n")
    case False
    have "move_log_loop src dest (n # ns) w = move_log_loop src dest ns w"
      by (rule move_log_skips [OF False]) (use Cons.prems(2,3) in simp_all)
    then show ?thesis using Cons False by (simp add: listed_log_skip)
  next
    case True
    obtain g d m where l: "lookup (fs w) (comps src @ [n]) = Some (Reg d m)"
      and eq: "move_log_loop src dest (n # ns) w = move_log_loop src dest ns (w\<lparr>fs := g\<rparr>)" and g: "movable src dest g"
      "\<And>q. lookup g q = (if q = comps dest @ [n] then Some (Reg d m) else if q = comps src @ [n] then None else lookup (fs w) q)"
      and lg: "\<And>k. log_file_at g src k \<longleftrightarrow> log_file_at (fs w) src k \<and> k \<noteq> n"
      by (rule move_log_moves [OF Cons.prems(1) True]) (rule that)
    have ne: "comps src \<noteq> comps dest" using Cons.prems(1) by (simp add: movable_def)
    note step = listed_log_step [of g src "fs w" n ns _ p, OF lg True]
    have IH: "lookup (fs (move_log_loop src dest ns (w\<lparr>fs := g\<rparr>))) p =
        (if listed_log g src ns (comps src) p then None
         else if listed_log g src ns (comps dest) p then lookup g (comps src @ [last p]) else lookup g p)"
      using Cons.IH [of "w\<lparr>fs := g\<rparr>"] g(1) Cons.prems(2,3) by simp
    have cross: "listed_log g src ns (comps dest) p \<Longrightarrow> last p \<noteq> n \<and> p \<noteq> comps dest @ [n]"
      by (auto simp: listed_log_def lg)
    consider "p = comps dest @ [n]" | "p = comps src @ [n]" | "p \<noteq> comps dest @ [n]" "p \<noteq> comps src @ [n]" by blast
    then have "lookup (fs (move_log_loop src dest ns (w\<lparr>fs := g\<rparr>))) p =
        (if p = comps src @ [n] \<or> listed_log g src ns (comps src) p then None
         else if p = comps dest @ [n] \<or> listed_log g src ns (comps dest) p
         then lookup (fs w) (comps src @ [last p]) else lookup (fs w) p)"
      by cases (use IH ne l lg cross in \<open>simp_all add: g(2)\<close>)
    then show ?thesis using eq step by simp
  qed
qed

subsection \<open>The temporary directory\<close>

text \<open>What \<^verbatim>\<open>emptyFolder\<close> does to a directory.\<close>

definition empties :: "'n externals \<Rightarrow> bool" where
  "empties E = (\<forall>u p. emptyFolder E p u = (0, u\<lparr>fs := (fs u)\<lparr>nodes := under_entries (comps p) (nodes (fs u))\<rparr>\<rparr>))"

lemma script_empties: "empties script_externals"
  by (simp add: empties_def script_externals_def script_emptyFolder_def)

lemma map_of_kept: "map_of (filter (\<lambda>e. A (fst e) \<longrightarrow> fst e = d) xs) p = (if A p \<longrightarrow> p = d then map_of xs p else None)"
  by (induction xs) auto

lemma lookup_emptied:
  "lookup (f\<lparr>nodes := under_entries d (nodes f)\<rparr>) p = (if under d p \<and> p \<noteq> d then None else lookup f p)"
  by (simp add: lookup_def under_entries_def map_of_kept)

lemma remove_directory_lookup:
  assumes "file_utilities E" "empties E" "lookup (fs w) (comps p) = Some (Dir k)" "comps p \<notin> set (denied (fs w))"
    and "comps p \<noteq> []"
  shows "fst (remove_directory E p w)"
    "lookup (fs (snd (remove_directory E p w))) q = (if under (comps p) q then None else lookup (fs w) q)"
    "denied (fs (snd (remove_directory E p w))) = denied (fs w)"
proof -
  let ?g = "(fs w)\<lparr>nodes := under_entries (comps p) (nodes (fs w))\<rparr>"
  have ne: "p \<noteq> []" using assms(5) by (auto simp: comps_def)
  have "resolve (fs w) p = Some (comps p)" by (rule resolve_plain) (simp add: assms(3))
  then have d: "dir_exists E w p"
    using assms(1,3,5) ne by (simp add: dir_exists_def file_utilities_def os_stat_def is_dir_def)
  have e: "xcall (emptyFolder E p) w = (0, w\<lparr>fs := ?g\<rparr>)"
    using assms(2) by (simp add: xcall_def empties_def)
  have "lookup ?g (comps p @ [x]) = None" for x by (simp add: lookup_emptied)
  then have "children ?g (comps p) = []" by (simp flip: set_empty add: set_children)
  then have r: "os_rmdir ?g p = Inr (del ?g (comps p))"
    using assms(3,4) by (simp add: os_rmdir_def Let_def lookup_emptied is_dir_def)
  show "fst (remove_directory E p w)" using ne d e r by (simp add: remove_directory_def on_fs_def)
  show "lookup (fs (snd (remove_directory E p w))) q = (if under (comps p) q then None else lookup (fs w) q)"
    using ne d e r by (auto simp: remove_directory_def on_fs_def lookup_emptied)
  show "denied (fs (snd (remove_directory E p w))) = denied (fs w)"
    using ne d e r by (simp add: remove_directory_def on_fs_def)
qed

text \<open>The move as a whole.\<close>

lemma move_log_loop_fs:
  "\<exists>f. move_log_loop src dest ns w = w\<lparr>fs := f\<rparr> \<and> denied f = denied (fs w)"
proof (induction ns arbitrary: w)
  case Nil
  then show ?case by (intro exI [of _ "fs w"]) simp
next
  case (Cons n ns)
  have "\<exists>f. snd (on_fs (\<lambda>f. os_rename f a b) w) = w\<lparr>fs := f\<rparr> \<and> denied f = denied (fs w)" for a b
  proof (cases "os_rename (fs w) a b")
    case (Inl e)
    then show ?thesis by (intro exI [of _ "fs w"]) (simp add: on_fs_def)
  next
    case (Inr g)
    then show ?thesis by (auto simp: on_fs_def dest: denied_rename)
  qed
  then obtain f where f: "snd (on_fs (\<lambda>f. os_rename f (take 1023 (slashed src n)) (take 1023 (slashed dest n))) w) = w\<lparr>fs := f\<rparr>"
    "denied f = denied (fs w)" by blast
  from Cons.IH [of w] Cons.IH [of "w\<lparr>fs := f\<rparr>"] f show ?case by (auto simp: Let_def split: option.split)
qed

lemma moved_logs:
  fixes w :: "'n world"
  assumes mv: "movable log_dir tmp_dir (fs w)" "comps log_dir \<noteq> []" "comps log_dir \<notin> set (denied (fs w))"
    and short: "\<And>n. lookup (fs w) (comps log_dir @ [n]) \<noteq> None \<Longrightarrow> length (slashed log_dir n) < 1024"
  shows "\<exists>f. move_log_files log_dir tmp_dir w = (0, w\<lparr>fs := f\<rparr>) \<and> denied f = denied (fs w) \<and>
    (\<forall>n. log_file_at (fs w) log_dir n \<longrightarrow> lookup f (comps log_dir @ [n]) = None \<and>
       lookup f (comps tmp_dir @ [n]) = lookup (fs w) (comps log_dir @ [n])) \<and>
    (\<forall>p. (\<forall>n. log_file_at (fs w) log_dir n \<longrightarrow> p \<noteq> comps log_dir @ [n] \<and> p \<noteq> comps tmp_dir @ [n]) \<longrightarrow>
       lookup f p = lookup (fs w) p)"
proof -
  let ?ns = "children (fs w) (comps log_dir)"
  obtain ml where ml: "lookup (fs w) (comps log_dir) = Some (Dir ml)"
    using mv by (auto simp: movable_def is_dir_at_def is_dir_def split: option.splits node.splits)
  have "resolve (fs w) log_dir = Some (comps log_dir)" by (rule resolve_plain) (simp add: ml)
  then have rd: "os_readdir (fs w) log_dir = Some (''.'' # ''..'' # ?ns)"
    using mv by (simp add: os_readdir_def movable_def)
  have eok: "list_all entry_ok ?ns" using readdir_entry_ok [OF _ rd] mv(1) by (simp add: movable_def)
  obtain f where f: "move_log_loop log_dir tmp_dir ?ns w = w\<lparr>fs := f\<rparr>" "denied f = denied (fs w)"
    using move_log_loop_fs by blast
  have L: "lookup f p = (if listed_log (fs w) log_dir ?ns (comps log_dir) p then None
     else if listed_log (fs w) log_dir ?ns (comps tmp_dir) p then lookup (fs w) (comps log_dir @ [last p]) else lookup (fs w) p)" for p
    using move_log_loop_lookup [OF mv(1) eok, of p] short f(1) by (simp add: set_children)
  have "move_log_loop log_dir tmp_dir (''.'' # ''..'' # ?ns) w = move_log_loop log_dir tmp_dir ?ns w" by simp
  then have w1: "move_log_files log_dir tmp_dir w = (0, w\<lparr>fs := f\<rparr>)"
    using f(1) by (simp add: move_log_files_def rd del: move_log_loop.simps)
  have ns: "n \<in> set ?ns" if "log_file_at (fs w) log_dir n" for n
    using that by (auto simp: set_children log_file_at_def)
  have "lookup f (comps log_dir @ [n]) = None \<and> lookup f (comps tmp_dir @ [n]) = lookup (fs w) (comps log_dir @ [n])"
    if "log_file_at (fs w) log_dir n" for n
    using that ns mv(1) by (auto simp: L listed_log_def movable_def)
  moreover have "lookup f p = lookup (fs w) p"
    if "\<forall>n. log_file_at (fs w) log_dir n \<longrightarrow> p \<noteq> comps log_dir @ [n] \<and> p \<noteq> comps tmp_dir @ [n]" for p
  proof -
    have "\<not> listed_log (fs w) log_dir ?ns (comps log_dir) p" "\<not> listed_log (fs w) log_dir ?ns (comps tmp_dir) p"
      using that unfolding listed_log_def by (metis append_butlast_last_id)+
    then show ?thesis by (simp add: L)
  qed
  ultimately show ?thesis using w1 f(2) by blast
qed

text \<open>
  Claim C40. When the archive cannot be made or cannot be written to the drive, the logs are lost: they have
  all been moved out of the log directory into the temporary directory, and the run ends by
  removing that directory with everything in it, and reports the error.
\<close>

theorem usb_failure_loses_logs:
  fixes w :: "'n world"
  assumes env: "file_utilities E" "empties E"
    and mv: "movable log_dir tmp_dir (fs w)" "comps log_dir \<noteq> []" "comps log_dir \<notin> set (denied (fs w))"
    and short: "\<And>n. lookup (fs w) (comps log_dir @ [n]) \<noteq> None \<Longrightarrow> length (slashed log_dir n) < 1024"
    and moved: "w1 = snd (move_log_files log_dir tmp_dir w)"
    and failed: "create_usb_log_archive E U tmp_dir usb_archive mac (snd (reload_syslog_service E U w1)) = Some (r, w2)" "r \<noteq> 0"
    and tmp: "lookup (fs w2) (comps tmp_dir) = Some (Dir k)" "comps tmp_dir \<notin> set (denied (fs w2))" "comps tmp_dir \<noteq> []"
  shows "(\<forall>n d m. lookup (fs w) (comps log_dir @ [n]) = Some (Reg d m) \<longrightarrow>
      lookup (fs w1) (comps log_dir @ [n]) = None \<and> lookup (fs w1) (comps tmp_dir @ [n]) = Some (Reg d m)) \<and>
    (\<exists>v. usb_archive_run E U log_dir tmp_dir usb_archive mac w = Some (r, v) \<and>
      (\<forall>p. lookup (fs v) p = (if under (comps tmp_dir) p then None else lookup (fs w2) p)))"
proof -
  obtain f where f: "move_log_files log_dir tmp_dir w = (0, w\<lparr>fs := f\<rparr>)"
    "\<forall>n. log_file_at (fs w) log_dir n \<longrightarrow> lookup f (comps log_dir @ [n]) = None \<and>
       lookup f (comps tmp_dir @ [n]) = lookup (fs w) (comps log_dir @ [n])"
    using moved_logs [OF mv short] by metis
  have "lookup (fs w1) (comps log_dir @ [n]) = None \<and> lookup (fs w1) (comps tmp_dir @ [n]) = Some (Reg d m)"
    if "lookup (fs w) (comps log_dir @ [n]) = Some (Reg d m)" for n d m
    using that f moved by (simp add: log_file_at_def)
  moreover have "usb_archive_run E U log_dir tmp_dir usb_archive mac w = Some (r, snd (remove_directory E tmp_dir w2))"
    using f(1) moved failed by (simp add: usb_archive_run_def cleanup_temporary_files_def split: prod.splits)
  ultimately show ?thesis
    using remove_directory_lookup(2) [OF env tmp] by blast
qed

text \<open>A log directory, and a temporary directory in which the archive cannot be created.\<close>

definition usb_world :: "script world" where
  "usb_world = (sample_world quiet_script
     [([''opt''], Dir 1), ([''opt'', ''logs''], Dir 1), ([''opt'', ''logs'', ''app.log''], Reg ''up'' 5),
      ([''opt'', ''tmpusb''], Dir 1), ([''opt'', ''tmpusb'', ''x''], Dir 1)])
     \<lparr>fs := \<lparr>nodes = [([''opt''], Dir 1), ([''opt'', ''logs''], Dir 1), ([''opt'', ''logs'', ''app.log''], Reg ''up'' 5),
      ([''opt'', ''tmpusb''], Dir 1), ([''opt'', ''tmpusb'', ''x''], Dir 1)],
      denied = [[''opt'', ''tmpusb'', ''x'', ''AA_Logs_11-14-23-10-13PM.tgz'']]\<rparr>\<rparr>"

definition usb_script :: "script usb_externals" where
  "usb_script = \<lparr>pidof = (\<lambda>u. (None, u)), kill_hup = (\<lambda>p u. (0, u)), fwrite_all = (\<lambda>u p d. (True, d))\<rparr>"

definition usb_moved :: "script world" where
  "usb_moved = snd (move_log_files ''/opt/logs'' ''/opt/tmpusb/x'' usb_world)"

lemma usb_paths: "comps ''/opt/logs'' = [''opt'', ''logs'']" "comps ''/opt/tmpusb/x'' = [''opt'', ''tmpusb'', ''x'']"
  by code_simp+

lemma usb_entry:
  assumes "lookup (fs usb_world) (comps ''/opt/logs'' @ [n]) \<noteq> None"
  shows "n = ''app.log''"
  using assms by (auto simp: usb_paths usb_world_def lookup_def split: if_splits)

lemma usb_movable: "movable ''/opt/logs'' ''/opt/tmpusb/x'' (fs usb_world)"
proof -
  have "wf_fs (fs usb_world)" "names_ok (fs usb_world)" "is_dir_at (fs usb_world) (comps ''/opt/logs'')"
    "is_dir_at (fs usb_world) (comps ''/opt/tmpusb/x'')" "comps ''/opt/logs'' \<noteq> comps ''/opt/tmpusb/x''"
    by code_simp+
  moreover have "lookup (fs usb_world) (comps ''/opt/tmpusb/x'' @ [''app.log'']) = None"
    "comps ''/opt/logs'' @ [''app.log''] \<notin> set (denied (fs usb_world))"
    "comps ''/opt/tmpusb/x'' @ [''app.log''] \<notin> set (denied (fs usb_world))"
    by (simp_all add: usb_paths) (simp_all add: usb_world_def lookup_def)
  moreover have "length (slashed ''/opt/logs'' ''app.log'') < 1024" "length (slashed ''/opt/tmpusb/x'' ''app.log'') < 1024"
    by (simp_all add: slashed_def)
  moreover have "n = ''app.log''" if "log_file_at (fs usb_world) ''/opt/logs'' n" for n
    using that by (intro usb_entry) (auto simp: log_file_at_def)
  ultimately show ?thesis unfolding movable_def by blast
qed

lemma usb_moved_facts:
  "lookup (fs usb_moved) (comps ''/opt/tmpusb/x'') = Some (Dir 1)"
  "comps ''/opt/tmpusb/x'' \<notin> set (denied (fs usb_moved))"
  "dir_exists script_externals usb_moved ''/opt/tmpusb/x''"
  "os_stat (fs usb_moved) ''/opt/tmpusb/x'' = Some (Dir 1)"
  "os_write (fs usb_moved) ''/opt/tmpusb/x/AA_Logs_11-14-23-10-13PM.tgz'' [] 1700000000 = None"
  "clock usb_moved = 1700000000"
  "snd (reload_syslog_service script_externals usb_script usb_moved) = usb_moved"
  by code_simp+

theorem usb_failure_loses_logs_witness:
  "\<exists>v. usb_archive_run script_externals usb_script ''/opt/logs'' ''/opt/tmpusb/x'' ''/mnt/usb/Log/a.tgz'' ''AA'' usb_world = Some (3, v) \<and>
    os_read (fs usb_world) ''/opt/logs/app.log'' = Some ''up'' \<and>
    lookup (fs usb_moved) [''opt'', ''logs'', ''app.log''] = None \<and>
    lookup (fs v) [''opt'', ''tmpusb'', ''x'', ''app.log''] = None"
proof -
  have "create_archive script_externals (zero_context\<lparr>mac_address := ''AA''\<rparr>) zero_session ''/opt/tmpusb/x'' usb_moved =
      Some (-1, zero_session, usb_moved)"
    using usb_moved_facts archive_name
    by (simp add: create_archive_def create_archive_with_options_def Let_def zero_context_def slashed_def)
  then have f: "create_usb_log_archive script_externals usb_script ''/opt/tmpusb/x'' ''/mnt/usb/Log/a.tgz'' ''AA''
      (snd (reload_syslog_service script_externals usb_script usb_moved)) = Some (3, usb_moved)"
    using usb_moved_facts by (simp add: create_usb_log_archive_def is_dir_def)
  have d: "comps ''/opt/logs'' \<noteq> []" "comps ''/opt/logs'' \<notin> set (denied (fs usb_world))" "comps ''/opt/tmpusb/x'' \<noteq> []"
    by (simp_all add: usb_paths) (simp add: usb_world_def)
  have s: "length (slashed ''/opt/logs'' n) < 1024" if "lookup (fs usb_world) (comps ''/opt/logs'' @ [n]) \<noteq> None" for n
    using usb_entry [OF that] by (simp add: slashed_def)
  have l: "lookup (fs usb_world) (comps ''/opt/logs'' @ [''app.log'']) = Some (Reg ''up'' 5)"
    by (simp add: usb_paths) (simp add: usb_world_def lookup_def)
  have r: "os_read (fs usb_world) ''/opt/logs/app.log'' = Some ''up''" by code_simp
  have n: "(3 :: int) \<noteq> 0" by simp
  note T = usb_failure_loses_logs [OF script_file_utilities script_empties usb_movable d(1,2) s usb_moved_def f n usb_moved_facts(1,2) d(3)]
  from T obtain v where v: "usb_archive_run script_externals usb_script ''/opt/logs'' ''/opt/tmpusb/x'' ''/mnt/usb/Log/a.tgz'' ''AA'' usb_world = Some (3, v)"
    "\<And>p. lookup (fs v) p = (if under (comps ''/opt/tmpusb/x'') p then None else lookup (fs usb_moved) p)" by blast
  have "lookup (fs usb_moved) (comps ''/opt/logs'' @ [''app.log'']) = None" using T l by blast
  moreover have "under (comps ''/opt/tmpusb/x'') [''opt'', ''tmpusb'', ''x'', ''app.log'']" by (simp add: under_def usb_paths)
  ultimately show ?thesis using v r by (auto simp: usb_paths)
qed

end
