(* ===== verification/UsbSuccess.thy ===== *)
theory UsbSuccess
  imports UsbProps
begin

text \<open>
  The copy to a USB drive when nothing fails: the logs that were moved out of the log directory are in the
  archive on the drive, and nothing else has changed.
\<close>

text \<open>A regular file with a plain destination is copied and removed.\<close>

lemma copy_and_delete:
  fixes w :: "'n world"
  assumes U: "\<And>u p x. fwrite_all U u p x = (True, x)"
    and src: "lookup (fs w) (comps src) = Some (Reg d m)" "comps src \<notin> set (denied (fs w))" "comps src \<noteq> []"
    and dest: "lookup (fs w) (comps dest) = None" "writable (fs w) (comps dest)"
  shows "\<exists>g. copy_file_and_delete U src dest w = (0, w\<lparr>fs := g\<rparr>) \<and> denied g = denied (fs w) \<and>
    (\<forall>q. lookup g q = (if q = comps src then None else if q = comps dest then Some (Reg d (clock w)) else lookup (fs w) q))"
proof -
  let ?s = "comps src" and ?t = "comps dest"
  define f1 where "f1 = put (fs w) ?t (Reg [] (clock w))"
  define f2 where "f2 = put f1 ?t (Reg d (clock w))"
  have ne: "?s \<noteq> ?t" using src(1) dest(1) by auto
  have rs: "resolve (fs w) src = Some ?s" "resolve (fs w) dest = Some ?t"
    by (rule resolve_plain; simp add: src(1) dest(1))+
  have r1: "resolve f1 p = resolve (fs w) p" for p unfolding f1_def by (rule resolve_put [OF rs(2)])
  have l1: "lookup f1 q = (if q = ?t then Some (Reg [] (clock w)) else lookup (fs w) q)" for q
    by (simp add: f1_def)
  have rd: "os_read (fs w) src = Some d" "os_read f1 src = Some d"
    using src rs(1) ne by (simp_all add: os_read_def r1 l1) (simp add: f1_def)
  have wr: "os_write (fs w) dest [] (clock w) = Some f1" "os_write f1 dest d (clock w) = Some f2"
    using dest(2) rs(2) writable_put [OF dest(2) dest(2), of "[]" "clock w"]
    by (simp_all add: os_write_def os_write_at_eq r1 f2_def) (simp_all add: f1_def)
  have nd: "\<not> reads_as_directory f1 src"
    using src(1,3) ne rs(1) by (simp add: reads_as_directory_def os_stat_def r1 l1 is_dir_def)
  have un: "os_unlink f2 src = Inr (del f2 ?s)"
    using src ne by (simp add: os_unlink_def f2_def l1 is_dir_def) (simp add: f1_def)
  have "copy_file_and_delete U src dest w = (0, w\<lparr>fs := del f2 ?s\<rparr>)"
    using rd wr nd un by (simp add: copy_file_and_delete_def U on_fs_def)
  moreover have "denied (del f2 ?s) = denied (fs w)" by (simp add: f2_def f1_def)
  ultimately show ?thesis by (intro exI [of _ "del f2 ?s"]) (auto simp: f2_def l1)
qed

text \<open>What the copy needs of the directories, the logs, the name of the archive and the drive.\<close>

definition deliverable :: "cstring \<Rightarrow> cstring \<Rightarrow> cstring \<Rightarrow> string \<Rightarrow> fsys \<Rightarrow> bool" where
  "deliverable log_dir tmp_dir usb_archive a f =
     (movable log_dir tmp_dir f \<and>
      comps log_dir \<noteq> [] \<and> comps log_dir \<notin> set (denied f) \<and>
      (\<forall>n. lookup f (comps log_dir @ [n]) \<noteq> None \<longrightarrow> length (slashed log_dir n) < 1024) \<and>
      comps tmp_dir \<noteq> [] \<and> comps tmp_dir \<notin> set (denied f) \<and> (\<forall>n. lookup f (comps tmp_dir @ [n]) = None) \<and>
      (\<forall>n d m. lookup f (comps log_dir @ [n]) = Some (Reg d m) \<longrightarrow>
         n \<noteq> a \<and> NUL \<notin> set n \<and> length n < 100 \<and> \<not> too_long (slashed tmp_dir n) \<and> length d < 8 ^ 11) \<and>
      real_name a \<and> \<not> too_long (slashed tmp_dir a) \<and> comps tmp_dir @ [a] \<notin> set (denied f) \<and>
      comps usb_archive \<noteq> [] \<and> lookup f (comps usb_archive) = None \<and> is_dir_at f (butlast (comps usb_archive)) \<and>
      comps usb_archive \<notin> set (denied f) \<and> \<not> under (comps tmp_dir) (comps usb_archive) \<and>
      butlast (comps usb_archive) \<noteq> comps log_dir)"

text \<open>The file system after the logs have been moved.\<close>

definition logs_moved :: "cstring \<Rightarrow> cstring \<Rightarrow> fsys \<Rightarrow> fsys \<Rightarrow> bool" where
  "logs_moved log_dir tmp_dir f g =
     (denied g = denied f \<and>
      (\<forall>n. log_file_at f log_dir n \<longrightarrow> lookup g (comps log_dir @ [n]) = None \<and>
         lookup g (comps tmp_dir @ [n]) = lookup f (comps log_dir @ [n])) \<and>
      (\<forall>p. (\<forall>n. log_file_at f log_dir n \<longrightarrow> p \<noteq> comps log_dir @ [n] \<and> p \<noteq> comps tmp_dir @ [n]) \<longrightarrow>
         lookup g p = lookup f p))"

lemma logs_movedD:
  assumes "logs_moved log_dir tmp_dir f g"
  shows "denied g = denied f"
    "log_file_at f log_dir n \<Longrightarrow> lookup g (comps log_dir @ [n]) = None"
    "log_file_at f log_dir n \<Longrightarrow> lookup g (comps tmp_dir @ [n]) = lookup f (comps log_dir @ [n])"
    "\<forall>n. log_file_at f log_dir n \<longrightarrow> p \<noteq> comps log_dir @ [n] \<and> p \<noteq> comps tmp_dir @ [n] \<Longrightarrow> lookup g p = lookup f p"
  using assms unfolding logs_moved_def by blast+

lemma logs_are_moved:
  assumes "deliverable log_dir tmp_dir usb_archive a (fs w)"
  shows "\<exists>f. move_log_files log_dir tmp_dir w = (0, w\<lparr>fs := f\<rparr>) \<and> logs_moved log_dir tmp_dir (fs w) f"
proof -
  have mv: "movable log_dir tmp_dir (fs w)" "comps log_dir \<noteq> []" "comps log_dir \<notin> set (denied (fs w))"
    and short: "\<And>n. lookup (fs w) (comps log_dir @ [n]) \<noteq> None \<Longrightarrow> length (slashed log_dir n) < 1024"
    using assms unfolding deliverable_def by blast+
  show ?thesis using moved_logs [OF mv short] by (simp add: logs_moved_def)
qed

text \<open>The temporary directory then holds the logs, and can take the archive.\<close>

lemma filled_directory:
  fixes v :: "'n world"
  assumes env: "file_utilities E"
    and ok: "deliverable log_dir tmp_dir usb_archive a f"
    and moved: "logs_moved log_dir tmp_dir f (fs v)"
  shows "\<exists>k. lookup (fs v) (comps tmp_dir) = Some (Dir k)"
    "dir_exists E v tmp_dir" "os_readdir (fs v) tmp_dir \<noteq> None" "resolve (fs v) tmp_dir = Some (comps tmp_dir)"
    "resolve (fs v) (slashed tmp_dir a) = Some (comps tmp_dir @ [a])" "writable (fs v) (comps tmp_dir @ [a])"
    "lookup (fs v) (comps tmp_dir @ [n]) \<noteq> None \<longleftrightarrow> log_file_at f log_dir n"
    "lookup (fs v) (comps tmp_dir @ [n]) \<noteq> None \<Longrightarrow> file_ok (fs v) tmp_dir n"
proof -
  note logs = logs_movedD [OF moved]
  obtain k where k0: "lookup f (comps tmp_dir) = Some (Dir k)"
    using ok by (auto simp: deliverable_def movable_def is_dir_at_def is_dir_def split: option.splits node.splits)
  have "comps tmp_dir \<noteq> comps log_dir @ [n]" if "log_file_at f log_dir n" for n
    using that k0 by (auto simp: log_file_at_def)
  then have k: "lookup (fs v) (comps tmp_dir) = Some (Dir k)" using logs(4) k0 by simp
  then show "\<exists>k. lookup (fs v) (comps tmp_dir) = Some (Dir k)" by blast
  show r: "resolve (fs v) tmp_dir = Some (comps tmp_dir)" by (rule resolve_plain) (simp add: k)
  have ne: "comps tmp_dir \<noteq> []" "tmp_dir \<noteq> []" using ok by (auto simp: deliverable_def comps_def)
  then show "dir_exists E v tmp_dir"
    using env k r by (simp add: dir_exists_def file_utilities_def os_stat_def is_dir_def)
  show "os_readdir (fs v) tmp_dir \<noteq> None"
    using ok k r logs(1) by (simp add: os_readdir_def is_dir_at_def is_dir_def deliverable_def)
  show entry: "lookup (fs v) (comps tmp_dir @ [n]) \<noteq> None \<longleftrightarrow> log_file_at f log_dir n" for n
  proof (cases "log_file_at f log_dir n")
    case True
    then show ?thesis using logs(3) by (auto simp: log_file_at_def)
  next
    case False
    have "comps tmp_dir \<noteq> comps log_dir" using ok by (auto simp: deliverable_def movable_def)
    with False have "lookup (fs v) (comps tmp_dir @ [n]) = lookup f (comps tmp_dir @ [n])" by (intro logs(4)) auto
    then show ?thesis using False ok by (simp add: deliverable_def)
  qed
  have na: "lookup (fs v) (comps tmp_dir @ [a]) = None"
    using entry [of a] ok unfolding deliverable_def log_file_at_def by blast
  have a: "comps (slashed tmp_dir a) = comps tmp_dir @ [a]" using ok by (simp add: deliverable_def)
  then show "resolve (fs v) (slashed tmp_dir a) = Some (comps tmp_dir @ [a])"
    using resolve_plain [of "fs v" "slashed tmp_dir a"] na by simp
  show "writable (fs v) (comps tmp_dir @ [a])"
    using ok k na logs(1) by (simp add: writable_def is_dir_at_def is_dir_def deliverable_def)
  show "file_ok (fs v) tmp_dir n" if e: "lookup (fs v) (comps tmp_dir @ [n]) \<noteq> None"
  proof -
    have lf: "log_file_at f log_dir n" using e entry by blast
    then obtain x m where l: "lookup f (comps log_dir @ [n]) = Some (Reg x m)" by (auto simp: log_file_at_def)
    have mv: "movable log_dir tmp_dir f" using ok by (simp add: deliverable_def)
    then have "list_all real_name (comps log_dir @ [n])"
      using l unfolding movable_def names_ok_lookup by blast
    moreover have "comps tmp_dir @ [n] \<notin> set (denied f)" using mv lf by (auto simp: movable_def)
    moreover have "NUL \<notin> set n" "length n < 100" "\<not> too_long (slashed tmp_dir n)" "length x < 8 ^ 11"
      using ok l unfolding deliverable_def by blast+
    ultimately show ?thesis using logs(1) logs(3) [OF lf] l by (simp add: file_ok_def)
  qed
qed

text \<open>The drive is as it was.\<close>

lemma drive_ready:
  assumes ok: "deliverable log_dir tmp_dir usb_archive a f"
    and moved: "logs_moved log_dir tmp_dir f g"
  shows "lookup g (comps usb_archive) = None" "writable g (comps usb_archive)"
    "comps usb_archive \<noteq> comps tmp_dir @ [n]" "butlast (comps usb_archive) \<noteq> comps tmp_dir @ [n]"
    "comps usb_archive \<noteq> comps tmp_dir"
proof -
  let ?u = "comps usb_archive"
  have usb: "?u \<noteq> []" "lookup f ?u = None" "is_dir_at f (butlast ?u)" "?u \<notin> set (denied f)"
    "\<not> under (comps tmp_dir) ?u" "butlast ?u \<noteq> comps log_dir"
    using ok by (simp_all add: deliverable_def)
  then show away: "?u \<noteq> comps tmp_dir @ [n]" "?u \<noteq> comps tmp_dir" for n by (auto simp: under_def)
  have "?u \<noteq> comps log_dir @ [n]" for n using usb(6) by auto
  with away usb(2) show u: "lookup g ?u = None" using logs_movedD(4) [OF moved] by simp
  show par: "butlast ?u \<noteq> comps tmp_dir @ [n]" for n
  proof
    assume "butlast ?u = comps tmp_dir @ [n]"
    then have "under (comps tmp_dir) (butlast ?u)" by simp
    then show False using usb(5) under_butlast by blast
  qed
  have "butlast ?u \<noteq> comps log_dir @ [n]" if "log_file_at f log_dir n" for n
    using that usb(3) by (auto simp: is_dir_at_def is_dir_def log_file_at_def)
  then have "lookup g (butlast ?u) = lookup f (butlast ?u)" using par by (intro logs_movedD(4) [OF moved]) blast
  then show "writable g ?u"
    using usb u logs_movedD(1) [OF moved] by (simp add: writable_def is_dir_at_def)
qed

text \<open>The archive of the temporary directory is made and goes to the drive.\<close>

lemma archive_on_drive:
  fixes v :: "'n world"
  assumes env: "file_utilities E" "\<And>u n. gzwrite_ok E u n" "\<And>u. gzclose_ok E u" "\<And>u p x. fwrite_all U u p x = (True, x)"
    and ok: "deliverable log_dir tmp_dir usb_archive a f"
    and moved: "logs_moved log_dir tmp_dir f (fs v)"
    and name: "generate_archive_name_at 256 (take 31 mac) ''Logs'' (clock v) = Some a"
  shows "\<exists>h stream names. create_usb_log_archive E U tmp_dir usb_archive mac v = Some (0, v\<lparr>fs := h\<rparr>) \<and>
    denied h = denied f \<and>
    (\<forall>q. lookup h q = (if q = comps tmp_dir @ [a] then None else if q = comps usb_archive
        then Some (Reg (gzip_bytes E stream) (clock v)) else lookup (fs v) q)) \<and>
    untar stream = Some (map (\<lambda>n. (n, CHR ''0'', [], contents f log_dir n)) names) \<and>
    set names = {n. log_file_at f log_dir n}"
proof -
  note dir = filled_directory [OF env(1) ok moved] and usb = drive_ready [OF ok moved] and logs = logs_movedD [OF moved]
  have a: "real_name a" "\<not> too_long (slashed tmp_dir a)" "a \<noteq> []" "comps tmp_dir @ [a] \<notin> set (denied f)" "comps tmp_dir \<noteq> []"
    using ok by (auto simp: deliverable_def real_name_def)
  have nolog: "\<not> log_file_at f log_dir a" using ok unfolding deliverable_def log_file_at_def by blast
  let ?ctx = "zero_context\<lparr>mac_address := take 31 mac\<rparr>" and ?p = "comps tmp_dir @ [a]"
  have nm: "generate_archive_name_at 256 (mac_address ?ctx) ''Logs''
      (if archive_ref_time ?ctx \<noteq> 0 then archive_ref_time ?ctx else clock v) = Some a"
    using name by (simp add: zero_context_def)
  obtain g stream names where made: "create_archive E ?ctx zero_session tmp_dir v =
      Some (0, zero_session\<lparr>archive_file := a\<rparr>, v\<lparr>fs := g\<rparr>)"
    and g: "\<forall>q. lookup g q = (if q = ?p then Some (Reg (gzip_bytes E stream) (clock v)) else lookup (fs v) q)"
      "denied g = denied (fs v)"
    and tar: "untar stream = Some (map (\<lambda>n. (n, CHR ''0'', [], contents (fs v) tmp_dir n)) names)"
      "set names = {n. n \<noteq> a \<and> lookup (fs v) (comps tmp_dir @ [n]) \<noteq> None}"
    using archive_made [where s = zero_session, OF env(1-3) dir(2-4) nm dir(5,6) a(2) dir(8)] by blast
  have "writable g (comps usb_archive)"
    using usb g by (simp add: writable_def is_dir_at_def)
  then obtain h where h: "copy_file_and_delete U (slashed tmp_dir a) usb_archive (v\<lparr>fs := g\<rparr>) = (0, v\<lparr>fs := h\<rparr>)" "denied h = denied g"
    "\<forall>q. lookup h q = (if q = ?p then None else if q = comps usb_archive
        then Some (Reg (gzip_bytes E stream) (clock v)) else lookup g q)"
    using copy_and_delete [where w = "v\<lparr>fs := g\<rparr>" and src = "slashed tmp_dir a" and dest = usb_archive
        and d = "gzip_bytes E stream" and m = "clock v", OF env(4)] g usb a(4) logs(1)
    by (auto simp: comps_real [OF a(1)])
  have "take 511 (slashed tmp_dir a) = slashed tmp_dir a" using a(2) by (simp add: too_long_def MAX_PATH_LENGTH_def)
  then have sent: "create_usb_log_archive E U tmp_dir usb_archive mac v = Some (0, v\<lparr>fs := h\<rparr>)"
    using made h(1) dir(1,4) a(3,5) by (auto simp: create_usb_log_archive_def os_stat_def is_dir_def)
  have names: "set names = {n. log_file_at f log_dir n}" using tar(2) dir(7) nolog by auto
  then have "contents (fs v) tmp_dir n = contents f log_dir n" if "n \<in> set names" for n
    using that logs(3) by (simp add: contents_def)
  then have "untar stream = Some (map (\<lambda>n. (n, CHR ''0'', [], contents f log_dir n)) names)"
    using tar(1) by (simp cong: map_cong)
  then show ?thesis using sent names h(2,3) g logs(1)
    by (intro exI [of _ h] exI [of _ stream] exI [of _ names]) simp
qed

text \<open>
  Claim C39. When nothing fails the copy to a USB drive delivers every log and loses nothing: the run ends with
  0, the file on the drive is the compressed form of a tar stream from which the reference reader
  recovers exactly the regular files of the log directory, with their names and contents; they have
  left the log directory, the temporary directory is gone, and nothing else has changed.
\<close>

theorem usb_copy_delivers_logs:
  fixes w :: "'n world"
  assumes env: "file_utilities E" "empties E" "\<And>u n. gzwrite_ok E u n" "\<And>u. gzclose_ok E u"
      "\<And>u p x. fwrite_all U u p x = (True, x)"
    and ok: "deliverable log_dir tmp_dir usb_archive a (fs w)"
    and w2: "w2 = snd (reload_syslog_service E U (snd (move_log_files log_dir tmp_dir w)))"
      "fs w2 = fs (snd (move_log_files log_dir tmp_dir w))"
    and name: "generate_archive_name_at 256 (take 31 mac) ''Logs'' (clock w2) = Some a"
  shows "\<exists>v stream names. usb_archive_run E U log_dir tmp_dir usb_archive mac w = Some (0, v) \<and>
    untar stream = Some (map (\<lambda>n. (n, CHR ''0'', [], contents (fs w) log_dir n)) names) \<and>
    set names = {n. log_file_at (fs w) log_dir n} \<and>
    (\<forall>q. lookup (fs v) q =
       (if under (comps tmp_dir) q then None
        else if q = comps usb_archive then Some (Reg (gzip_bytes E stream) (clock w2))
        else if \<exists>n. log_file_at (fs w) log_dir n \<and> q = comps log_dir @ [n] then None
        else lookup (fs w) q))"
proof -
  obtain f where f: "move_log_files log_dir tmp_dir w = (0, w\<lparr>fs := f\<rparr>)" "logs_moved log_dir tmp_dir (fs w) f"
    using logs_are_moved [OF ok] by blast
  then have moved: "logs_moved log_dir tmp_dir (fs w) (fs w2)" using w2(2) by simp
  obtain h stream names where sent: "create_usb_log_archive E U tmp_dir usb_archive mac w2 = Some (0, w2\<lparr>fs := h\<rparr>)"
    and h: "denied h = denied (fs w)" "\<forall>q. lookup h q = (if q = comps tmp_dir @ [a] then None else if q = comps usb_archive
        then Some (Reg (gzip_bytes E stream) (clock w2)) else lookup (fs w2) q)"
    and tar: "untar stream = Some (map (\<lambda>n. (n, CHR ''0'', [], contents (fs w) log_dir n)) names)"
      "set names = {n. log_file_at (fs w) log_dir n}"
    using archive_on_drive [OF env(1,3-5) ok moved name] by blast
  obtain k where "lookup (fs w2) (comps tmp_dir) = Some (Dir k)" using filled_directory(1) [OF env(1) ok moved] by blast
  then have tmp: "lookup h (comps tmp_dir) = Some (Dir k)" "comps tmp_dir \<notin> set (denied h)" "comps tmp_dir \<noteq> []"
    using ok h drive_ready(5) [OF ok moved] by (simp_all add: deliverable_def)
  let ?w3 = "w2\<lparr>fs := h\<rparr>"
  note rm = remove_directory_lookup [where w = ?w3 and p = tmp_dir and E = E and k = k, OF env(1,2) _ _ tmp(3), simplified, OF tmp(1,2)]
  have run: "usb_archive_run E U log_dir tmp_dir usb_archive mac w = Some (0, snd (remove_directory E tmp_dir ?w3))"
    using f(1) w2(1) sent by (simp add: usb_archive_run_def cleanup_temporary_files_def USB_LOG_SUCCESS_def split: prod.splits)
  have "lookup (fs w2) q = (if \<exists>n. log_file_at (fs w) log_dir n \<and> q = comps log_dir @ [n] then None else lookup (fs w) q)"
    if "\<not> under (comps tmp_dir) q" for q
    using that logs_movedD(2,4) [OF moved] under_append by metis
  moreover have "q \<noteq> comps tmp_dir @ [a]" if "\<not> under (comps tmp_dir) q" for q using that by auto
  ultimately show ?thesis using run tar rm(2) h(2)
    by (intro exI [of _ "snd (remove_directory E tmp_dir ?w3)"] exI [of _ stream] exI [of _ names]) simp
qed

text \<open>A drive with a log directory, one log, and an empty temporary directory.\<close>

definition drive_world :: "script world" where
  "drive_world = usb_world\<lparr>fs := \<lparr>nodes = nodes (fs usb_world) @
     [([''mnt''], Dir 1), ([''mnt'', ''usb''], Dir 1), ([''mnt'', ''usb'', ''Log''], Dir 1)], denied = []\<rparr>\<rparr>"

lemma drive_log:
  assumes "lookup (fs drive_world) (comps ''/opt/logs'' @ [n]) \<noteq> None"
  shows "n = ''app.log''"
  using assms by (auto simp: usb_paths drive_world_def usb_world_def lookup_def split: if_splits)

lemma drive_tmp: "lookup (fs drive_world) (comps ''/opt/tmpusb/x'' @ [n]) = None"
  by (auto simp: usb_paths drive_world_def usb_world_def lookup_def)

lemma drive_movable: "movable ''/opt/logs'' ''/opt/tmpusb/x'' (fs drive_world)"
proof -
  have "wf_fs (fs drive_world)" "names_ok (fs drive_world)" "is_dir_at (fs drive_world) (comps ''/opt/logs'')"
    "is_dir_at (fs drive_world) (comps ''/opt/tmpusb/x'')" "comps ''/opt/logs'' \<noteq> comps ''/opt/tmpusb/x''"
    by code_simp+
  moreover have "denied (fs drive_world) = []" by (simp add: drive_world_def)
  moreover have "length (slashed ''/opt/logs'' ''app.log'') < 1024" "length (slashed ''/opt/tmpusb/x'' ''app.log'') < 1024"
    by (simp_all add: slashed_def)
  moreover have "n = ''app.log''" if "log_file_at (fs drive_world) ''/opt/logs'' n" for n
    using that by (intro drive_log) (auto simp: log_file_at_def)
  ultimately show ?thesis using drive_tmp unfolding movable_def by (metis empty_iff list.set(1))
qed

lemma drive_facts:
  "comps ''/opt/logs'' \<noteq> []" "comps ''/opt/tmpusb/x'' \<noteq> []" "denied (fs drive_world) = []"
  "length (slashed ''/opt/logs'' ''app.log'') < 1024" "\<not> too_long (slashed ''/opt/tmpusb/x'' ''app.log'')"
  "real_name ''AA_Logs_11-14-23-10-13PM.tgz''" "\<not> too_long (slashed ''/opt/tmpusb/x'' ''AA_Logs_11-14-23-10-13PM.tgz'')"
  "comps ''/mnt/usb/Log/a.tgz'' \<noteq> []" "lookup (fs drive_world) (comps ''/mnt/usb/Log/a.tgz'') = None"
  "is_dir_at (fs drive_world) (butlast (comps ''/mnt/usb/Log/a.tgz''))"
  "\<not> under (comps ''/opt/tmpusb/x'') (comps ''/mnt/usb/Log/a.tgz'')"
  "butlast (comps ''/mnt/usb/Log/a.tgz'') \<noteq> comps ''/opt/logs''"
  "lookup (fs drive_world) (comps ''/opt/logs'' @ [''app.log'']) = Some (Reg ''up'' 5)"
  by code_simp+

lemma drive_deliverable:
  "deliverable ''/opt/logs'' ''/opt/tmpusb/x'' ''/mnt/usb/Log/a.tgz'' ''AA_Logs_11-14-23-10-13PM.tgz'' (fs drive_world)"
proof -
  have "n = ''app.log'' \<and> d = ''up''" if "lookup (fs drive_world) (comps ''/opt/logs'' @ [n]) = Some (Reg d m)" for n d m
    using that drive_log [of n] drive_facts(13) by auto
  moreover have "NUL \<notin> set ''app.log''" by (simp add: NUL_def char_of_def)
  moreover have "length (slashed ''/opt/logs'' n) < 1024" if "lookup (fs drive_world) (comps ''/opt/logs'' @ [n]) \<noteq> None" for n
    using drive_log [OF that] drive_facts(4) by simp
  ultimately show ?thesis
    unfolding deliverable_def using drive_movable drive_facts drive_tmp by fastforce
qed

definition drive_moved :: "script world" where
  "drive_moved = snd (reload_syslog_service script_externals usb_script (snd (move_log_files ''/opt/logs'' ''/opt/tmpusb/x'' drive_world)))"

lemma drive_moved_facts:
  "fs drive_moved = fs (snd (move_log_files ''/opt/logs'' ''/opt/tmpusb/x'' drive_world))"
  "generate_archive_name_at 256 (take 31 ''AA'') ''Logs'' (clock drive_moved) = Some ''AA_Logs_11-14-23-10-13PM.tgz''"
proof -
  show "fs drive_moved = fs (snd (move_log_files ''/opt/logs'' ''/opt/tmpusb/x'' drive_world))" by code_simp
  have "clock drive_moved = 1700000000" by code_simp
  then show "generate_archive_name_at 256 (take 31 ''AA'') ''Logs'' (clock drive_moved) = Some ''AA_Logs_11-14-23-10-13PM.tgz''"
    using archive_name by simp
qed

theorem usb_copy_delivers_logs_witness:
  "\<exists>v stream names m. usb_archive_run script_externals usb_script ''/opt/logs'' ''/opt/tmpusb/x'' ''/mnt/usb/Log/a.tgz'' ''AA'' drive_world = Some (0, v) \<and>
    untar stream = Some (map (\<lambda>n. (n, CHR ''0'', [], contents (fs drive_world) ''/opt/logs'' n)) names) \<and>
    set names = {''app.log''} \<and> lookup (fs v) (comps ''/mnt/usb/Log/a.tgz'') = Some (Reg stream m)"
proof -
  have e: "gzwrite_ok script_externals u n" "gzclose_ok script_externals u" "gzip_bytes script_externals b = b"
    "fwrite_all usb_script u p x = (True, x)" for u n b p x
    by (simp_all add: script_externals_def script_gzwrite_ok_def script_gzclose_ok_def script_gzip_bytes_def usb_script_def)
  have "log_file_at (fs drive_world) ''/opt/logs'' n \<longleftrightarrow> n = ''app.log''" for n
    using drive_log [of n] drive_facts(13) by (auto simp: log_file_at_def)
  then have s: "{n. log_file_at (fs drive_world) ''/opt/logs'' n} = {''app.log''}" by blast
  show ?thesis
    using usb_copy_delivers_logs [OF script_file_utilities script_empties e(1,2,4) drive_deliverable drive_moved_def drive_moved_facts]
      drive_facts(11) unfolding s e(3) by fastforce
qed

end
