(* ===== verification/WorldInvariant.thy ===== *)
theory WorldInvariant
  imports Uploadstblogs FileSysWf
begin

text \<open>
  Properties of the world that every operation of the upload tool keeps.

  A locale fixes such a property \<open>P\<close> of the outer state, which the changes of the file tree and the
  pauses keep; an extension adds that the calls of code outside the repository keep it.  Inside the
  extension, \<open>P\<close> and the descriptor of the lock are shown to survive every operation between the lock
  and its release.
\<close>

subsection \<open>The contract\<close>

text \<open>A change of the tree by one system call.\<close>

inductive tree_step :: "fsys \<Rightarrow> fsys \<Rightarrow> bool" where
  by_write: "os_write f s d t = Some g \<Longrightarrow> tree_step f g"
| by_append: "os_append f s d t = Some g \<Longrightarrow> tree_step f g"
| by_truncate: "os_truncate_nofollow f s t = Some g \<Longrightarrow> tree_step f g"
| by_unlink: "os_unlink f s = Inr g \<Longrightarrow> tree_step f g"
| by_rmdir: "os_rmdir f s = Inr g \<Longrightarrow> tree_step f g"
| by_remove: "os_remove f s = Inr g \<Longrightarrow> tree_step f g"
| by_rename: "os_rename f s r = Inr g \<Longrightarrow> tree_step f g"

lemma wf_tree_step: "tree_step f g \<Longrightarrow> wf_fs f \<Longrightarrow> wf_fs g"
  by (induction rule: tree_step.induct)
    (blast intro: wf_write wf_append wf_truncate wf_unlink wf_rmdir wf_remove wf_rename)+

definition call_keeps :: "('n outer \<Rightarrow> bool) \<Rightarrow> ('n outer \<Rightarrow> 'r \<times> 'n outer) \<Rightarrow> bool" where
  "call_keeps P f = (\<forall>u. P u \<longrightarrow> P (snd (f u)))"

text \<open>Every call of code outside the repository that may change the outer state keeps the property.\<close>

definition calls_keep :: "('n outer \<Rightarrow> bool) \<Rightarrow> 'n externals \<Rightarrow> bool" where
  "calls_keep P E =
     ((\<forall>p. call_keeps P (createDir E p) \<and> call_keeps P (removeFile E p) \<and> call_keeps P (emptyFolder E p) \<and>
           call_keeps P (v_secure_system E p) \<and> call_keeps P (jsonrpc E p)) \<and>
      (\<forall>p q. call_keeps P (copyFiles E p q) \<and> call_keeps P (performCodeBigS3Put E p q)) \<and>
      (\<forall>p q. call_keeps P (performCodeBigMetadataPost E p q)) \<and>
      (\<forall>p q r. call_keeps P (performMetadataPostWithCertRotationEx E p q r)) \<and>
      (\<forall>p q a. call_keeps P (performS3PutWithCert E p q a)) \<and>
      (\<forall>p q m b. call_keeps P (performS3PutUploadEx E p q m b)) \<and>
      (\<forall>b. call_keeps P (uploadutil_set_ocsp E b)) \<and> (\<forall>e. call_keeps P (IARM_Bus_BroadcastEvent E e)) \<and>
      call_keeps P (rbus_open E) \<and> call_keeps P (IARM_Bus_IsConnected E) \<and> call_keeps P (IARM_Bus_Init E) \<and>
      call_keeps P (IARM_Bus_Connect E) \<and> call_keeps P (IARM_Bus_Disconnect_Term E) \<and>
      call_keeps P (inotify_select E))"

definition kept :: "('n outer \<Rightarrow> bool) \<Rightarrow> int \<Rightarrow> 'n world \<Rightarrow> bool" where
  "kept P fd w = (P (outer_of w) \<and> lock_fd w = fd)"

lemma outer_of_set [simp]: "outer_of (set_outer u w) = u"
  by (simp add: set_outer_def outer_of_def)

locale outer_invariant =
  fixes P :: "'n outer \<Rightarrow> bool"
  assumes tree: "P u \<Longrightarrow> tree_step (fs u) g \<Longrightarrow> P (u\<lparr>fs := g\<rparr>)"
    and time: "P u \<Longrightarrow> P (u\<lparr>clock := n\<rparr>)"

text \<open>The invariants of interest: the tree is well formed, and the locks are those held before.\<close>

interpretation tree: outer_invariant "\<lambda>u :: 'n outer. wf_fs (fs u)"
  by unfold_locales (auto intro: wf_tree_step)

interpretation locks: outer_invariant "\<lambda>u :: 'n outer. flocks u = L" for L
  by unfold_locales simp_all

locale world_invariant = outer_invariant P for P :: "'n outer \<Rightarrow> bool" +
  fixes E :: "'n externals" and fd :: int
  assumes outside: "calls_keep P E"
begin

lemma kept_call: "call_keeps P f \<Longrightarrow> kept P fd w \<Longrightarrow> kept P fd (snd (xcall f w))"
  by (simp add: kept_def xcall_def call_keeps_def split_beta)

lemma kept_calls [simp]:
  assumes "kept P fd w"
  shows "kept P fd (snd (xcall (createDir E p) w))" "kept P fd (snd (xcall (removeFile E p) w))"
    "kept P fd (snd (xcall (emptyFolder E p) w))" "kept P fd (snd (xcall (v_secure_system E p) w))"
    "kept P fd (snd (xcall (jsonrpc E p) w))" "kept P fd (snd (xcall (copyFiles E p q) w))"
    "kept P fd (snd (xcall (performCodeBigS3Put E p q) w))"
    "kept P fd (snd (xcall (performCodeBigMetadataPost E p o1) w))"
    "kept P fd (snd (xcall (performMetadataPostWithCertRotationEx E p q r) w))"
    "kept P fd (snd (xcall (performS3PutWithCert E p q a) w))"
    "kept P fd (snd (xcall (performS3PutUploadEx E p q o1 b) w))"
    "kept P fd (snd (xcall (uploadutil_set_ocsp E b) w))" "kept P fd (snd (xcall (IARM_Bus_BroadcastEvent E e) w))"
    "kept P fd (snd (xcall (rbus_open E) w))" "kept P fd (snd (xcall (IARM_Bus_IsConnected E) w))"
    "kept P fd (snd (xcall (IARM_Bus_Init E) w))" "kept P fd (snd (xcall (IARM_Bus_Connect E) w))"
    "kept P fd (snd (xcall (IARM_Bus_Disconnect_Term E) w))" "kept P fd (snd (xcall (inotify_select E) w))"
  using outside assms unfolding calls_keep_def by (blast intro: kept_call)+

lemma kept_static [simp]:
  "kept P fd (w\<lparr>iarm_initialized := b\<rparr>) = kept P fd w" "kept P fd (w\<lparr>g_timestamp_prefix := s\<rparr>) = kept P fd w"
  "kept P fd (w\<lparr>perm_log_path_storage := s\<rparr>) = kept P fd w" "kept P fd (w\<lparr>g_rbusInitialized := b\<rparr>) = kept P fd w"
  "kept P fd (emit e w) = kept P fd w"
  by (simp_all add: kept_def outer_of_def)

lemma kept_sleep [simp]: "kept P fd w \<Longrightarrow> kept P fd (sleep n w)"
  using time [of "outer_of w" "clock w + n"] by (simp add: kept_def sleep_def emit_def outer_of_def)

lemma kept_tree [intro]: "kept P fd w \<Longrightarrow> tree_step (fs w) g \<Longrightarrow> kept P fd (w\<lparr>fs := g\<rparr>)"
  using tree [of "outer_of w" g] by (simp add: kept_def outer_of_def)

lemma kept_write [simp]: "kept P fd w \<Longrightarrow> os_write (fs w) s d t = Some g \<Longrightarrow> kept P fd (w\<lparr>fs := g\<rparr>)"
  and kept_append [simp]: "kept P fd w \<Longrightarrow> os_append (fs w) s d t = Some g \<Longrightarrow> kept P fd (w\<lparr>fs := g\<rparr>)"
  and kept_unlink [simp]: "kept P fd w \<Longrightarrow> os_unlink (fs w) s = Inr g \<Longrightarrow> kept P fd (w\<lparr>fs := g\<rparr>)"
  and kept_truncate [simp]: "kept P fd w \<Longrightarrow> os_truncate_nofollow (fs w) s t = Some g \<Longrightarrow> kept P fd (w\<lparr>fs := g\<rparr>)"
  by (blast intro: tree_step.intros)+

lemma kept_on_fs:
  assumes "kept P fd w" "\<And>g. f (fs w) = Inr g \<Longrightarrow> tree_step (fs w) g"
  shows "kept P fd (snd (on_fs f w))"
  using assms by (auto simp: on_fs_def split: sum.splits)

lemma kept_fs_calls [simp]:
  assumes "kept P fd w"
  shows "kept P fd (snd (on_fs (\<lambda>f. os_rmdir f p) w))" "kept P fd (snd (on_fs (\<lambda>f. os_unlink f p) w))"
    "kept P fd (snd (on_fs (\<lambda>f. os_remove f p) w))" "kept P fd (snd (on_fs (\<lambda>f. os_rename f p q) w))"
  using assms by (blast intro: kept_on_fs tree_step.intros)+

subsection \<open>Reports\<close>

lemma kept_iarm [simp]: "kept P fd w \<Longrightarrow> kept P fd (snd (init_iarm_connection E w))"
  by (simp add: init_iarm_connection_def split_beta)

lemma kept_reports [simp]:
  assumes "kept P fd w"
  shows "kept P fd (t2_count_notify m w)" "kept P fd (t2_val_notify m v w)" "kept P fd (emit_upload_start w)"
    "kept P fd (broadcast E e w)"
  using assms by (simp_all add: t2_count_notify_def t2_val_notify_def emit_upload_start_def broadcast_def)

lemma kept_events [simp]:
  assumes "kept P fd w"
  shows "kept P fd (send_iarm_event E n c w)" "kept P fd (send_iarm_event_maintenance E c w)"
    "kept P fd (cleanup_iarm_connection E w)"
  using assms by (simp_all add: send_iarm_event_def send_iarm_event_maintenance_def cleanup_iarm_connection_def split_beta)

lemma kept_emits [simp]:
  assumes "kept P fd w"
  shows "kept P fd (emit_privacy_abort E w)" "kept P fd (emit_no_logs_reboot E ctx w)"
    "kept P fd (emit_no_logs_ondemand E w)" "kept P fd (emit_upload_success E ctx w)"
    "kept P fd (emit_upload_failure E ctx w)" "kept P fd (emit_upload_aborted E w)"
    "kept P fd (emit_folder_missing_error E w)"
  using assms by (simp_all add: emit_privacy_abort_def emit_no_logs_reboot_def emit_no_logs_ondemand_def
      emit_upload_success_def emit_upload_failure_def emit_upload_aborted_def emit_folder_missing_error_def Let_def)

subsection \<open>Files\<close>

lemma kept_make_directories [simp]: "kept P fd w \<Longrightarrow> kept P fd (snd (make_directories E ds w))"
  by (induction ds arbitrary: w) (simp_all add: split_beta)

lemma kept_files [simp]:
  assumes "kept P fd w"
  shows "kept P fd (snd (create_directory E p w))" "kept P fd (snd (remove_file E p w))"
    "kept P fd (snd (remove_directory E p w))" "kept P fd (snd (copy_file E p q w))"
    "kept P fd (snd (rename_entry p a b w))" "kept P fd (snd (clean_directory E p w))"
  using assms by (simp_all add: create_directory_def remove_file_def remove_directory_def copy_file_def
      rename_entry_def clean_directory_def split_beta Let_def)

lemma kept_write_file [simp]: "kept P fd w \<Longrightarrow> kept P fd (snd (write_file p d w))"
  by (auto simp: write_file_def split: option.splits)

lemma kept_rename_loop [simp]: "kept P fd w \<Longrightarrow> kept P fd (snd (rename_loop d new ns k w))"
  by (induction ns arbitrary: w k) (auto simp: split_beta split: option.splits)

lemma kept_move_loop [simp]: "kept P fd w \<Longrightarrow> kept P fd (snd (move_loop s d ns k w))"
  by (induction ns arbitrary: w k) (auto simp: split_beta)

lemma kept_pcap_loop [simp]: "kept P fd w \<Longrightarrow> kept P fd (clear_pcap_loop E d ns w)"
  by (induction ns arbitrary: w) auto

lemma kept_directories [simp]:
  assumes "kept P fd w"
  shows "kept P fd (snd (add_timestamp_to_files E d w))" "kept P fd (snd (remove_timestamp_from_files E d w))"
    "kept P fd (snd (add_timestamp_to_files_uploadlogsnow E d w))" "kept P fd (snd (move_directory_contents E s d w))"
    "kept P fd (snd (clear_old_packet_captures E d w))"
  using assms by (auto simp: add_timestamp_to_files_def remove_timestamp_from_files_def move_directory_contents_def
      add_timestamp_to_files_uploadlogsnow_def clear_old_packet_captures_def split_beta Let_def split: option.splits)

end

end
