(* ===== verification/RunInvariant.thy ===== *)
theory RunInvariant
  imports WorldInvariant
begin

text \<open>
  The operations of a run of the upload tool keep every invariant of the outer world, from the context to
  the end of the workflow; and what follows for the lock and for the file tree.
\<close>

definition sub_kept :: "('n outer \<Rightarrow> bool) \<Rightarrow> int \<Rightarrow> (cstring \<Rightarrow> 'n world \<Rightarrow> (int \<times> 'n world) option) \<Rightarrow> bool" where
  "sub_kept P fd sub = (\<forall>p w x. sub p w = Some x \<longrightarrow> kept P fd w \<longrightarrow> kept P fd (snd x))"

definition attempt_kept :: "('n outer \<Rightarrow> bool) \<Rightarrow> int \<Rightarrow> 'n attempt \<Rightarrow> bool" where
  "attempt_kept P fd attempt = (\<forall>c t q v y. attempt c t q v = Some y \<longrightarrow> kept P fd v \<longrightarrow> kept P fd (snd (snd y)))"

definition phase_kept :: "('n outer \<Rightarrow> bool) \<Rightarrow> int \<Rightarrow> 'n phase \<Rightarrow> bool" where
  "phase_kept P fd phase = (\<forall>c s w x. phase c s w = Some x \<longrightarrow> kept P fd w \<longrightarrow> kept P fd (snd (snd (snd x))))"

context world_invariant begin

subsection \<open>Context, validation and upload\<close>

lemma kept_blocked [simp]:
  assumes "kept P fd w"
  shows "kept P fd (snd (is_direct_blocked n w))" "kept P fd (snd (is_codebig_blocked n w))"
  using assms by (auto simp: is_direct_blocked_def is_codebig_blocked_def is_blocked_def split: option.splits sum.splits)

lemma kept_load_environment [simp]: "kept P fd w \<Longrightarrow> kept P fd (snd (snd (load_environment E ctx w)))"
  by (simp add: load_environment_def split_beta Let_def)

lemma kept_load_tr181 [simp]: "kept P fd w \<Longrightarrow> kept P fd (snd (snd (load_tr181_params E ctx w)))"
  by (simp add: load_tr181_params_def rbus_init_def split_beta)

lemma kept_init_context [simp]: "kept P fd w \<Longrightarrow> kept P fd (snd (snd (init_context E w)))"
  by (auto simp: init_context_def split_beta split: option.splits)

lemma kept_validation [simp]:
  assumes "kept P fd w"
  shows "kept P fd (snd (validate_codebig_access E w))" "kept P fd (snd (validate_directories E ctx w))"
    "kept P fd (snd (validate_system E ctx w))" "kept P fd (snd (decide_paths E ctx s w))"
  using assms by (simp_all add: validate_codebig_access_def validate_directories_def validate_system_def
      decide_paths_def split_beta Let_def)

lemma kept_curl_reports [simp]:
  assumes "kept P fd w"
  shows "kept P fd (report_curl_error c w)" "kept P fd (report_cert_error c url w)"
  using assms by (simp_all add: report_curl_error_def report_cert_error_def Let_def)

lemma kept_proxy: "attempt_proxy_fallback E ctx s a m w = Some x \<Longrightarrow> kept P fd w \<Longrightarrow> kept P fd (snd (snd x))"
  by (auto simp: attempt_proxy_fallback_def split_beta Let_def split: if_splits option.splits proxy_path.splits)

lemma kept_metadata [simp]: "kept P fd w \<Longrightarrow> kept P fd (snd (snd (snd (perform_metadata_post E ctx s url a m w))))"
  by (simp add: perform_metadata_post_def split_beta Let_def)

lemma kept_s3: "perform_s3_put_with_fallback E ctx s a m auth w = Some x \<Longrightarrow> kept P fd w \<Longrightarrow> kept P fd (snd (snd x))"
  by (auto simp: perform_s3_put_with_fallback_def split_beta Let_def split: if_splits option.splits dest!: kept_proxy)

lemma kept_attempt: "single_attempt_upload E ctx s p w = Some x \<Longrightarrow> kept P fd w \<Longrightarrow> kept P fd (snd (snd x))"
  by (auto simp: single_attempt_upload_def execute_direct_path_def execute_codebig_path_def split_beta Let_def
      split: if_splits option.splits UploadPath.splits dest!: kept_s3)

lemma kept_retry:
  assumes "\<And>c t q v y. attempt c t q v = Some y \<Longrightarrow> kept P fd v \<Longrightarrow> kept P fd (snd (snd y))"
    and "retry_upload attempt ctx s p w = Some x" "kept P fd w"
  shows "kept P fd (snd (snd x))"
proof -
  let ?Q = "\<lambda>attempt w x. attempt_kept P fd attempt \<longrightarrow> kept P fd w \<longrightarrow> kept P fd (snd (snd x))"
  have "?Q attempt w x"
  proof (rule retry_upload.raw_induct [where P = "\<lambda>a c s p w x. ?Q a w x", OF _ assms(2)], intro impI)
    fix rec attempt ctx s p w x
    assume ih: "\<And>a c s p w y. rec a c s p w = Some y \<Longrightarrow> ?Q a w y"
      and body: "(case attempt ctx (increment_attempts s p) p (t2_count_notify ''SYST_INFO_LUattempt'' w) of
        None \<Rightarrow> None
      | Some (result, s2, w2) \<Rightarrow>
          if result = UPLOADSTB_SUCCESS then Some (result, s2, w2)
          else if should_retry ctx s2 p result
          then (if should_retry ctx s2 p result then rec attempt ctx s2 p (sleep (retry_delay p) w2)
                else Some (result, s2, sleep (retry_delay p) w2))
          else Some (result, s2, w2)) = Some x"
      and at: "attempt_kept P fd attempt" and k: "kept P fd w"
    obtain r s2 w2 where y: "attempt ctx (increment_attempts s p) p (t2_count_notify ''SYST_INFO_LUattempt'' w) = Some (r, s2, w2)"
      using body by (auto split: option.splits)
    have k2: "kept P fd w2" using at y k unfolding attempt_kept_def by fastforce
    show "kept P fd (snd (snd x))"
    proof (cases "r \<noteq> UPLOADSTB_SUCCESS \<and> should_retry ctx s2 p r")
      case True
      then have "rec attempt ctx s2 p (sleep (retry_delay p) w2) = Some x" using body y by simp
      from ih [OF this] show ?thesis using at k2 by simp
    next
      case False
      then have "x = (r, s2, w2)" using body y by (auto split: if_splits)
      then show ?thesis using k2 by simp
    qed
  qed
  moreover have "attempt_kept P fd attempt" using assms(1) unfolding attempt_kept_def by blast
  ultimately show ?thesis using assms(3) by blast
qed

lemma kept_attempts: "attempt_upload E ctx s p w = Some x \<Longrightarrow> kept P fd w \<Longrightarrow> kept P fd (snd (snd x))"
  unfolding attempt_upload_def by (rule kept_retry [OF kept_attempt])

lemma kept_cycle: "execute_upload_cycle E ctx s w = Some x \<Longrightarrow> kept P fd w \<Longrightarrow> kept P fd (snd (snd x))"
  by (auto simp: execute_upload_cycle_def fail_cycle_def split_beta Let_def split: if_splits option.splits
      dest: kept_attempts)

lemma kept_upload_archive: "upload_archive E ctx s p w = Some x \<Longrightarrow> kept P fd w \<Longrightarrow> kept P fd (snd (snd x))"
  by (auto simp: upload_archive_def split_beta split: if_splits option.splits dest: kept_cycle)

subsection \<open>Clean-up\<close>

lemma kept_rmdir_entries:
  assumes "sub_kept P fd sub"
  shows "rmdir_entries sub p ns w = Some v \<Longrightarrow> kept P fd w \<Longrightarrow> kept P fd v"
  by (induction ns arbitrary: w) (auto simp: split_beta Let_def split: if_splits option.splits dest: assms [unfolded sub_kept_def, rule_format])

lemma kept_rmdir: "rmdir_recursive k p w = Some x \<Longrightarrow> kept P fd w \<Longrightarrow> kept P fd (snd x)"
proof (induction k arbitrary: p w x)
  case (Suc k)
  have "sub_kept P fd (rmdir_recursive k)" using Suc.IH unfolding sub_kept_def by blast
  from kept_rmdir_entries [OF this] Suc.prems show ?case
    by (auto simp: split_beta split: option.splits)
qed simp

lemma kept_old_backups: "old_backups_loop log c ns k w = Some x \<Longrightarrow> kept P fd w \<Longrightarrow> kept P fd (snd x)"
  by (induction ns arbitrary: k w)
    (auto simp: split_beta Let_def remove_directory_recursive_def split: if_splits option.splits dest: kept_rmdir)

lemma kept_cleanup_backups: "cleanup_old_log_backups log d w = Some x \<Longrightarrow> kept P fd w \<Longrightarrow> kept P fd (snd x)"
  by (auto simp: cleanup_old_log_backups_def split: option.splits dest: kept_old_backups)

lemma kept_archives_loop:
  assumes "sub_kept P fd sub"
  shows "old_archives_loop sub log ns k w = Some x \<Longrightarrow> kept P fd w \<Longrightarrow> kept P fd (snd x)"
  by (induction ns arbitrary: k w)
    (auto simp: split_beta split: if_splits option.splits node.splits dest: assms [unfolded sub_kept_def, rule_format])

lemma kept_old_archives: "old_archives k log w = Some x \<Longrightarrow> kept P fd w \<Longrightarrow> kept P fd (snd x)"
proof (induction k arbitrary: log w x)
  case (Suc k)
  have "sub_kept P fd (old_archives k)" using Suc.IH unfolding sub_kept_def by blast
  from kept_archives_loop [OF this] Suc.prems show ?case by (auto split: option.splits)
qed simp

lemma kept_privacy_loop [simp]: "kept P fd w \<Longrightarrow> kept P fd (privacy_loop log ns w)"
  by (induction ns arbitrary: w) (auto split: option.splits)

lemma kept_privacy [simp]: "kept P fd w \<Longrightarrow> kept P fd (enforce_privacy E log w)"
  by (auto simp: enforce_privacy_def split: option.splits)

lemma kept_markers [simp]: "kept P fd w \<Longrightarrow> kept P fd (update_block_markers s w)"
  by (auto simp: update_block_markers_def create_block_marker_def Let_def split: option.splits)

lemma kept_removals [simp]:
  assumes "kept P fd w"
  shows "kept P fd (snd (remove_archive p w))" "kept P fd (snd (unlink_if_present p w))"
  using assms by (auto simp: remove_archive_def unlink_if_present_def split: sum.splits)

lemma kept_finalize [simp]: "kept P fd w \<Longrightarrow> kept P fd (finalize_session ctx s w)"
  by (simp add: finalize_session_def cleanup_temp_dirs_def split_beta Let_def)

subsection \<open>Archives\<close>

lemma kept_collect_loop [simp]: "kept P fd w \<Longrightarrow> kept P fd (snd (collect_loop E s d flt ns k w))"
  by (induction ns arbitrary: w k) (simp_all add: copy_log_file_def split_beta Let_def)

lemma kept_collect [simp]:
  assumes "kept P fd w"
  shows "kept P fd (snd (collect_logs E ctx d w))" "kept P fd (snd (collect_pcap_logs E ctx d w))"
  using assms by (auto simp: collect_logs_def collect_files_from_dir_def collect_pcap_logs_def copy_log_file_def
      split_beta Let_def split: option.splits)

lemma kept_rewrite:
  "kept P fd w \<Longrightarrow> kept P fd (case os_write (fs w) p d t of None \<Rightarrow> w | Some g \<Rightarrow> w\<lparr>fs := g\<rparr>)"
  by (auto split: option.splits)

text \<open>The end of the writing of an archive.\<close>

definition close_archive ::
  "SessionState \<Rightarrow> cstring \<Rightarrow> cstring \<Rightarrow> 'n world \<Rightarrow> int \<times> cstring \<Rightarrow> int \<times> SessionState \<times> 'n world" where
  "close_archive s archive_filename apath w1 g =
     (let w2 = (case os_write (fs w1) apath (gzip_bytes E (snd g)) (clock w1) of None \<Rightarrow> w1 | Some f2 \<Rightarrow> w1\<lparr>fs := f2\<rparr>);
          r2 = (if gzclose_ok E (outer_of w2) then fst g else -1);
          w3 = (if r2 \<noteq> 0 \<and> file_exists E w2 apath then snd (remove_file E apath w2) else w2)
      in if r2 = 0 \<and> file_exists E w3 apath
         then (0, s\<lparr>archive_file := take 255 archive_filename\<rparr>, w3) else (-1, s, w3))"

lemma kept_close [simp]: "kept P fd w \<Longrightarrow> kept P fd (snd (snd (close_archive s a p w g)))"
  using kept_rewrite [of w p] by (simp add: close_archive_def Let_def)

lemma create_cases:
  assumes "create_archive_with_options E ctx s d o1 pre w = Some x"
  shows "snd (snd x) = w \<or> (\<exists>p f1 a g. os_write (fs w) p [] (clock w) = Some f1 \<and> x = close_archive s a p (w\<lparr>fs := f1\<rparr>) g)"
proof -
  let ?t = "if archive_ref_time ctx \<noteq> 0 then archive_ref_time ctx else clock w"
  show ?thesis
  proof (cases "dir_exists E w d \<and> generate_archive_name_at 256 (mac_address ctx) pre ?t \<noteq> None")
    case False
    then show ?thesis using assms by (cases "dir_exists E w d") (auto simp: create_archive_with_options_def Let_def)
  next
    case True
    then obtain a where a: "dir_exists E w d" "generate_archive_name_at 256 (mac_address ctx) pre ?t = Some a" by blast
    let ?p = "take 511 (slashed (case o1 of None \<Rightarrow> d | Some q \<Rightarrow> q) a)"
    show ?thesis
    proof (cases "os_write (fs w) ?p [] (clock w)")
      case None
      then show ?thesis using assms a by (auto simp: create_archive_with_options_def Let_def)
    next
      case (Some f1)
      let ?w1 = "w\<lparr>fs := f1\<rparr>"
      obtain r gz where add: "add_directory_to_tar E ?w1 [] d d ?p = Some (r, gz)"
        using assms a Some by (auto simp: create_archive_with_options_def Let_def split: option.splits)
      obtain r1 gz1 where g: "(case gzwrite E ?w1 gz (replicate (2 * TAR_BLOCK_SIZE) NUL) of
          None \<Rightarrow> (-1, gz) | Some g \<Rightarrow> (r, g)) = (r1, gz1)" by fastforce
      have "create_archive_with_options E ctx s d o1 pre w = Some (close_archive s a ?p ?w1 (r1, gz1))"
        using a Some add g by (simp add: create_archive_with_options_def close_archive_def Let_def)
      then have "x = close_archive s a ?p ?w1 (r1, gz1)" using assms by simp
      then show ?thesis using Some by blast
    qed
  qed
qed

lemma kept_create: "create_archive_with_options E ctx s d o1 pre w = Some x \<Longrightarrow> kept P fd w \<Longrightarrow> kept P fd (snd (snd x))"
  by (auto dest!: create_cases)

lemma kept_archives:
  "create_archive E ctx s d w = Some x \<Longrightarrow> kept P fd w \<Longrightarrow> kept P fd (snd (snd x))"
  "create_dri_archive E ctx s w = Some x \<Longrightarrow> kept P fd w \<Longrightarrow> kept P fd (snd (snd x))"
  by (auto simp: create_archive_def create_dri_archive_def split: if_splits dest: kept_create)

subsection \<open>Strategies\<close>

lemma kept_connectivity [simp]: "kept P fd w \<Longrightarrow> kept P fd (snd (check_internet_connectivity E w))"
  by (auto simp: check_internet_connectivity_def split_beta split: option.splits)

lemma kept_sentinel:
  assumes "sentinel_loop E n d w = Some x" "kept P fd w"
  shows "kept P fd (snd x)"
proof -
  have "kept P fd w \<longrightarrow> kept P fd (snd x)"
  proof (rule sentinel_loop.raw_induct [where P = "\<lambda>A n d w x. A = E \<longrightarrow> kept P fd w \<longrightarrow> kept P fd (snd x)", OF _ assms(1), THEN mp, OF _ refl])
    fix rec A n d w x
    assume ih: "\<And>A n d w y. rec A n d w = Some y \<Longrightarrow> A = E \<longrightarrow> kept P fd w \<longrightarrow> kept P fd (snd y)"
      and body: "(if (case clock_monotonic A (outer_of w) of None \<Rightarrow> False | Some now \<Rightarrow> d \<le> now) then Some (False, w)
      else case xcall (inotify_select A) w of (r, w1) \<Rightarrow>
        (case r of SelInterrupted \<Rightarrow> rec A n d w1 | SelFailed \<Rightarrow> Some (False, w1) | SelTimeout \<Rightarrow> rec A n d w1
         | SelNothing \<Rightarrow> rec A n d w1
         | SelNames ns \<Rightarrow> if List.member ns n then Some (True, w1) else rec A n d w1)) = Some x"
    show "A = E \<longrightarrow> kept P fd w \<longrightarrow> kept P fd (snd x)"
    proof (intro impI)
      assume A: "A = E" and k: "kept P fd w"
      have "kept P fd (snd (xcall (inotify_select E) w))" using k by simp
      then show "kept P fd (snd x)"
        using body A k ih [of E n d "snd (xcall (inotify_select E) w)" x]
        by (auto simp: split_beta split: if_splits select_result.splits)
    qed
  qed
  then show ?thesis using assms(2) by blast
qed

lemma kept_wait: "wait_for_sentinel E f d n t w = Some x \<Longrightarrow> kept P fd w \<Longrightarrow> kept P fd (snd x)"
  by (auto simp: wait_for_sentinel_def split: if_splits option.splits dest: kept_sentinel)

lemma kept_trigger [simp]: "kept P fd w \<Longrightarrow> kept P fd (trigger_reboot_info_update E w)"
  by (simp add: trigger_reboot_info_update_def)

lemma kept_reboot_waits: "reboot_waits E w = Some v \<Longrightarrow> kept P fd w \<Longrightarrow> kept P fd v"
  by (auto simp: reboot_waits_def wait_for_reboot_reason_def wait_for_telemetry_prevlogs_done_def
      split: option.splits dest!: kept_wait split: if_splits)

lemma kept_copy_opt [simp]: "kept P fd w \<Longrightarrow> kept P fd (snd (copy_opt_loop E s d ns k w))"
  by (induction ns arbitrary: w k) (simp_all add: split_beta)

lemma kept_copy_opt_files [simp]: "kept P fd w \<Longrightarrow> kept P fd (snd (copy_opt_logs_files E s d w))"
  by (auto simp: copy_opt_logs_files_def split: option.splits)

lemma kept_tree_loop:
  assumes "\<And>s. sub_kept P fd (sub s)"
  shows "copy_tree_loop sub E skip s d ns k w = Some x \<Longrightarrow> kept P fd w \<Longrightarrow> kept P fd (snd x)"
  by (induction ns arbitrary: k w)
    (auto simp: split_beta Let_def split: if_splits option.splits dest: assms [unfolded sub_kept_def, rule_format])

lemma kept_copy_tree: "sub_kept P fd (copy_tree k E s)"
proof (induction k arbitrary: s)
  case (Suc k)
  show ?case unfolding sub_kept_def
    using kept_tree_loop [of "copy_tree k E", OF Suc.IH] by (auto split: option.splits)
qed (simp add: sub_kept_def)

lemma kept_copies:
  "copy_dir_recursive E s d w = Some x \<Longrightarrow> kept P fd w \<Longrightarrow> kept P fd (snd x)"
  "copy_all_files_to_dcm E s d w = Some x \<Longrightarrow> kept P fd w \<Longrightarrow> kept P fd (snd x)"
proof -
  have r: "copy_dir_recursive E s = copy_tree 300 E s" for s by (simp add: copy_dir_recursive_def fun_eq_iff)
  then have s: "sub_kept P fd (copy_dir_recursive E s)" for s by (simp add: kept_copy_tree)
  then show "copy_dir_recursive E s d w = Some x \<Longrightarrow> kept P fd w \<Longrightarrow> kept P fd (snd x)"
    unfolding sub_kept_def by blast
  show "copy_all_files_to_dcm E s d w = Some x \<Longrightarrow> kept P fd w \<Longrightarrow> kept P fd (snd x)"
    using kept_tree_loop [of "copy_dir_recursive E", OF s]
    by (auto simp: copy_all_files_to_dcm_def split: option.splits)
qed

lemma kept_upload_list: "upload_list_loop E ctx ls k w = Some x \<Longrightarrow> kept P fd w \<Longrightarrow> kept P fd (snd x)"
  by (induction ls arbitrary: k w) (auto simp: split_beta Let_def split: if_splits option.splits dest: kept_copies)

lemma kept_process_list: "process_dcm_upload_list E ctx w = Some x \<Longrightarrow> kept P fd w \<Longrightarrow> kept P fd (snd x)"
  by (auto simp: process_dcm_upload_list_def Let_def split: option.splits dest!: kept_upload_list)

lemma kept_small [simp]:
  assumes "kept P fd w"
  shows "kept P fd (clear_pcaps E ctx w)" "kept P fd (append_line f l w)" "kept P fd (remove_if_exists E p w)"
    "kept P fd (copy_backup_log E ctx w)" "kept P fd (snd (ntp_reference E ctx w))"
    "kept P fd (recreate_backup_dir E ctx w)"
  using assms by (auto simp: clear_pcaps_def append_line_def remove_if_exists_def copy_backup_log_def
      ntp_reference_def recreate_backup_dir_def split_beta Let_def split: option.splits)

lemma kept_append_list [simp]: "kept P fd w \<Longrightarrow> kept P fd (append_upload_list ctx p w)"
  by (simp add: append_upload_list_def)

lemma kept_reboot_prepare [simp]: "kept P fd w \<Longrightarrow> kept P fd (snd (reboot_prepare E ctx w))"
  by (simp add: reboot_prepare_def Let_def split: option.split)

lemma kept_dri: "upload_dri_logs E ctx s w = Some v \<Longrightarrow> kept P fd w \<Longrightarrow> kept P fd v"
  by (auto simp: upload_dri_logs_def split_beta Let_def split: if_splits option.splits
      dest!: kept_archives kept_upload_archive)

lemma kept_dcm:
  assumes "kept P fd w"
  shows "dcm_setup E ctx s w = Some x \<Longrightarrow> kept P fd (snd (snd (snd x)))"
    "dcm_archive E ctx s w = Some x \<Longrightarrow> kept P fd (snd (snd (snd x)))"
    "dcm_upload E ctx s w = Some x \<Longrightarrow> kept P fd (snd (snd (snd x)))"
    "dcm_cleanup E b ctx s w = Some x \<Longrightarrow> kept P fd (snd (snd (snd x)))"
  using assms by (auto simp: dcm_setup_def dcm_archive_def dcm_upload_def dcm_cleanup_def split_beta Let_def
      split: if_splits option.splits dest!: kept_copies kept_process_list kept_archives kept_upload_archive)

lemma kept_ondemand:
  assumes "kept P fd w"
  shows "ondemand_setup E ctx s w = Some x \<Longrightarrow> kept P fd (snd (snd (snd x)))"
    "ondemand_archive E ctx s w = Some x \<Longrightarrow> kept P fd (snd (snd (snd x)))"
    "ondemand_upload E ctx s w = Some x \<Longrightarrow> kept P fd (snd (snd (snd x)))"
    "ondemand_cleanup E b ctx s w = Some x \<Longrightarrow> kept P fd (snd (snd (snd x)))"
  using assms by (auto simp: ondemand_setup_def ondemand_archive_def ondemand_upload_def ondemand_cleanup_def
      split_beta Let_def split: if_splits option.splits dest!: kept_archives kept_upload_archive)

lemma kept_reboot:
  assumes "kept P fd w"
  shows "reboot_setup E ctx s w = Some x \<Longrightarrow> kept P fd (snd (snd (snd x)))"
    "reboot_archive E ctx s w = Some x \<Longrightarrow> kept P fd (snd (snd (snd x)))"
    "reboot_upload E ctx s w = Some x \<Longrightarrow> kept P fd (snd (snd (snd x)))"
    "reboot_cleanup E b ctx s w = Some x \<Longrightarrow> kept P fd (snd (snd (snd x)))"
  using assms by (auto simp: reboot_setup_def reboot_archive_def reboot_upload_def reboot_cleanup_def
      split_beta Let_def split: if_splits option.splits
      dest!: kept_reboot_waits kept_cleanup_backups kept_archives kept_upload_archive kept_dri)

subsection \<open>The runs\<close>

lemma phases_kept [simp]:
  "phase_kept P fd (dcm_setup E)" "phase_kept P fd (dcm_archive E)" "phase_kept P fd (dcm_upload E)"
  "phase_kept P fd (dcm_cleanup E b)" "phase_kept P fd (ondemand_setup E)" "phase_kept P fd (ondemand_archive E)"
  "phase_kept P fd (ondemand_upload E)" "phase_kept P fd (ondemand_cleanup E b)" "phase_kept P fd (reboot_setup E)"
  "phase_kept P fd (reboot_archive E)" "phase_kept P fd (reboot_upload E)" "phase_kept P fd (reboot_cleanup E b)"
  unfolding phase_kept_def by (blast intro: kept_dcm kept_ondemand kept_reboot)+

lemma handler_kept:
  assumes "get_strategy_handler E st = Some h"
  shows "phase_kept P fd (setup_phase h)" "phase_kept P fd (archive_phase h)" "phase_kept P fd (upload_phase h)"
    "phase_kept P fd (cleanup_phase h b)"
  using assms by (auto simp: get_strategy_handler_def dcm_strategy_handler_def ondemand_strategy_handler_def
      reboot_strategy_handler_def split: Strategy.splits)

lemma kept_handler:
  assumes "get_strategy_handler E st = Some h" "run_handler h ctx s w = Some x" "kept P fd w"
  shows "kept P fd (snd (snd (snd x)))"
proof -
  note ph = handler_kept [OF assms(1), unfolded phase_kept_def, rule_format]
  obtain ret ok c1 s1 w1 where r: "run_phases h ctx s w = Some (ret, ok, c1, s1, w1)"
    using assms(2) by (auto simp: run_handler_def split: option.splits)
  obtain a1 where a1: "setup_phase h ctx s w = Some a1" using r by (auto simp: run_phases_def split: option.splits)
  note k1 = ph(1) [OF a1 assms(3)]
  have k: "kept P fd w1"
    using r a1 k1 by (auto simp: run_phases_def split_beta split: if_splits option.splits dest!: ph(2,3))
  obtain a2 where "cleanup_phase h ok c1 s1 w1 = Some a2" "snd (snd (snd x)) = snd (snd (snd a2))"
    using assms(2) r by (auto simp: run_handler_def split: option.splits)
  then show ?thesis using ph(4) k by metis
qed

lemma kept_workflow: "execute_strategy_workflow E ctx s w = Some x \<Longrightarrow> kept P fd w \<Longrightarrow> kept P fd (snd (snd (snd x)))"
  by (auto simp: execute_strategy_workflow_def cleanup_old_archives_def split: option.splits
      dest!: kept_old_archives dest: kept_handler)

lemma kept_status [simp]: "kept P fd w \<Longrightarrow> kept P fd (set_status E m w)"
  by (auto simp: set_status_def write_upload_status_def Let_def split: option.splits)

lemma kept_copy_now [simp]: "kept P fd w \<Longrightarrow> kept P fd (snd (copy_now_loop E s d ns k w))"
  by (induction ns arbitrary: w k) (simp_all add: split_beta)

lemma kept_copy_to_dcm [simp]: "kept P fd w \<Longrightarrow> kept P fd (snd (copy_files_to_dcm_path E s d w))"
  by (auto simp: copy_files_to_dcm_path_def split: option.splits)

lemma kept_now_upload: "now_upload E ctx d w = Some x \<Longrightarrow> kept P fd w \<Longrightarrow> kept P fd (snd x)"
  by (auto simp: now_upload_def split_beta Let_def split: if_splits option.splits dest!: kept_archives kept_cycle)

lemma kept_now: "execute_uploadlogsnow_workflow E ctx w = Some x \<Longrightarrow> kept P fd w \<Longrightarrow> kept P fd (snd x)"
  by (auto simp: execute_uploadlogsnow_workflow_def split_beta Let_def split: if_splits option.splits dest!: kept_now_upload)

lemma kept_session: "run_session E ctx w = Some x \<Longrightarrow> kept P fd w \<Longrightarrow> kept P fd (snd x)"
  by (auto simp: run_session_def rrd_upload_def finish_run_def split_beta Let_def split: if_splits option.splits
      dest!: kept_cycle kept_workflow)

end

end
