(* ===== verification/RunProps.thy ===== *)
theory RunProps
  imports RunInvariant CleanupProps
begin

text \<open>
  What a run of the upload tool leaves behind: the lock, the file tree, and the strings of its context.
\<close>

lemma script_write_locks [simp]: "flocks (script_write u p d) = flocks u"
  by (simp add: script_write_def split: option.splits)

interpretation scripted: world_invariant "\<lambda>u. flocks u = L" script_externals fd for L fd
  by unfold_locales
    (auto simp: calls_keep_def call_keeps_def script_externals_def script_defs Let_def split_beta
      split: option.splits sum.splits)

subsection \<open>The lock\<close>

lemma kept_locks:
  assumes "\<And>L. calls_keep (\<lambda>u. flocks u = L) E"
  shows "world_invariant (\<lambda>u. flocks u = L) E"
  using assms by unfold_locales simp

definition locked_run ::
  "'n externals \<Rightarrow> (bool \<Rightarrow> RuntimeContext \<Rightarrow> 'n world \<Rightarrow> (int \<times> 'n world) option) \<Rightarrow> 'n world \<Rightarrow> (int \<times> 'n world) option" where
  "locked_run E body w =
     (case acquire_lock LOCK_FILE w of (locked, w1) \<Rightarrow>
        if \<not> locked then Some (1, lock_busy E w1)
        else case init_context E w1 of (ok, ctx, w2) \<Rightarrow> released (body ok ctx w2))"

lemma runs_locked:
  "uploadstblogs_run E (Some p) w = locked_run E (\<lambda>ok ctx v. if \<not> ok then Some (1, v) else run_session E (set_params p ctx) v) w"
  "uploadstblogs_execute E argv w = locked_run E
     (\<lambda>ok ctx v. if \<not> ok then Some (1, v)
        else if uploadlogsnow_mode (parse_args argv ctx) then execute_uploadlogsnow_workflow E (parse_args argv ctx) v
        else run_session E (parse_args argv ctx) v) w"
  by (simp_all add: uploadstblogs_run_def uploadstblogs_execute_def locked_run_def Let_def split_beta)

lemma acquire_cases:
  assumes "acquire_lock LOCK_FILE w = (locked, w1)"
  shows "trace w1 = trace w \<and> iarm_initialized w1 = iarm_initialized w \<and>
    (if locked then LOCK_FILE \<notin> fst ` set (flocks w) \<and> flocks w1 = (LOCK_FILE, next_fd w) # flocks w \<and> lock_fd w1 = next_fd w
     else flocks w1 = flocks w \<and> lock_fd w1 = -1)"
  using assms by (auto simp: acquire_lock_def Let_def split: option.splits if_splits)

text \<open>Between the lock and its release the other locks stay as they are.\<close>

lemma locked_run_locks:
  assumes keep: "\<And>L. calls_keep (\<lambda>u. flocks u = L) E"
    and fresh: "\<forall>l \<in> set (flocks w). snd l < next_fd w" "0 \<le> next_fd w"
    and body: "\<And>P fd ok ctx v x. world_invariant P E \<Longrightarrow> body ok ctx v = Some x \<Longrightarrow> kept P fd v \<Longrightarrow> kept P fd (snd x)"
    and run: "locked_run E body w = Some (ret, w')"
  shows "flocks w' = flocks w \<and> lock_fd w' = -1 \<and>
    (LOCK_FILE \<in> fst ` set (flocks w) \<longrightarrow> ret = 1 \<and> (trace w' = trace w \<or> trace w' = trace w @ [MaintStatus 16]))"
proof -
  obtain locked w1 where a: "acquire_lock LOCK_FILE w = (locked, w1)" by fastforce
  note ac = acquire_cases [OF a]
  show ?thesis
  proof (cases locked)
    case False
    then have w': "ret = 1" "w' = lock_busy E w1" using run a by (auto simp: locked_run_def)
    have "kept (\<lambda>u. flocks u = flocks w) (-1) w1" using ac False by (simp add: kept_def)
    then have "kept (\<lambda>u. flocks u = flocks w) (-1) w'"
      using world_invariant.kept_events(2) [OF kept_locks [OF keep]] by (auto simp: w' lock_busy_def)
    moreover have "trace w' = trace w \<or> trace w' = trace w @ [MaintStatus 16]"
      using ac send_iarm_event_maintenance_trace(1) [of E 16 w1] by (simp add: w' lock_busy_def)
    ultimately show ?thesis using w' by (simp add: kept_def)
  next
    case True
    let ?P = "\<lambda>u. flocks u = (LOCK_FILE, next_fd w) # flocks w"
    note inv = kept_locks [OF keep]
    obtain ok ctx w2 where i: "init_context E w1 = (ok, ctx, w2)" by (metis prod_cases3)
    have "kept ?P (next_fd w) w1" using ac True by (simp add: kept_def)
    then have k2: "kept ?P (next_fd w) w2"
      using world_invariant.kept_init_context [OF inv] i by (metis snd_conv)
    obtain v where v: "body ok ctx w2 = Some (ret, v)" "w' = release_lock v"
      using run a i True by (auto simp: locked_run_def released_def split: option.splits)
    have "kept ?P (next_fd w) v" using body [OF inv v(1) k2] by simp
    moreover have "filter (Not \<circ> held_by (next_fd w)) (flocks w) = flocks w"
      using fresh(1) by (auto simp: filter_id_conv held_by_def)
    ultimately have "flocks w' = flocks w \<and> lock_fd w' = -1"
      using fresh(2) by (simp add: v(2) release_lock_def kept_def held_by_def)
    then show ?thesis using ac True by simp
  qed
qed

text \<open>
  Claim C15. The lock of the upload tool.  However a run ends, started by the daemon or from the shell, the
  lock has been released and the other locks are as before.  While another run holds the lock, a run
  returns 1 at once and at most reports that the upload is in progress.
\<close>

theorem upload_releases_the_lock:
  assumes "\<And>L. calls_keep (\<lambda>u. flocks u = L) E"
    and "\<forall>l \<in> set (flocks w). snd l < next_fd w" "0 \<le> next_fd w"
    and "uploadstblogs_run E (Some p) w = Some (ret, w') \<or> uploadstblogs_execute E argv w = Some (ret, w')"
  shows "flocks w' = flocks w \<and> lock_fd w' = -1 \<and>
    (LOCK_FILE \<in> fst ` set (flocks w) \<longrightarrow> ret = 1 \<and> (trace w' = trace w \<or> trace w' = trace w @ [MaintStatus 16]))"
proof -
  note run = locked_run_locks [OF assms(1-3), rotated]
  from assms(4) show ?thesis
  proof
    assume "uploadstblogs_run E (Some p) w = Some (ret, w')"
    then show ?thesis unfolding runs_locked
      by (rule run) (auto split: if_splits intro: world_invariant.kept_session)
  next
    assume "uploadstblogs_execute E argv w = Some (ret, w')"
    then show ?thesis unfolding runs_locked
      by (rule run) (auto split: if_splits intro: world_invariant.kept_session world_invariant.kept_now)
  qed
qed

definition no_bus_world :: "script world" where
  "no_bus_world = (sample_world (quiet_script\<lparr>bus := False\<rparr>) [([''tmp''], Dir 0)])\<lparr>flocks := [(''/tmp/other.lock'', 2)]\<rparr>"

lemma no_bus_run: "map_option fst (uploadstblogs_execute script_externals [''logupload''] no_bus_world) = Some 1"
  by code_simp

theorem upload_releases_the_lock_witness:
  "\<exists>w'. uploadstblogs_execute script_externals [''logupload''] no_bus_world = Some (1, w') \<and>
     flocks w' = [(''/tmp/other.lock'', 2)] \<and> lock_fd w' = -1"
proof -
  obtain w' where r: "uploadstblogs_execute script_externals [''logupload''] no_bus_world = Some (1, w')"
    using no_bus_run by (auto simp: map_option_case split: option.splits)
  have c: "calls_keep (\<lambda>u. flocks u = L) script_externals" for L
    using scripted.outside .
  have f: "flocks no_bus_world = [(''/tmp/other.lock'', 2)]" "next_fd no_bus_world = 3"
    by (simp_all add: no_bus_world_def sample_world_def)
  from upload_releases_the_lock [OF c, of no_bus_world] r f show ?thesis by fastforce
qed

subsection \<open>The strings of the context\<close>

text \<open>The sizes of the arrays of \<^verbatim>\<open>RuntimeContext\<close>; a string needs one character less.\<close>

definition context_fits :: "RuntimeContext \<Rightarrow> bool" where
  "context_fits ctx =
     (list_all (\<lambda>s. length s < 512) [log_path ctx, prev_log_path ctx, archive_path ctx, rrd_file ctx, dri_log_path ctx,
        temp_dir ctx, telemetry_path ctx, dcm_log_file ctx, dcm_log_path ctx, iarm_event_binary ctx] \<and>
      list_all (\<lambda>s. length s < 1024) [endpoint_url ctx, upload_http_link ctx, presign_url ctx, proxy_bucket ctx] \<and>
      list_all (\<lambda>s. length s < 32) [mac_address ctx, device_type ctx, build_type ctx] \<and>
      list_all (\<lambda>s. length s < 256) [cert_path ctx, key_path ctx, ca_cert_path ctx])"

text \<open>The property and MAC utilities fill a buffer of a given size with a terminated string.\<close>

definition buffers_filled :: "'n externals \<Rightarrow> bool" where
  "buffers_filled E =
     ((\<forall>u k n. 0 < n \<longrightarrow> length (or_default (getIncludePropertyData E u k n) []) < n \<and>
         length (or_default (getDevicePropertyData E u k n) []) < n) \<and>
      (\<forall>u. length (GetEstbMac E u 32) < 32))"

lemma or_default_length:
  "length (or_default v []) < n \<Longrightarrow> length d < m \<Longrightarrow> n \<le> m \<Longrightarrow> length (or_default v d) < m"
  by (auto simp: or_default_def split: option.splits)

lemma property_length:
  assumes "buffers_filled E" "length d < m" "32 \<le> m"
  shows "length (or_default (getIncludePropertyData E u k 32) d) < m"
    "length (or_default (getDevicePropertyData E u k 32) d) < m"
  using assms or_default_length [of _ 32 d m] unfolding buffers_filled_def by simp_all

lemma below_log_path_length: "length suf < n \<Longrightarrow> length d < 512 \<Longrightarrow> length (below_log_path lp n suf d) < 512"
  by (simp add: below_log_path_def MAX_PATH_LENGTH_def)

lemma load_environment_fits:
  assumes "buffers_filled E"
  shows "context_fits (fst (snd (load_environment E zero_context w)))"
  using assms
  by (simp add: load_environment_def Let_def split_beta context_fits_def zero_context_def property_length
      below_log_path_length)

lemma bus_string_length: "length d < n \<Longrightarrow> length (or_default (rbus_get_string_param E k n w) d) < n"
  by (auto simp: rbus_get_string_param_def or_default_def split: option.splits)

lemma if_length: "length a < n \<Longrightarrow> length b < n \<Longrightarrow> length (if c then a else b) < (n :: nat)"
  by simp

lemma fits_set_params: "context_fits ctx \<Longrightarrow> context_fits (set_params p ctx)"
  by (cases "p_rrd_file p"; cases "p_upload_http_link p") (simp_all add: context_fits_def set_params_def min_less_iff_disj)

lemma fits_parse_args: "context_fits ctx \<Longrightarrow> context_fits (parse_args argv ctx)"
proof (cases "2 \<le> length argv \<and> argv ! 1 = ''uploadlogsnow''")
  case True
  assume "context_fits ctx"
  then show ?thesis unfolding parse_args_def Let_def if_P [OF True] by (simp add: context_fits_def)
next
  case False
  assume "context_fits ctx"
  then show ?thesis unfolding parse_args_def Let_def if_not_P [OF False]
    by (simp add: context_fits_def if_length min_less_iff_disj split del: if_split)
qed

text \<open>
  Claim C16. Whatever the properties of the device, the bus, the command line and the caller deliver, every
  string of the runtime context fits its array.
\<close>

theorem context_strings_fit:
  assumes "buffers_filled E" "init_context E w = (ok, ctx, w')"
  shows "context_fits ctx \<and> context_fits (set_params p ctx) \<and> context_fits (parse_args argv ctx)"
proof -
  obtain ok1 c1 w1 where c1: "load_environment E zero_context w = (ok1, c1, w1)" by (metis prod_cases3)
  have f1: "context_fits c1" using load_environment_fits [OF assms(1), of w] c1 by simp
  obtain ok2 c2 w2 where c2: "load_tr181_params E c1 w1 = (ok2, c2, w2)" by (metis prod_cases3)
  have f2: "context_fits c2"
    using f1 c2 by (auto simp: load_tr181_params_def context_fits_def bus_string_length split: prod.splits if_splits)
  have "length (GetEstbMac E (outer_of w2) 32) < 32" using assms(1) by (simp add: buffers_filled_def)
  moreover have "ctx = c1 \<or> ctx = c2 \<or> ctx = c2\<lparr>mac_address := GetEstbMac E (outer_of w2) 32\<rparr>"
    using assms(2) c1 c2 by (auto simp: init_context_def get_mac_address_def Let_def split: if_splits)
  ultimately have "context_fits ctx" using f1 f2 by (elim disjE) (simp_all add: context_fits_def)
  then show ?thesis using fits_set_params fits_parse_args by blast
qed

lemma scripted_buffers: "buffers_filled script_externals"
  by (auto simp: buffers_filled_def script_externals_def script_defs or_default_def split: option.splits)

text \<open>A link of 2000 characters on the command line.\<close>

theorem context_strings_fit_witness:
  "\<exists>ok ctx w'. init_context script_externals no_bus_world = (ok, ctx, w') \<and> context_fits ctx \<and>
     context_fits (parse_args [''logupload'', ''x'', ''1'', ''1'', ''true'', ''HTTPS'', replicate 2000 (CHR ''u'')] ctx)"
proof -
  obtain ok ctx w' where i: "init_context script_externals no_bus_world = (ok, ctx, w')" by (metis prod_cases3)
  from context_strings_fit [OF scripted_buffers i] i show ?thesis by blast
qed

subsection \<open>Privacy\<close>

text \<open>The events by which logs leave the device.\<close>

fun sends_log :: "event \<Rightarrow> bool" where
  "sends_log (MetadataPost a b c) = True"
| "sends_log (S3Put a b) = True"
| "sends_log (ProxyPut a b) = True"
| "sends_log (CodeBigPost a) = True"
| "sends_log (CodeBigPut a b) = True"
| "sends_log _ = False"

lemma xcall_trace [simp]: "trace (snd (xcall f w)) = trace w"
  by (cases "xcall f w") (auto dest: xcall_keeps)

lemma make_directories_trace [simp]: "trace (snd (make_directories E ds w)) = trace w"
  by (induction ds arbitrary: w) (simp_all add: split_beta)

lemma context_trace: "trace (snd (snd (init_context E w))) = trace w"
proof -
  have b: "trace (snd (is_blocked f n v)) = trace v" for f n and v :: "'n world"
    by (simp add: is_blocked_def split: option.split sum.split)
  have c: "trace (snd (create_directory E p v)) = trace v" for p v
    by (simp add: create_directory_def Let_def)
  have e: "trace (snd (snd (load_environment E x v))) = trace v" for x v
    by (simp add: load_environment_def Let_def split_beta b c is_direct_blocked_def is_codebig_blocked_def)
  have "trace (snd (snd (load_tr181_params E x v))) = trace v" for x v
    by (simp add: load_tr181_params_def rbus_init_def split_beta)
  with e show ?thesis by (simp add: init_context_def split_beta split: option.split)
qed

lemma validation_trace:
  "\<exists>t. trace (snd (validate_system E ctx w)) = trace w @ t \<and> list_all (Not \<circ> sends_log) t"
proof -
  have "\<exists>t. trace (snd (validate_directories E ctx w)) = trace w @ t \<and> list_all (Not \<circ> sends_log) t"
    by (auto simp: validate_directories_def Let_def emit_folder_missing_error_def send_iarm_event_maintenance_trace)
  moreover have "trace (snd (validate_codebig_access E v)) = trace v @ [Shell ''GetServiceUrl 2 temp'']" for v
    by (simp add: validate_codebig_access_def split_beta)
  ultimately show ?thesis by (auto simp: validate_system_def split_beta)
qed

definition bus_keeps_files :: "'n externals \<Rightarrow> bool" where
  "bus_keeps_files E =
     (\<forall>F. call_keeps (\<lambda>u. fs u = F) (IARM_Bus_IsConnected E) \<and> call_keeps (\<lambda>u. fs u = F) (IARM_Bus_Init E) \<and>
        call_keeps (\<lambda>u. fs u = F) (IARM_Bus_Connect E) \<and>
        (\<forall>e. call_keeps (\<lambda>u. fs u = F) (IARM_Bus_BroadcastEvent E e)))"

lemma bus_call_fs: "\<forall>F. call_keeps (\<lambda>u. fs u = F) f \<Longrightarrow> fs (snd (xcall f w)) = fs w"
  by (simp add: call_keeps_def xcall_def split_beta)

lemma privacy_abort_fs: "bus_keeps_files E \<Longrightarrow> fs (emit_privacy_abort E w) = fs w"
  by (simp add: emit_privacy_abort_def send_iarm_event_maintenance_def init_iarm_connection_def broadcast_def
      bus_keeps_files_def split_beta bus_call_fs)

lemma private_parse_args:
  "device_type (parse_args argv ctx) = device_type ctx"
  "privacy_do_not_share (parse_args argv ctx) = privacy_do_not_share ctx"
  "log_path (parse_args argv ctx) = log_path ctx"
  by (simp_all add: parse_args_def Let_def)

lemma private_set_params:
  "device_type (set_params p ctx) = device_type ctx"
  "privacy_do_not_share (set_params p ctx) = privacy_do_not_share ctx"
  "log_path (set_params p ctx) = log_path ctx"
  by (simp_all add: set_params_def)

text \<open>The context \<open>c\<close> with which a run of either entry point reaches the choice of the strategy; a command line
  that asks for the upload on request does not reach it.\<close>

definition reaches_strategy ::
  "'n externals \<Rightarrow> 'n world \<Rightarrow> RuntimeContext \<Rightarrow> RuntimeContext \<Rightarrow> (int \<times> 'n world) option \<Rightarrow> bool" where
  "reaches_strategy E w ctx c run \<longleftrightarrow>
     (\<exists>p. run = uploadstblogs_run E (Some p) w \<and> c = set_params p ctx) \<or>
     (\<exists>argv. run = uploadstblogs_execute E argv w \<and> c = parse_args argv ctx \<and> \<not> uploadlogsnow_mode c)"

lemma private_context_early:
  assumes "is_privacy_mode ctx" "reaches_strategy E w ctx c run" "rrd_flag c \<noteq> 1"
  shows "early_checks c = STRAT_PRIVACY_ABORT" "log_path c = log_path ctx"
proof -
  have same: "is_privacy_mode c \<and> log_path c = log_path ctx"
    using assms(1,2) by (auto simp: reaches_strategy_def is_privacy_mode_def private_parse_args private_set_params split: if_splits)
  then show "early_checks c = STRAT_PRIVACY_ABORT" "log_path c = log_path ctx"
    using assms(3) by (simp_all add: early_checks_def)
qed

lemma private_run:
  assumes "acquire_lock LOCK_FILE w = (True, w1)" "init_context E w1 = (True, ctx, w2)" "is_privacy_mode ctx"
    and "reaches_strategy E w ctx c run" "rrd_flag c \<noteq> 1" "validate_system E c w2 = (valid, w3)"
  shows "run = Some (if valid then 0 else 1,
    release_lock (if valid then emit_privacy_abort E (enforce_privacy E (log_path ctx) w3) else w3))"
proof -
  have "run = released (run_session E c w2)"
    using assms(1,2,4) unfolding reaches_strategy_def
    by (elim disjE exE conjE) (simp_all add: uploadstblogs_run_def uploadstblogs_execute_def)
  then show ?thesis
    using assms(6) private_context_early [OF assms(3-5)] by (simp add: run_session_def released_def Let_def)
qed

text \<open>
  Claim C14. A run through either entry point, on a media client whose owner does not share data, that is not
  an upload on request and does not carry the remote debugging flag, never sends a log: nothing goes to an
  upload server, and when the validation succeeds the run ends with 0 and leaves the files as the privacy
  enforcement makes them. The two exceptions are real: the upload on request never asks for the privacy mode,
  and the remote debugging flag is looked at before it.
\<close>

theorem private_run_sends_no_log:
  fixes w :: "'n world"
  assumes "acquire_lock LOCK_FILE w = (True, w1)" "init_context E w1 = (True, ctx, w2)" "is_privacy_mode ctx"
    and "reaches_strategy E w ctx c run" "rrd_flag c \<noteq> 1" "bus_keeps_files E"
    and "validate_system E c w2 = (valid, w3)"
  shows "\<exists>ret w' t. run = Some (ret, w') \<and> trace w' = trace w @ t \<and>
    list_all (Not \<circ> sends_log) t \<and> ret = (if valid then 0 else 1) \<and>
    fs w' = (if valid then fs (enforce_privacy E (log_path ctx) w3) else fs w3)"
proof -
  let ?w4 = "if valid then emit_privacy_abort E (enforce_privacy E (log_path ctx) w3) else w3"
  have run: "run = Some (if valid then 0 else 1, release_lock ?w4)"
    using private_run [OF assms(1-5,7)] by simp
  obtain t where t: "trace w3 = trace w @ t" "list_all (Not \<circ> sends_log) t"
    using validation_trace [of E c w2] acquire_cases [OF assms(1)] context_trace [of E w1] assms(2,7) by auto
  have p: "trace (enforce_privacy E (log_path ctx) w3) = trace w3"
    by (simp add: enforce_privacy_def privacy_loop_trace split: option.split)
  have "\<exists>t. trace ?w4 = trace w @ t \<and> list_all (Not \<circ> sends_log) t"
    using t p by (simp add: emit_privacy_abort_def send_iarm_event_maintenance_trace)
  moreover have "fs ?w4 = (if valid then fs (enforce_privacy E (log_path ctx) w3) else fs w3)"
    using privacy_abort_fs [OF assms(6)] by simp
  ultimately show ?thesis using run by (auto simp: release_lock_def)
qed

text \<open>A media client with a log, whose owner does not share data.\<close>

definition private_world :: "script world" where
  "private_world = sample_world
     (quiet_script\<lparr>device_props := [(''DEVICE_TYPE'', ''mediaclient''), (''Device.X_RDKCENTRAL-COM_Privacy.PrivacyMode'', ''DO_NOT_SHARE'')]\<rparr>)
     [([''tmp''], Dir 0), ([''etc''], Dir 0), ([''etc'', ''include.properties''], Reg [] 0),
      ([''etc'', ''device.properties''], Reg [] 0), ([''opt''], Dir 0), ([''opt'', ''logs''], Dir 0),
      ([''opt'', ''logs'', ''PreviousLogs''], Dir 0), ([''opt'', ''logs'', ''app.log''], Reg ''secret'' 0)]"

definition private_params :: UploadSTBLogsParams where
  "private_params = \<lparr>p_flag = 1, p_dcm_flag = 1, p_upload_on_reboot = True, p_upload_protocol = Some ''HTTPS'',
     p_upload_http_link = Some ''https://logs.example'', p_trigger_type = TRIGGER_SCHEDULED, p_rrd_flag = False,
     p_rrd_file = None\<rparr>"

definition private_locked :: "script world" where
  "private_locked = snd (acquire_lock LOCK_FILE private_world)"

definition private_context :: "bool \<times> RuntimeContext \<times> script world" where
  "private_context = init_context script_externals private_locked"

definition private_valid :: "bool \<times> script world" where
  "private_valid = validate_system script_externals (set_params private_params (fst (snd private_context))) (snd (snd private_context))"

lemma private_facts:
  "fst (acquire_lock LOCK_FILE private_world)" "fst private_context" "is_privacy_mode (fst (snd private_context))"
  "fst private_valid"
  "os_read (fs (enforce_privacy script_externals (log_path (fst (snd private_context))) (snd private_valid)))
     ''/opt/logs/app.log'' = Some []"
  "os_read (fs private_world) ''/opt/logs/app.log'' = Some ''secret''"
  by code_simp+

lemma scripted_bus: "bus_keeps_files script_externals"
  by (simp add: bus_keeps_files_def call_keeps_def script_externals_def script_defs)

lemma private_parts:
  obtains ctx w2 w3 where "acquire_lock LOCK_FILE private_world = (True, private_locked)"
    "init_context script_externals private_locked = (True, ctx, w2)" "is_privacy_mode ctx"
    "validate_system script_externals (set_params private_params ctx) w2 = (True, w3)"
    "private_context = (True, ctx, w2)" "private_valid = (True, w3)"
proof -
  obtain ctx w2 where i: "private_context = (True, ctx, w2)" using private_facts(2) by (metis (full_types) prod.collapse)
  obtain w3 where v: "private_valid = (True, w3)" using private_facts(4) by (metis (full_types) prod.collapse)
  have a: "acquire_lock LOCK_FILE private_world = (True, private_locked)"
    using private_facts(1) unfolding private_locked_def by (metis (full_types) prod.collapse)
  have c: "init_context script_externals private_locked = (True, ctx, w2)" using i by (simp add: private_context_def)
  have m: "is_privacy_mode ctx" using private_facts(3) by (simp add: i)
  have s: "validate_system script_externals (set_params private_params ctx) w2 = (True, w3)"
    using v by (simp add: private_valid_def i)
  show thesis by (rule that [OF a c m s i v])
qed

text \<open>A command line that says the same as the parameters.\<close>

definition private_argv :: "cstring list" where
  "private_argv = [''logupload'', ''x'', ''1'', ''1'', ''true'', ''HTTPS'', ''https://logs.example'', ''cron'', ''false'']"

lemma private_argv_params:
  "parse_args private_argv (fst (snd private_context)) = set_params private_params (fst (snd private_context))"
  "\<not> uploadlogsnow_mode (parse_args private_argv (fst (snd private_context)))"
  "rrd_flag (set_params private_params (fst (snd private_context))) \<noteq> 1"
  by code_simp+

theorem private_run_sends_no_log_witness:
  "\<exists>w'. uploadstblogs_run script_externals (Some private_params) private_world = Some (0, w') \<and>
     uploadstblogs_execute script_externals private_argv private_world = Some (0, w') \<and>
     list_all (Not \<circ> sends_log) (trace w') \<and>
     os_read (fs private_world) ''/opt/logs/app.log'' = Some ''secret'' \<and> os_read (fs w') ''/opt/logs/app.log'' = Some []"
proof -
  obtain ctx w2 w3 where parts: "acquire_lock LOCK_FILE private_world = (True, private_locked)"
    "init_context script_externals private_locked = (True, ctx, w2)" "is_privacy_mode ctx"
    "validate_system script_externals (set_params private_params ctx) w2 = (True, w3)"
    and i: "private_context = (True, ctx, w2)" and v: "private_valid = (True, w3)"
    by (rule private_parts)
  let ?p = "set_params private_params ctx"
  let ?run = "uploadstblogs_run script_externals (Some private_params) private_world"
  let ?main = "uploadstblogs_execute script_externals private_argv private_world"
  have c: "rrd_flag ?p \<noteq> 1" and same: "parse_args private_argv ctx = ?p" "\<not> uploadlogsnow_mode (parse_args private_argv ctx)"
    using private_argv_params by (simp_all add: i)
  have r: "reaches_strategy script_externals private_world ctx ?p ?run"
    unfolding reaches_strategy_def by blast
  have m: "reaches_strategy script_externals private_world ctx ?p ?main"
    unfolding reaches_strategy_def using same by metis
  have t: "trace private_world = []" by (simp add: private_world_def sample_world_def)
  have "?run = ?main" using private_run [OF parts(1-3) r c parts(4)] private_run [OF parts(1-3) m c parts(4)] by simp
  with private_run_sends_no_log [OF parts(1-3) r c scripted_bus parts(4)] private_facts(5,6) t show ?thesis
    by (auto simp: i v)
qed

end
