(* ===== verification/TimestampProps.thy ===== *)
theory TimestampProps
  imports CleanupProps FileSysWf
begin

text \<open>
  The time stamps that the reboot strategy puts in front of the names of the previous logs before it archives
  them, and takes away afterwards.
\<close>

subsection \<open>Renaming the files of a directory\<close>

text \<open>A directory whose entries are regular files and which can be changed.\<close>

definition flat_dir :: "fsys \<Rightarrow> path \<Rightarrow> bool" where
  "flat_dir f d =
     (wf_fs f \<and> is_dir_at f d \<and> (\<forall>p \<in> set (denied f). \<not> under d p) \<and>
      (\<forall>n. lookup f (d @ [n]) \<noteq> None \<longrightarrow> real_name n \<and> (\<exists>c m. lookup f (d @ [n]) = Some (Reg c m))))"

lemma flat_resolve:
  assumes "flat_dir f (comps dir)"
  shows "resolve f dir = Some (comps dir)"
  using assms by (intro resolve_plain) (auto simp: flat_dir_def is_dir_at_def is_dir_def wf_fs_iff)

lemma flat_readdir:
  assumes "flat_dir f (comps dir)"
  shows "os_readdir f dir = Some (''.'' # ''..'' # children f (comps dir))"
  using assms flat_resolve [OF assms] by (auto simp: os_readdir_def flat_dir_def)

lemma flat_exists:
  assumes "flat_dir (fs w) (comps dir)" "file_utilities E" "dir \<noteq> []"
  shows "dir_exists E w dir"
proof -
  have "\<exists>n. os_stat (fs w) dir = Some n \<and> is_dir n"
    using assms(1) flat_resolve [OF assms(1)]
    by (auto simp: os_stat_def flat_dir_def is_dir_at_def is_dir_def split: option.splits)
  with assms(2,3) show ?thesis by (auto simp: dir_exists_def file_utilities_def)
qed

lemma flat_distinct:
  assumes "flat_dir f d"
  shows "distinct (''.'' # ''..'' # children f d)"
proof -
  have "distinct (concat (map (\<lambda>e. child_name d (fst e)) xs))" if "distinct (map fst xs)" for xs :: "(path \<times> node) list"
    using that
  proof (induction xs)
    case (Cons x xs)
    have "last (fst x) \<notin> set (concat (map (\<lambda>e. child_name d (fst e)) xs))" if "fst x \<noteq> []" "butlast (fst x) = d"
    proof
      assume "last (fst x) \<in> set (concat (map (\<lambda>e. child_name d (fst e)) xs))"
      then obtain e where "e \<in> set xs" "fst e \<noteq> []" "butlast (fst e) = d" "last (fst e) = last (fst x)"
        by (auto simp: child_name_def split: if_splits)
      then have "fst e = fst x" using that by (metis append_butlast_last_id)
      with Cons.prems \<open>e \<in> set xs\<close> show False by (metis distinct.simps(2) image_eqI list.map(2) set_map)
    qed
    with Cons show ?case by (auto simp: child_name_def)
  qed simp
  then have "distinct (children f d)" using assms by (simp add: children_def flat_dir_def wf_fs_def)
  moreover have "''.'' \<notin> set (children f d)" "''..'' \<notin> set (children f d)"
    using assms unfolding set_children by (auto simp: flat_dir_def real_name_def)
  ultimately show ?thesis by simp
qed

lemma rename_in_flat:
  assumes flat: "flat_dir f (comps dir)" and there: "lookup f (comps dir @ [n]) \<noteq> None"
    and free: "lookup f (comps dir @ [m]) = None" and name: "real_name m"
  obtains g where "os_rename f (slashed dir n) (slashed dir m) = Inr g" "flat_dir g (comps dir)"
    "\<And>q. lookup g q = (if q = comps dir @ [m] then lookup f (comps dir @ [n])
        else if q = comps dir @ [n] then None else lookup f q)"
proof -
  let ?d = "comps dir"
  have n: "real_name n" and wf: "wf_fs f" and dd: "is_dir_at f ?d" "\<And>p. p \<in> set (denied f) \<Longrightarrow> \<not> under ?d p"
    using flat there by (auto simp: flat_dir_def)
  obtain c t where reg: "lookup f (?d @ [n]) = Some (Reg c t)" using flat there unfolding flat_dir_def by blast
  have ne: "n \<noteq> m" using there free by auto
  have cs: "comps (slashed dir n) = ?d @ [n]" "comps (slashed dir m) = ?d @ [m]" using n name by simp_all
  have "\<not> List.member (denied f) (?d @ [x])" for x using dd(2) [of "?d @ [x]"] by auto
  moreover have "\<not> under (?d @ [n]) (?d @ [m])" using ne by (simp add: under_def)
  ultimately have "\<exists>g. os_rename f (slashed dir n) (slashed dir m) = Inr g"
    unfolding os_rename_def Let_def cs using reg free ne dd(1) by (simp add: is_dir_at_def is_dir_def)
  then obtain g where g: "os_rename f (slashed dir n) (slashed dir m) = Inr g" by blast
  have l: "lookup g q = (if q = ?d @ [m] then lookup f (?d @ [n]) else if q = ?d @ [n] then None else lookup f q)" for q
    using rename_file [OF wf g, unfolded cs, of c t] reg ne by auto
  have "denied g = denied f" using g by (auto simp: os_rename_def Let_def split: option.splits if_splits)
  moreover have "is_dir_at g ?d" using dd(1) by (simp add: is_dir_at_def l)
  ultimately have "flat_dir g ?d"
    using flat wf_rename [OF wf g] name by (auto simp: flat_dir_def l)
  with g l show ?thesis using that by blast
qed

text \<open>When the new names are free and differ, the loop moves every file to its new name.\<close>

definition renaming_ok :: "(string \<Rightarrow> string option) \<Rightarrow> string list \<Rightarrow> cstring \<Rightarrow> fsys \<Rightarrow> bool" where
  "renaming_ok new ns dir f =
     (distinct ns \<and>
      (\<forall>n \<in> set ns. \<forall>m. new n = Some m \<longrightarrow> lookup f (comps dir @ [n]) \<noteq> None \<and> lookup f (comps dir @ [m]) = None \<and>
         real_name m \<and> \<not> too_long (slashed dir n) \<and> \<not> too_long (slashed dir m)) \<and>
      (\<forall>n \<in> set ns. \<forall>n' \<in> set ns. \<forall>m. new n = Some m \<and> new n' = Some m \<longrightarrow> n = n'))"

definition renamed :: "(string \<Rightarrow> string option) \<Rightarrow> string list \<Rightarrow> path \<Rightarrow> fsys \<Rightarrow> fsys \<Rightarrow> bool" where
  "renamed new ns d f g =
     ((\<forall>n \<in> set ns. \<forall>m. new n = Some m \<longrightarrow> lookup g (d @ [m]) = lookup f (d @ [n]) \<and> lookup g (d @ [n]) = None) \<and>
      (\<forall>q. (\<forall>n \<in> set ns. \<forall>m. new n = Some m \<longrightarrow> q \<noteq> d @ [n] \<and> q \<noteq> d @ [m]) \<longrightarrow> lookup g q = lookup f q))"

lemma renamed_step:
  assumes "renaming_ok new (n # ns) dir f" "new n = Some m"
    and g: "\<And>q. lookup g q = (if q = comps dir @ [m] then lookup f (comps dir @ [n])
        else if q = comps dir @ [n] then None else lookup f q)"
  shows "renaming_ok new ns dir g" "renamed new ns (comps dir) g h \<Longrightarrow> renamed new (n # ns) (comps dir) f h"
proof -
  have new: "lookup f (comps dir @ [n]) \<noteq> None" "lookup f (comps dir @ [m]) = None"
    using assms(1,2) by (simp_all add: renaming_ok_def)
  have later: "n' \<noteq> n \<and> n' \<noteq> m \<and> m' \<noteq> m \<and> m' \<noteq> n \<and> lookup f (comps dir @ [n']) \<noteq> None \<and>
      lookup f (comps dir @ [m']) = None"
    if "n' \<in> set ns" "new n' = Some m'" for n' m'
    using assms(1,2) that new unfolding renaming_ok_def by (metis distinct.simps(2) list.set_intros)
  show "renaming_ok new ns dir g"
    using assms(1) later by (auto simp: renaming_ok_def g)
  assume h: "renamed new ns (comps dir) g h"
  have moved: "lookup h (comps dir @ [m']) = lookup g (comps dir @ [n'])" "lookup h (comps dir @ [n']) = None"
    if "n' \<in> set ns" "new n' = Some m'" for n' m'
    using h that by (simp_all add: renamed_def)
  have kept: "lookup h q = lookup g q"
    if "\<And>n' m'. n' \<in> set ns \<Longrightarrow> new n' = Some m' \<Longrightarrow> q \<noteq> comps dir @ [n'] \<and> q \<noteq> comps dir @ [m']" for q
    using h that by (simp add: renamed_def)
  have "lookup h (comps dir @ [m]) = lookup f (comps dir @ [n])"
    using kept [of "comps dir @ [m]"] later by (auto simp: g)
  moreover have "lookup h (comps dir @ [n]) = None"
    using kept [of "comps dir @ [n]"] later new by (fastforce simp: g)
  moreover have "lookup h (comps dir @ [m']) = lookup f (comps dir @ [n'])" if "n' \<in> set ns" "new n' = Some m'" for n' m'
    using moved(1) [OF that] later [OF that] by (simp add: g)
  moreover have "lookup h q = lookup f q"
    if "\<forall>n' \<in> set (n # ns). \<forall>m'. new n' = Some m' \<longrightarrow> q \<noteq> comps dir @ [n'] \<and> q \<noteq> comps dir @ [m']" for q
    using kept [of q] that assms(2) by (simp add: g)
  ultimately show "renamed new (n # ns) (comps dir) f h"
    using assms(2) moved(2) by (simp add: renamed_def)
qed

lemma rename_loop_files:
  assumes "flat_dir (fs w) (comps dir)" "renaming_ok new ns dir (fs w)"
  shows "\<exists>f. rename_loop dir new ns e w = (e, w\<lparr>fs := f\<rparr>) \<and> flat_dir f (comps dir) \<and> renamed new ns (comps dir) (fs w) f"
  using assms
proof (induction ns arbitrary: w)
  case Nil
  then show ?case by (intro exI [of _ "fs w"]) (simp add: renamed_def)
next
  case (Cons n ns)
  show ?case
  proof (cases "new n")
    case None
    then have "renaming_ok new ns dir (fs w)" using Cons.prems(2) by (simp add: renaming_ok_def)
    from Cons.IH [OF Cons.prems(1) this] None show ?thesis by (auto simp: renamed_def)
  next
    case (Some m)
    have new: "lookup (fs w) (comps dir @ [n]) \<noteq> None" "lookup (fs w) (comps dir @ [m]) = None" "real_name m"
      "\<not> too_long (slashed dir n)" "\<not> too_long (slashed dir m)"
      using Cons.prems(2) Some by (simp_all add: renaming_ok_def)
    obtain g where g: "os_rename (fs w) (slashed dir n) (slashed dir m) = Inr g" "flat_dir g (comps dir)"
      "\<And>q. lookup g q = (if q = comps dir @ [m] then lookup (fs w) (comps dir @ [n])
        else if q = comps dir @ [n] then None else lookup (fs w) q)"
      using rename_in_flat [OF Cons.prems(1) new(1-3)] by blast
    note step = renamed_step [OF Cons.prems(2) Some g(3)]
    have "rename_loop dir new (n # ns) e w = rename_loop dir new ns e (w\<lparr>fs := g\<rparr>)"
      using Some new g(1) by (simp add: rename_entry_def on_fs_def)
    with Cons.IH [of "w\<lparr>fs := g\<rparr>"] g(2) step show ?thesis by fastforce
  qed
qed

subsection \<open>Stamps on and off\<close>

text \<open>The names in a directory are new to the stamp, and short enough for it.\<close>

definition stampable :: "fsys \<Rightarrow> cstring \<Rightarrow> cstring \<Rightarrow> bool" where
  "stampable f dir ts =
     (\<forall>n. lookup f (comps dir @ [n]) \<noteq> None \<longrightarrow> \<not> is_prefix ts n \<and> \<not> too_long (slashed dir (ts @ n)))"

lemma stamp_prefix:
  assumes "gmtime_r s = Some t"
  shows "length (stamp t @ ''-'') = 17" "hd (stamp t @ ''-'') \<noteq> CHR ''.''" "CHR ''/'' \<notin> set (stamp t @ ''-'')"
proof -
  obtain a b c d e f g h i j x where
    f: "stamp t = [a, b] @ ''-'' @ [c, d] @ ''-'' @ [e, f] @ ''-'' @ [g, h] @ ''-'' @ [i, j] @ x"
    "list_all isdigit [a, b, c, d, e, f, g, h, i, j]" "x = ''AM'' \<or> x = ''PM''"
    by (rule stamp_form [OF assms])
  have "\<not> isdigit (CHR ''.'')" "\<not> isdigit (CHR ''/'')" by (simp_all add: isdigit_def)
  then show "length (stamp t @ ''-'') = 17" "hd (stamp t @ ''-'') \<noteq> CHR ''.''" "CHR ''/'' \<notin> set (stamp t @ ''-'')"
    using f by auto
qed

lemma added_names:
  "add_prefix ts n = Some m \<Longrightarrow> m = ts @ n \<and> (n = [] \<or> hd n \<noteq> CHR ''.'') \<and> \<not> is_prefix ts n"
  by (auto simp: add_prefix_def skip_timestamp_def split: if_splits)

lemma long_not_dots: "length ts = 17 \<Longrightarrow> ts @ r \<noteq> ''.'' \<and> ts @ r \<noteq> ''..''"
  by (auto dest: arg_cong [of _ _ length])

lemma removed_names:
  assumes "length ts = 17" "hd ts \<noteq> CHR ''.''"
  shows "remove_prefix ts n = Some m \<longleftrightarrow> n = ts @ m \<and> m \<noteq> []"
proof -
  have ts: "ts \<noteq> []" using assms(1) by auto
  show ?thesis
  proof (cases "is_prefix ts n")
    case True
    then obtain r where r: "n = ts @ r" by (auto simp: is_prefix_iff)
    have "hd n \<noteq> CHR ''.''" "n \<noteq> ''..''" using assms ts long_not_dots [OF assms(1)] by (auto simp: r)
    then show ?thesis using assms(1) by (cases r) (auto simp: r remove_prefix_def timestamp_cut_def is_prefix_iff)
  next
    case False
    then have "timestamp_cut ts n = None" using assms(1) by (simp add: timestamp_cut_def)
    moreover have "n \<noteq> ts @ m" using False by (auto simp: is_prefix_iff)
    ultimately show ?thesis by (simp add: remove_prefix_def)
  qed
qed

lemma adding_ok:
  assumes "flat_dir f (comps dir)" "stampable f dir ts" "CHR ''/'' \<notin> set ts" "length ts = 17"
  shows "renaming_ok (add_prefix ts) (''.'' # ''..'' # children f (comps dir)) dir f"
proof -
  have "lookup f (comps dir @ [n]) \<noteq> None \<and> lookup f (comps dir @ [m]) = None \<and> real_name m \<and>
      \<not> too_long (slashed dir n) \<and> \<not> too_long (slashed dir m)"
    if n: "n \<in> set (''.'' # ''..'' # children f (comps dir))" "add_prefix ts n = Some m" for n m
  proof -
    have m: "m = ts @ n" "n = [] \<or> hd n \<noteq> CHR ''.''" using added_names [OF n(2)] by simp_all
    then have there: "lookup f (comps dir @ [n]) \<noteq> None" using n(1) unfolding list.set set_children by auto
    then have "real_name n" "\<not> too_long (slashed dir m)"
      using assms(1,2) m(1) by (auto simp: flat_dir_def stampable_def)
    moreover have "lookup f (comps dir @ [m]) = None"
      using assms(2) by (auto simp: stampable_def m(1) is_prefix_iff)
    moreover have "real_name m" using \<open>real_name n\<close> assms(3) long_not_dots [OF assms(4)]
      by (auto simp: real_name_def m(1))
    ultimately show ?thesis using there by (auto simp: too_long_def slashed_def m(1))
  qed
  moreover have "n = n'" if "add_prefix ts n = Some m" "add_prefix ts n' = Some m" for n n' m
    using added_names [OF that(1)] added_names [OF that(2)] by simp
  ultimately show ?thesis using flat_distinct [OF assms(1)] unfolding renaming_ok_def by blast
qed

text \<open>A name that carries the stamp afterwards is that of a file that has got it.\<close>

lemma stamped_origin:
  assumes f: "flat_dir f (comps dir)" "stampable f dir ts"
    and g: "renamed (add_prefix ts) (''.'' # ''..'' # children f (comps dir)) (comps dir) f g"
    and there: "lookup g (comps dir @ [ts @ m]) \<noteq> None"
  shows "m \<in> set (children f (comps dir))" "add_prefix ts m = Some (ts @ m)"
proof -
  let ?ns = "''.'' # ''..'' # children f (comps dir)"
  have "lookup f (comps dir @ [ts @ m]) = None" using f(2) by (auto simp: stampable_def is_prefix_iff)
  then obtain n k where n: "n \<in> set ?ns" "add_prefix ts n = Some k" "ts @ m = n \<or> ts @ m = k"
    using g there unfolding renamed_def by (metis append1_eq_conv)
  have "ts @ m \<noteq> n" using added_names [OF n(2)] by (auto simp: is_prefix_iff)
  then have "n = m" using n(3) added_names [OF n(2)] by simp
  then have "add_prefix ts m = Some (ts @ m)" "m \<in> set ?ns" using n added_names [OF n(2)] by auto
  moreover have "m \<noteq> ''.''" "m \<noteq> ''..''" using added_names [OF calculation(1)] by auto
  ultimately show "m \<in> set (children f (comps dir))" "add_prefix ts m = Some (ts @ m)" by simp_all
qed

lemma removing_ok:
  assumes f: "flat_dir f (comps dir)" "stampable f dir ts" and ts: "length ts = 17" "hd ts \<noteq> CHR ''.''"
    and g: "flat_dir g (comps dir)" "renamed (add_prefix ts) (''.'' # ''..'' # children f (comps dir)) (comps dir) f g"
  shows "renaming_ok (remove_prefix ts) (''.'' # ''..'' # children g (comps dir)) dir g"
proof -
  have "lookup g (comps dir @ [n]) \<noteq> None \<and> lookup g (comps dir @ [m]) = None \<and> real_name m \<and>
      \<not> too_long (slashed dir n) \<and> \<not> too_long (slashed dir m)"
    if n: "n \<in> set (''.'' # ''..'' # children g (comps dir))" "remove_prefix ts n = Some m" for n m
  proof -
    have m: "n = ts @ m" "m \<noteq> []" using n(2) removed_names [OF ts] by simp_all
    then have there: "lookup g (comps dir @ [ts @ m]) \<noteq> None"
      using n(1) long_not_dots [OF ts(1), of m] unfolding list.set set_children by auto
    note o = stamped_origin [OF f g(2) there]
    then have "lookup f (comps dir @ [m]) \<noteq> None" unfolding set_children by simp
    then have "real_name m" "\<not> too_long (slashed dir n)" using f by (auto simp: flat_dir_def stampable_def m(1))
    moreover have "lookup g (comps dir @ [m]) = None" using g(2) o by (simp add: renamed_def)
    ultimately show ?thesis using there by (auto simp: too_long_def slashed_def m(1))
  qed
  moreover have "n = n'" if "remove_prefix ts n = Some m" "remove_prefix ts n' = Some m" for n n' m
    using that removed_names [OF ts] by simp
  ultimately show ?thesis using flat_distinct [OF g(1)] unfolding renaming_ok_def by blast
qed

lemma stamps_cancel:
  assumes f: "flat_dir f (comps dir)" "stampable f dir ts" and ts: "length ts = 17" "hd ts \<noteq> CHR ''.''"
    and g: "renamed (add_prefix ts) (''.'' # ''..'' # children f (comps dir)) (comps dir) f g"
    and h: "renamed (remove_prefix ts) (''.'' # ''..'' # children g (comps dir)) (comps dir) g h"
  shows "lookup h q = lookup f q"
proof (cases "\<exists>n \<in> set (''.'' # ''..'' # children f (comps dir)). \<exists>m. add_prefix ts n = Some m \<and>
    (q = comps dir @ [n] \<or> q = comps dir @ [m])")
  case True
  then obtain n m where n0: "n \<in> set (''.'' # ''..'' # children f (comps dir))" "add_prefix ts n = Some m"
    "q = comps dir @ [n] \<or> q = comps dir @ [m]" by blast
  then have n: "n \<in> set (''.'' # ''..'' # children f (comps dir))" "add_prefix ts n = Some (ts @ n)"
    "q = comps dir @ [n] \<or> q = comps dir @ [ts @ n]" using added_names [OF n0(2)] by simp_all
  have "n \<noteq> ''.''" "n \<noteq> ''..''" using added_names [OF n(2)] by auto
  then have n': "n \<in> set (children f (comps dir))" using n(1) by simp
  then have "lookup f (comps dir @ [n]) \<noteq> None" unfolding set_children by simp
  then have ne: "n \<noteq> []" using f(1) unfolding flat_dir_def real_name_def by blast
  have there: "lookup g (comps dir @ [ts @ n]) = lookup f (comps dir @ [n])"
    using g n(2) n' by (simp add: renamed_def)
  then have "ts @ n \<in> set (children g (comps dir))" using n' unfolding set_children by simp
  moreover have "remove_prefix ts (ts @ n) = Some n" using removed_names [OF ts] ne by simp
  ultimately have "lookup h (comps dir @ [n]) = lookup f (comps dir @ [n])" "lookup h (comps dir @ [ts @ n]) = None"
    using h there by (simp_all add: renamed_def)
  moreover have "lookup f (comps dir @ [ts @ n]) = None" using f(2) by (auto simp: stampable_def is_prefix_iff)
  ultimately show ?thesis using n(3) by auto
next
  case False
  have "q \<noteq> comps dir @ [n] \<and> q \<noteq> comps dir @ [m]"
    if n: "n \<in> set (''.'' # ''..'' # children g (comps dir))" "remove_prefix ts n = Some m" for n m
  proof -
    have m: "n = ts @ m" using n(2) removed_names [OF ts] by simp
    then have "lookup g (comps dir @ [ts @ m]) \<noteq> None"
      using n(1) long_not_dots [OF ts(1), of m] unfolding list.set set_children by auto
    from stamped_origin [OF f g this] False show ?thesis unfolding m by auto
  qed
  then have "lookup h q = lookup g q" using h unfolding renamed_def by blast
  also have "lookup g q = lookup f q" using g False unfolding renamed_def by blast
  finally show ?thesis .
qed

text \<open>
  Claim C32. Time stamps on and off.  In a directory of regular files whose names are new to the stamp and short
  enough for it, the stamp is put in front of every name that is not hidden and not that of a backup,
  and taking the stamps away again restores the tree; neither reports an error.
\<close>

theorem time_stamps_come_off:
  assumes "file_utilities E" "dir \<noteq> []" "gmtime_r (clock w) = Some t"
    and "flat_dir (fs w) (comps dir)" "stampable (fs w) dir (stamp t @ ''-'')"
  shows "\<exists>w1 w2. add_timestamp_to_files E dir w = (0, w1) \<and> remove_timestamp_from_files E dir w1 = (0, w2) \<and>
    (\<forall>n. lookup (fs w) (comps dir @ [n]) \<noteq> None \<and> \<not> skip_timestamp (stamp t @ ''-'') n \<longrightarrow>
       lookup (fs w1) (comps dir @ [stamp t @ ''-'' @ n]) = lookup (fs w) (comps dir @ [n]) \<and>
       lookup (fs w1) (comps dir @ [n]) = None) \<and>
    (\<forall>q. lookup (fs w2) q = lookup (fs w) q)"
proof -
  define ts where "ts = stamp t @ ''-''"
  note ts = stamp_prefix [OF assms(3), folded ts_def]
  note st = assms(5) [folded ts_def]
  let ?w = "w\<lparr>g_timestamp_prefix := ts\<rparr>" and ?ns = "''.'' # ''..'' # children (fs w) (comps dir)"
  have flat: "flat_dir (fs ?w) (comps dir)" using assms(4) by simp
  obtain g where g: "rename_loop dir (add_prefix ts) ?ns 0 ?w = (0, ?w\<lparr>fs := g\<rparr>)" "flat_dir g (comps dir)"
    "renamed (add_prefix ts) ?ns (comps dir) (fs w) g"
    using rename_loop_files [OF flat, of "add_prefix ts" ?ns 0] adding_ok [OF assms(4) st ts(3,1)] by auto
  let ?w1 = "?w\<lparr>fs := g\<rparr>" and ?ms = "''.'' # ''..'' # children g (comps dir)"
  have flat1: "flat_dir (fs ?w1) (comps dir)" using g(2) by simp
  obtain h where h: "rename_loop dir (remove_prefix ts) ?ms 0 ?w1 = (0, ?w1\<lparr>fs := h\<rparr>)"
    "renamed (remove_prefix ts) ?ms (comps dir) g h"
    using rename_loop_files [OF flat1, of "remove_prefix ts" ?ms 0]
      removing_ok [OF assms(4) st ts(1,2) g(2,3)] by auto
  have "add_timestamp_to_files E dir w = (0, ?w1)"
    using flat_exists [OF assms(4,1,2)] assms(3) flat_readdir [OF assms(4)] g(1)
    by (simp add: add_timestamp_to_files_def Let_def flip: ts_def)
  moreover have "remove_timestamp_from_files E dir ?w1 = (0, ?w1\<lparr>fs := h\<rparr>)"
    using flat_exists [OF flat1 assms(1,2)] flat_readdir [OF g(2)] h(1) by (simp add: remove_timestamp_from_files_def)
  moreover have "lookup g (comps dir @ [ts @ n]) = lookup (fs w) (comps dir @ [n]) \<and> lookup g (comps dir @ [n]) = None"
    if "lookup (fs w) (comps dir @ [n]) \<noteq> None" "\<not> skip_timestamp ts n" for n
    using g(3) that unfolding renamed_def list.set set_children by (simp add: add_prefix_def)
  moreover have "lookup h q = lookup (fs w) q" for q
    by (rule stamps_cancel [OF assms(4) st ts(1,2) g(3) h(2)])
  ultimately show ?thesis
    by (intro exI [of _ ?w1] exI [of _ "?w1\<lparr>fs := h\<rparr>"]) (simp add: ts_def)
qed

lemma log_world_flat: "flat_dir (fs log_world) (comps ''/opt/logs'')"
  unfolding flat_dir_def log_world_facts(5)
  by (auto simp: log_world_def sample_world_def log_tree_def lookup_def wf_fs_def is_dir_at_def is_dir_def
      real_name_def split: if_splits)

lemma log_world_stampable: "stampable (fs log_world) ''/opt/logs'' ''11-14-23-10-13PM-''"
  unfolding stampable_def log_world_facts(5)
  by (auto simp: log_world_def sample_world_def log_tree_def lookup_def too_long_def MAX_PATH_LENGTH_def slashed_def
      split: if_splits)

theorem time_stamps_come_off_witness:
  "\<exists>w1 w2. add_timestamp_to_files script_externals ''/opt/logs'' log_world = (0, w1) \<and>
     remove_timestamp_from_files script_externals ''/opt/logs'' w1 = (0, w2) \<and>
     lookup (fs w1) [''opt'', ''logs'', ''11-14-23-10-13PM-a.log''] = Some (Reg ''secret'' 0) \<and>
     lookup (fs w1) [''opt'', ''logs'', ''a.log''] = None \<and>
     lookup (fs w2) [''opt'', ''logs'', ''a.log''] = Some (Reg ''secret'' 0)"
proof -
  let ?t = "\<lparr>tm_sec = 20, tm_min = 13, tm_hour = 22, tm_mday = 14, tm_mon = 10, tm_year = 123, tm_wday = 2\<rparr>"
  have t: "gmtime_r (clock log_world) = Some ?t" unfolding log_world_def sample_world_def by code_simp
  have s: "stamp ?t @ ''-'' = ''11-14-23-10-13PM-''" "stamp ?t @ ''-'' @ ''a.log'' = ''11-14-23-10-13PM-a.log''"
    by (simp_all add: stamp_def dec2_def char_of_def)
  have skip: "\<not> skip_timestamp ''11-14-23-10-13PM-'' ''a.log''" by code_simp
  from time_stamps_come_off [OF script_file_utilities _ t log_world_flat, unfolded s(1), OF _ log_world_stampable] skip
  show ?thesis using log_world_lookup(1) s(2) by (fastforce simp: log_world_facts(5))
qed

end
