(* ===== verification/Spec2Isabelle.thy ===== *)
theory Spec2Isabelle
  imports CronDefects CronBits UploadEngineProps DcmSchedule ConfFileProps BackupSafety UsbSuccess RunProps TimestampProps
begin

text \<open>
  A verification development for the DCM agent, the device configuration management of RDK set-top
  boxes.

  \<^bold>\<open>The program.\<close>  The repository holds four programs that share the logs of a device.

  \<^item> The daemon \<^verbatim>\<open>dcmd\<close> (\<^verbatim>\<open>dcm.c\<close>) subscribes to the telemetry component on the message bus
    (\<^verbatim>\<open>dcm_rbus.c\<close>).  When the bus announces a configuration file, the daemon reads the file
    (\<^verbatim>\<open>dcm_parseconf.c\<close>), stores the settings for the other programs, and starts two jobs with the cron
    patterns it found: the log upload and the firmware update.  A job is a thread (\<^verbatim>\<open>dcm_schedjob.c\<close>)
    that parses its pattern and computes the next run (\<^verbatim>\<open>dcm_cronparse.c\<close>), waits for it and calls
    back into the daemon.
  \<^item> The upload tool (\<^verbatim>\<open>uploadstblogs/\<close>) is called by the daemon as a library
    (\<^verbatim>\<open>uploadstblogs_run\<close>) and from the shell (\<^verbatim>\<open>uploadstblogs_execute\<close>).  Under a lock it builds a
    runtime context, selects a strategy, collects and archives the logs, and sends the archive on the
    direct path or through CodeBig, with retries and a fallback, reporting on the IARM bus.
  \<^item> The backup of the logs at boot (\<^verbatim>\<open>backup_logs/\<close>) moves the logs of the last boot into the
    directory of previous logs, which the reboot strategy of the upload tool then archives.
  \<^item> The copy to a USB drive (\<^verbatim>\<open>usbLogUpload/\<close>) uses the upload tool's archive manager.

  \<^bold>\<open>Conventions.\<close>  A definition has the name of the C function, type or constant it models; helper
  definitions for loop bodies and parts of long functions have names of their own.  A C string is
  the list of its characters, an \<^verbatim>\<open>int\<close> is an integer whose wrap-around is written out where the code
  can overflow (\<^verbatim>\<open>int32\<close>, \<^verbatim>\<open>uint32\<close>), a byte array is a list of 8-bit words.  \<^const>\<open>None\<close> as the result of an
  operation is undefined behaviour (an access outside an array) or a call that does not return;
  errors that the code handles are its own return codes.  Code outside the repository (the
  libraries of RDK, the bus, OpenSSL, zlib, cJSON, the shell) is an argument of the definitions: the
  records \<open>externals\<close>, \<open>dcm_externals\<close> and \<open>usb_externals\<close>, the allocator of the cron parser and the
  notifier of the backup.  What a property needs of it is a named hypothesis, such as
  \<open>file_utilities\<close>, and is shown to be satisfiable by the instances of the theory \<open>Environment\<close>, which run on
  a script of answers.

  \<^bold>\<open>Theories.\<close>

  \<^item> \<open>DcmPrelude\<close>: C strings, the parts of the C library in use, byte arrays.  \<open>CivilTime\<close>: \<^verbatim>\<open>gmtime_r\<close> and
    \<^verbatim>\<open>timegm\<close> over the proleptic Gregorian calendar, with the lemmas that they are inverse and monotone.
  \<^item> \<open>CronParse\<close>, \<open>CronNext\<close>: \<^verbatim>\<open>dcm_cronparse.c\<close>, function by function.  \<open>CronParseProps\<close>: no access is
    outside an array and the bit sets are in range.  \<open>CronRender\<close>: abstract schedules, their text, and the
    proof that the parser reads it back.  \<open>CronNextProps\<close>: when an instant matches, and the proof that
    the search finds the earliest.  \<open>CronDefects\<close>: two classes of patterns and instants for which it does not, and an
    input on which it skips a month.  \<open>CronBits\<close>: the bit arrays implement sets.
  \<^item> \<open>SchedJob\<close>: \<^verbatim>\<open>dcm_schedjob.c\<close>; the thread is a program counter and a step relation, interleaved with
    the operations of the main thread, the passage of time and settings of the clock to any instant, as
    the thread waits on the real-time clock.  \<open>SchedJobProps\<close> proves the properties in a
    locale over the two cron functions, interpreted on those of \<open>CronParse\<close> and \<open>CronNext\<close>.
  \<^item> \<open>FileSys\<close>, \<open>FileSysProps\<close>, \<open>FileSysWf\<close>: files, directories and symbolic links, and the system calls.
  \<^item> \<open>UploadTypes\<close>: \<^verbatim>\<open>uploadstblogs_types.h\<close> and the world, which is the file system, the clock, the locks,
    the trace of what has left the process, and the static variables.  \<open>Environment\<close>: the contracts of the
    libraries and their scripted instances.
  \<^item> \<open>EventManager\<close>, \<open>FileOps\<close>, \<open>Validation\<close>, \<open>PathHandler\<close>, \<open>UploadEngine\<close>, \<open>ContextManager\<close>,
    \<open>CleanupHandler\<close>, \<open>ArchiveManager\<close>, \<open>Strategies\<close>, \<open>Uploadstblogs\<close>: the files of
    \<^verbatim>\<open>uploadstblogs/src\<close>, in the order in which they call each other.  \<open>UploadEngine\<close> states the
    contract of an upload path as a locale and interprets it on both paths.  \<open>UploadEngineProps\<close>,
    \<open>CleanupProps\<close>, \<open>ArchiveProps\<close>: their properties.  \<open>TimestampProps\<close>: the time stamps
    that the reboot strategy puts in front of the names of the logs come off again.
  \<^item> \<open>WorldInvariant\<close>, \<open>RunInvariant\<close>: a predicate on the files, the clock and the locks that the system
    calls keep (the locale \<open>outer_invariant\<close>) and that the code outside keeps (\<open>world_invariant\<close>) is kept by every
    operation of the tool.  \<open>RunProps\<close> uses it for whole runs: the lock is released, the strings of the
    context fit their arrays, and a private device sends no log, apart from the two kinds of run that do not
    ask for the privacy mode.
  \<^item> \<open>DcmUtils\<close>, \<open>DcmSettings\<close>, \<open>DcmRbus\<close>, \<open>DcmDaemon\<close>: the daemon; the loops of \<^verbatim>\<open>main\<close> are a step relation
    in which the callbacks of the bus and of the jobs may come at every step.  \<open>DcmProps\<close>, \<open>ConfFileProps\<close>:
    its properties, and the settings file between the daemon and the upload tool.  \<open>DcmSchedule\<close> composes the
    daemon, the cron parser, the search and the scheduler: from a configuration to the deadline of the thread.
  \<^item> \<open>BackupLogs\<close>, \<open>BackupProps\<close>, \<open>BackupSafety\<close>: the backup at boot.  Its abstract specification is a
    locale of four generations of files, which is interpreted on the file system.
  \<^item> \<open>UsbLog\<close>, \<open>UsbProps\<close>, \<open>UsbSuccess\<close>: the copy to a USB drive, with what becomes of the logs when it fails
    and when it succeeds.

  \<^bold>\<open>Bounds.\<close>  Instants go up to 999999900000000 seconds, inside the years that \<^verbatim>\<open>struct tm\<close> holds; the
  scheduler counts nanoseconds.  The search for a day takes at most 366 rounds, as in the code.  The
  recursions into directories have fuel 300: their paths are cut to 511 characters and grow by at least two
  on each level, so a deeper recursion repeats a path and does not end in the code either; for the clean-up of old archives
  \<open>old_archives_total\<close> in \<open>CleanupProps\<close> proves that the fuel is enough when the paths fit.  Other loops
  that may not end (the search for the next run, the wait for another program, the proxy fallback) are partial
  functions with values in an option, and termination is proved where it holds.

  \<^bold>\<open>Simplifications.\<close>  A loop over \<^verbatim>\<open>readdir\<close> runs over the names present when the directory is opened.
  A symbolic link is followed at the last component of a path only.  Log lines are left out.  The build
  has IARM, the maintenance manager and telemetry enabled.  One program runs at a time on the file
  system, except where a parameter changes it: a call of code outside may change files, the clock
  and the locks in any way the hypotheses of a property allow.

  \<^bold>\<open>Not modelled.\<close>  Forking into the background and the signal handlers of the daemon, \<^verbatim>\<open>rbus_cleanup\<close> and the
  set-up of the logger, which have no effect on the rest; structures of the headers that no code uses;
  the unit and functional tests, the build files and the documentation.
\<close>

end
